(* ===== verification/Go_Base.thy ===== *)
theory Go_Base
  imports Main "HOL-Library.Word" "HOL-Library.State_Monad" "HOL-Library.Sublist"
begin

text \<open>
  Prelude of the development: the parts of the Go language and of its standard library that
  the operator uses, and the lemma collections shared by the component theories.

  \<^item> error values with \<open>fmt.Errorf\<close>'s \<open>%w\<close> wrapping, \<open>errors.Is\<close> and \<open>err.Error()\<close>;
  \<^item> \<open>strings.Split\<close>, \<open>Contains\<close>, \<open>TrimSuffix\<close>, \<open>TrimPrefix\<close>;
  \<^item> the \<open>fmt\<close> verbs \<open>%d\<close> and \<open>%x\<close> with the round trips that make them injective, and \<open>%q\<close>;
  \<^item> the 64-bit signed \<open>int\<close> and its conversion to \<open>uint\<close>;
  \<^item> a Go map filled by a loop over a slice (the last write of a key wins).

  Strings are lists of bytes, as in Go.
\<close>

named_theorems go_simps \<open>equations that evaluate the library functions of the model\<close>
named_theorems trace_rules \<open>composition rules of the event-trace logic\<close>

section \<open>Error values\<close>

text \<open>
  \<open>ErrorString\<close> is the value of \<open>errors.New\<close> and of a \<open>fmt.Errorf\<close> without \<open>%w\<close>;
  \<open>WrapError p e s\<close> is \<open>fmt.Errorf\<close> with \<open>%w\<close> between the texts \<open>p\<close> and \<open>s\<close>;
  \<open>ErrTimeout\<close> is the sentinel of package exec; \<open>External k m\<close> is an error made outside the
  repository (API server, operating system), with a kind and a message.
\<close>

datatype goerr =
    ErrorString string
  | WrapError string goerr string
  | ErrTimeout
  | External string string

fun Error :: "goerr \<Rightarrow> string" where
  "Error (ErrorString m) = m"
| "Error (WrapError p e s) = p @ Error e @ s"
| "Error ErrTimeout = ''command timed out''"
| "Error (External k m) = m"

fun errors_Is :: "goerr \<Rightarrow> goerr \<Rightarrow> bool" where
  "errors_Is (WrapError p e s) t = (WrapError p e s = t \<or> errors_Is e t)"
| "errors_Is e t = (e = t)"

lemma errors_Is_wrap [simp]: "errors_Is (WrapError p e s) ErrTimeout = errors_Is e ErrTimeout"
  by simp

lemma errors_Is_flat [simp]: "\<not> errors_Is (ErrorString m) ErrTimeout"
  by simp

type_synonym 'a result = "goerr + 'a"

section \<open>Integers\<close>

text \<open>Go's \<open>int\<close> is 64 bits wide on the nodes the operator runs on; arithmetic wraps.\<close>

definition wrap_int :: "int \<Rightarrow> int" where
  "wrap_int x = (x + 2 ^ 63) mod 2 ^ 64 - 2 ^ 63"

definition uint_of_int :: "int \<Rightarrow> nat" where
  "uint_of_int x = nat (x mod 2 ^ 64)"

lemma wrap_int_id [simp]: "- (2 ^ 63) \<le> x \<Longrightarrow> x < 2 ^ 63 \<Longrightarrow> wrap_int x = x"
  by (simp add: wrap_int_def)

lemma wrap_int_range: "- (2 ^ 63) \<le> wrap_int x \<and> wrap_int x < 2 ^ 63"
proof -
  have "0 \<le> (x + 2 ^ 63) mod 2 ^ 64" "(x + 2 ^ 63) mod 2 ^ 64 < (2 ^ 64 :: int)"
    by simp_all
  then show ?thesis by (simp add: wrap_int_def)
qed

lemma uint_of_int_id [simp]: "0 \<le> x \<Longrightarrow> x < 2 ^ 63 \<Longrightarrow> uint_of_int x = nat x"
  by (simp add: uint_of_int_def)

section \<open>Package strings\<close>

text \<open>\<open>strings.Split s sep\<close> for a separator of one byte.\<close>

fun Split :: "string \<Rightarrow> char \<Rightarrow> string list" where
  "Split [] c = [[]]"
| "Split (x # xs) c =
     (if x = c then [] # Split xs c
      else case Split xs c of [] \<Rightarrow> [[x]] | y # ys \<Rightarrow> (x # y) # ys)"

fun Join :: "char \<Rightarrow> string list \<Rightarrow> string" where
  "Join c [] = []"
| "Join c [x] = x"
| "Join c (x # y # ys) = x @ c # Join c (y # ys)"

fun Contains :: "string \<Rightarrow> string \<Rightarrow> bool" where
  "Contains [] sub = (sub = [])"
| "Contains (x # xs) sub = (take (length sub) (x # xs) = sub \<or> Contains xs sub)"

definition TrimSuffix :: "string \<Rightarrow> string \<Rightarrow> string" where
  "TrimSuffix s suf =
     (if length suf \<le> length s \<and> drop (length s - length suf) s = suf
      then take (length s - length suf) s else s)"

definition TrimPrefix :: "string \<Rightarrow> string \<Rightarrow> string" where
  "TrimPrefix s pre = (if take (length pre) s = pre then drop (length pre) s else s)"

lemma Split_nonempty [simp]: "Split s c \<noteq> []"
  by (induction s) (auto split: list.splits)

lemma Join_Cons: "ys \<noteq> [] \<Longrightarrow> Join c (x # ys) = x @ c # Join c ys"
  by (cases ys) auto

lemma Join_Split: "Join c (Split s c) = s"
proof (induction s)
  case Nil
  show ?case by simp
next
  case (Cons x xs)
  obtain y ys where y: "Split xs c = y # ys"
    by (meson Split_nonempty neq_Nil_conv)
  with Cons.IH have "Join c (y # ys) = xs" by simp
  then show ?case using y by (cases ys) auto
qed

lemma Split_no_sep: "c \<notin> set s \<Longrightarrow> Split s c = [s]"
  by (induction s) auto

lemma Split_append_sep: "c \<notin> set s \<Longrightarrow> Split (s @ c # t) c = s # Split t c"
  by (induction s) auto

lemma Split_sep_append: "Split (s @ c # t) c = Split s c @ Split t c"
proof (induction s)
  case (Cons x s)
  obtain y ys where "Split s c = y # ys" by (meson Split_nonempty neq_Nil_conv)
  with Cons show ?case by simp
qed simp

lemma Join_last: "p \<noteq> [] \<Longrightarrow> last (Join c (xs @ [p])) = last p \<and> Join c (xs @ [p]) \<noteq> []"
proof (induction xs)
  case (Cons x xs)
  then show ?case by (simp add: Join_Cons)
qed simp

lemma Split_Join:
  assumes "xs \<noteq> []" and "\<And>x. x \<in> set xs \<Longrightarrow> c \<notin> set x"
  shows "Split (Join c xs) c = xs"
  using assms
proof (induction c xs rule: Join.induct)
  case (3 c x y ys)
  then show ?case by (simp add: Split_append_sep)
qed (simp_all add: Split_no_sep)

lemma Contains_append: "Contains (pre @ sub @ suf) sub"
proof (induction pre)
  case Nil
  show ?case
  proof (cases "sub @ suf")
    case Nil
    then show ?thesis by simp
  next
    case (Cons a xs)
    have "take (length sub) (sub @ suf) = sub" by simp
    then show ?thesis unfolding Cons by simp
  qed
next
  case (Cons x pre)
  then show ?case by simp
qed

lemma Contains_iff: "Contains s sub \<longleftrightarrow> (\<exists>pre suf. s = pre @ sub @ suf)"
proof
  show "Contains s sub \<Longrightarrow> \<exists>pre suf. s = pre @ sub @ suf"
  proof (induction s)
    case (Cons x xs)
    then consider "take (length sub) (x # xs) = sub" | "Contains xs sub" by auto
    then show ?case
    proof cases
      case 1
      then have "x # xs = [] @ sub @ drop (length sub) (x # xs)"
        by (metis append_Nil append_take_drop_id)
      then show ?thesis by blast
    next
      case 2
      with Cons.IH obtain pre suf where "xs = pre @ sub @ suf" by blast
      then have "x # xs = (x # pre) @ sub @ suf" by simp
      then show ?thesis by blast
    qed
  qed simp
qed (auto simp: Contains_append)

lemma TrimSuffix_append [simp]: "TrimSuffix (s @ suf) suf = s"
  by (simp add: TrimSuffix_def)

lemma TrimSuffix_other: "\<not> suffix suf s \<Longrightarrow> TrimSuffix s suf = s"
  by (auto simp: TrimSuffix_def suffix_def) (metis append_take_drop_id)

lemma TrimPrefix_append [simp]: "TrimPrefix (pre @ s) pre = s"
  by (simp add: TrimPrefix_def)

section \<open>Package fmt: the verbs \<open>%d\<close> and \<open>%x\<close>\<close>

definition hexdigits :: string where
  "hexdigits = ''0123456789abcdef''"

definition digit_char :: "nat \<Rightarrow> char" where
  "digit_char d = hexdigits ! d"

fun index_of :: "'a \<Rightarrow> 'a list \<Rightarrow> nat" where
  "index_of x [] = 0"
| "index_of x (y # ys) = (if x = y then 0 else Suc (index_of x ys))"

definition digit_val :: "char \<Rightarrow> nat" where
  "digit_val c = index_of c hexdigits"

definition is_digit :: "char \<Rightarrow> bool" where
  "is_digit c \<longleftrightarrow> c \<in> set ''0123456789''"

function fmt_base :: "nat \<Rightarrow> nat \<Rightarrow> string" where
  "fmt_base b n =
     (if n < b \<or> b < 2 then [digit_char n] else fmt_base b (n div b) @ [digit_char (n mod b)])"
  by pat_completeness auto
termination
  by (relation "measure snd") auto

declare fmt_base.simps [simp del]

definition parse_base :: "nat \<Rightarrow> string \<Rightarrow> nat" where
  "parse_base b s = foldl (\<lambda>acc c. acc * b + digit_val c) 0 s"

definition fmt_x :: "64 word \<Rightarrow> string" where
  "fmt_x w = fmt_base 16 (unat w)"

definition fmt_d :: "int \<Rightarrow> string" where
  "fmt_d i = (if i < 0 then CHR ''-'' # fmt_base 10 (nat (- i)) else fmt_base 10 (nat i))"

text \<open>
  \<open>%q\<close>: a double-quoted literal with Go's escapes. Bytes of 128 and more are copied, which is
  what Go does with the encoding of a printable character; names in Kubernetes have none.
\<close>

definition quote_char :: "char \<Rightarrow> string" where
  "quote_char c =
     (if c = CHR 0x22 then [CHR 0x5C, CHR 0x22]
      else if c = CHR 0x5C then [CHR 0x5C, CHR 0x5C]
      else if c = CHR 0x07 then [CHR 0x5C, CHR ''a'']
      else if c = CHR 0x08 then [CHR 0x5C, CHR ''b'']
      else if c = CHR 0x0C then [CHR 0x5C, CHR ''f'']
      else if c = CHR 0x0A then [CHR 0x5C, CHR ''n'']
      else if c = CHR 0x0D then [CHR 0x5C, CHR ''r'']
      else if c = CHR 0x09 then [CHR 0x5C, CHR ''t'']
      else if c = CHR 0x0B then [CHR 0x5C, CHR ''v'']
      else if of_char c < (32 :: nat) \<or> c = CHR 0x7F then
        [CHR 0x5C, CHR ''x'', digit_char (of_char c div 16), digit_char (of_char c mod 16)]
      else [c])"

definition fmt_q :: "string \<Rightarrow> string" where
  "fmt_q s = CHR 0x22 # concat (map quote_char s) @ [CHR 0x22]"

lemma index_of_nth: "distinct xs \<Longrightarrow> i < length xs \<Longrightarrow> index_of (xs ! i) xs = i"
  by (induction xs arbitrary: i) (auto simp: nth_Cons split: nat.splits)

lemma hexdigits_props [simp]: "distinct hexdigits" "length hexdigits = 16"
  by (simp_all add: hexdigits_def)

lemma digit_val_char [simp]: "d < 16 \<Longrightarrow> digit_val (digit_char d) = d"
  by (simp add: digit_val_def digit_char_def index_of_nth)

lemma digit_char_not_minus: "d < 16 \<Longrightarrow> digit_char d \<noteq> CHR ''-''"
proof -
  assume "d < 16"
  then have "digit_char d \<in> set hexdigits" by (simp add: digit_char_def)
  then show ?thesis by (auto simp: hexdigits_def)
qed

lemma parse_base_snoc: "parse_base b (s @ [c]) = parse_base b s * b + digit_val c"
  by (simp add: parse_base_def)

lemma parse_fmt_base:
  assumes "2 \<le> b" "b \<le> 16"
  shows "parse_base b (fmt_base b n) = n"
proof (induction n rule: less_induct)
  case (less n)
  show ?case
  proof (cases "n < b")
    case True
    with assms show ?thesis by (simp add: fmt_base.simps [of b n] parse_base_def)
  next
    case False
    with assms have "n div b < n" by simp
    moreover have "n mod b < 16"
      using assms mod_less_divisor [of b n] by linarith
    ultimately show ?thesis
      using False assms less.IH by (simp add: fmt_base.simps [of b n] parse_base_snoc)
  qed
qed

lemma fmt_base_digits:
  assumes "2 \<le> b" "b \<le> 16"
  shows "\<forall>c \<in> set (fmt_base b n). \<exists>d < b. c = digit_char d"
proof (induction n rule: less_induct)
  case (less n)
  show ?case
  proof (cases "n < b")
    case True
    then show ?thesis by (auto simp: fmt_base.simps [of b n])
  next
    case False
    with assms have "n div b < n" by simp
    then have "\<forall>c \<in> set (fmt_base b (n div b)). \<exists>d < b. c = digit_char d" by (rule less.IH)
    moreover have "\<exists>d < b. digit_char (n mod b) = digit_char d"
      using assms by (intro exI [of _ "n mod b"]) simp
    ultimately show ?thesis
      using False assms by (simp add: fmt_base.simps [of b n])
  qed
qed

lemma fmt_base_nonempty [simp]: "fmt_base b n \<noteq> []"
  by (subst fmt_base.simps) simp

lemma fmt_base_inj: "2 \<le> b \<Longrightarrow> b \<le> 16 \<Longrightarrow> fmt_base b m = fmt_base b n \<longleftrightarrow> m = n"
  by (metis parse_fmt_base)

lemma fmt_x_inj [simp]: "fmt_x a = fmt_x b \<longleftrightarrow> a = b"
  by (simp add: fmt_x_def fmt_base_inj word_unat_eq_iff)

lemma hd_fmt_base:
  assumes "2 \<le> b" "b \<le> 16"
  shows "hd (fmt_base b n) \<noteq> CHR ''-''"
proof -
  have "hd (fmt_base b n) \<in> set (fmt_base b n)" by simp
  with fmt_base_digits [OF assms] obtain d where "d < b" "hd (fmt_base b n) = digit_char d"
    by blast
  with assms digit_char_not_minus [of d] show ?thesis by simp
qed

lemma fmt_d_inj [simp]: "fmt_d a = fmt_d b \<longleftrightarrow> a = b"
proof
  assume eq: "fmt_d a = fmt_d b"
  have hd: "hd (fmt_base 10 n) \<noteq> CHR ''-''" for n by (rule hd_fmt_base) simp_all
  have base: "fmt_base 10 m = fmt_base 10 n \<longleftrightarrow> m = n" for m n
    by (rule fmt_base_inj) simp_all
  have neg: "hd (fmt_d i) = CHR ''-'' \<longleftrightarrow> i < 0" for i
    using hd by (simp add: fmt_d_def)
  then have sign: "a < 0 \<longleftrightarrow> b < 0"
    using eq neg [of a] neg [of b] by simp
  then show "a = b"
    using eq by (auto simp: fmt_d_def base split: if_splits)
qed simp

section \<open>Package path/filepath\<close>

text \<open>\<open>filepath.Clean\<close> on Unix, component by component; the accumulator is the output in reverse.\<close>

fun clean_parts :: "bool \<Rightarrow> string list \<Rightarrow> string list \<Rightarrow> string list" where
  "clean_parts rooted [] out = rev out"
| "clean_parts rooted (p # ps) out =
     (if p = [] \<or> p = ''.'' then clean_parts rooted ps out
      else if p = ''..'' then
        (case out of
           q # qs \<Rightarrow> if q = ''..'' then clean_parts rooted ps (p # out) else clean_parts rooted ps qs
         | [] \<Rightarrow> if rooted then clean_parts rooted ps [] else clean_parts rooted ps [p])
      else clean_parts rooted ps (p # out))"

definition Clean :: "string \<Rightarrow> string" where
  "Clean path =
     (let rooted = (take 1 path = ''/''); out = clean_parts rooted (Split path CHR ''/'') []
      in if rooted then CHR ''/'' # Join CHR ''/'' out
         else if out = [] then ''.'' else Join CHR ''/'' out)"

definition filepath_Join :: "string list \<Rightarrow> string" where
  "filepath_Join elems =
     (let es = filter (\<lambda>e. e \<noteq> []) elems in if es = [] then [] else Clean (Join CHR ''/'' es))"

definition filepath_Dir :: "string \<Rightarrow> string" where
  "filepath_Dir path = Clean (rev (dropWhile (\<lambda>c. c \<noteq> CHR ''/'') (rev path)))"

lemma clean_parts_plain:
  "(\<And>p. p \<in> set ps \<Longrightarrow> p \<noteq> [] \<and> p \<noteq> ''.'' \<and> p \<noteq> ''..'') \<Longrightarrow> clean_parts rooted ps out = rev out @ ps"
  by (induction ps arbitrary: out) auto

lemma clean_parts_snoc:
  "p \<noteq> [] \<Longrightarrow> p \<noteq> ''.'' \<Longrightarrow> p \<noteq> ''..'' \<Longrightarrow>
   clean_parts rooted (ps @ [p]) out = clean_parts rooted ps out @ [p]"
  by (induction rooted ps out rule: clean_parts.induct) (auto split: list.splits)

text \<open>Cleaning a path keeps an ordinary last component.\<close>

lemma Clean_last:
  assumes "CHR ''/'' \<notin> set b" "b \<noteq> []" "b \<noteq> ''.''" "b \<noteq> ''..''"
  shows "last (Clean (q @ CHR ''/'' # b)) = last b"
proof -
  have "Split (q @ CHR ''/'' # b) CHR ''/'' = Split q CHR ''/'' @ [b]"
    using assms(1) by (simp add: Split_sep_append Split_no_sep)
  then show ?thesis
    using assms(2-) Join_last [of b "CHR ''/''"] by (simp add: Clean_def Let_def clean_parts_snoc)
qed

section \<open>Maps filled from a slice\<close>

text \<open>
  \<open>for i := range xs { m[key(xs[i])] = xs[i] }\<close>: a later element replaces an earlier one
  with the same key.
\<close>

fun index_by :: "('a \<Rightarrow> 'k) \<Rightarrow> 'a list \<Rightarrow> ('k \<rightharpoonup> 'a) \<Rightarrow> ('k \<rightharpoonup> 'a)" where
  "index_by key [] m = m"
| "index_by key (x # xs) m = index_by key xs (m(key x \<mapsto> x))"

lemma index_by_eq: "index_by key xs m = m ++ map_of (rev (map (\<lambda>x. (key x, x)) xs))"
  by (induction xs arbitrary: m) (auto simp: map_add_upd_left map_add_def fun_eq_iff split: option.splits)

lemma index_by_dom: "dom (index_by key xs m) = dom m \<union> key ` set xs"
  by (induction xs arbitrary: m) auto

lemma index_by_Some: "index_by key xs Map.empty k = Some x \<Longrightarrow> x \<in> set xs \<and> key x = k"
  by (auto simp: index_by_eq dest!: map_of_SomeD)

lemma index_by_distinct:
  "distinct (map key xs) \<Longrightarrow> x \<in> set xs \<Longrightarrow> index_by key xs Map.empty (key x) = Some x"
proof -
  assume d: "distinct (map key xs)" and x: "x \<in> set xs"
  have "map fst (map (\<lambda>x. (key x, x)) xs) = map key xs" by simp
  with d have "distinct (map fst (rev (map (\<lambda>x. (key x, x)) xs)))"
    by (simp only: rev_map [symmetric] distinct_rev)
  moreover have "(key x, x) \<in> set (rev (map (\<lambda>x. (key x, x)) xs))" using x by simp
  ultimately show ?thesis by (simp add: index_by_eq map_of_eq_Some_iff)
qed

end
