(* ===== verification/Api_Types.thy ===== *)
theory Api_Types
  imports Go_Base
begin

text \<open>
  The data of the program: the custom resource of \<^verbatim>\<open>api/v1alpha2\<close> field by field, and of
  each Kubernetes or SR-IOV object the operator reads or writes the fields it uses.
  A Go map is a HOL map; a pointer or an optional value is an \<open>option\<close>.
  \<open>pkg/state\<close> (lookup of a node's entry, and the update through the returned pointer) is here
  too, with the interface its clients rely on.
\<close>

type_synonym labels = "string \<rightharpoonup> string"

text \<open>\<open>types.NamespacedName\<close>: namespace and name.\<close>
type_synonym nsname = "string \<times> string"

section \<open>The custom resource\<close>

type_synonym State = string

definition SyncStatusUnknown :: State where "SyncStatusUnknown = ''Unknown''"
definition SyncStatusInProgress :: State where "SyncStatusInProgress = ''InProgress''"
definition SyncStatusFailed :: State where "SyncStatusFailed = ''Failed''"
definition SyncStatusSucceeded :: State where "SyncStatusSucceeded = ''Succeeded''"

lemmas sync_status_defs =
  SyncStatusUnknown_def SyncStatusInProgress_def SyncStatusFailed_def SyncStatusSucceeded_def

lemma sync_status_distinct [simp]:
  "SyncStatusSucceeded \<noteq> SyncStatusFailed" "SyncStatusFailed \<noteq> SyncStatusSucceeded"
  "SyncStatusInProgress \<noteq> SyncStatusFailed" "SyncStatusFailed \<noteq> SyncStatusInProgress"
  "SyncStatusInProgress \<noteq> SyncStatusSucceeded" "SyncStatusSucceeded \<noteq> SyncStatusInProgress"
  by (simp_all add: sync_status_defs)

datatype IntOrString = IntVal int | StrVal string

record NicSelector =
  PfNames :: "string list"

record RailTopology =
  rt_Name :: string
  rt_NicSelector :: NicSelector
  CidrPoolRef :: string
  IPAM :: string
  rt_MTU :: int
  SwPlane :: int

record SpectrumXRailPoolConfigSpec =
  DraEnabled :: bool
  VFStateFollow :: "bool option"
  NodeSelector :: labels
  MaxUnavailable :: "IntOrString option"
  NetworkNamespace :: string
  OvsConfig :: labels
  NumVfs :: int
  RailTopologies :: "RailTopology list"

record NodeState =
  ns_Name :: string
  ns_State :: State
  ns_ObservedGeneration :: int
  ns_Message :: string

record SpectrumXRailPoolConfigStatus =
  SyncStatus :: State
  NodeStates :: "NodeState list"
  ObservedGeneration :: int

record SpectrumXRailPoolConfig =
  rpc_Name :: string
  rpc_Namespace :: string
  rpc_ResourceVersion :: string
  Generation :: int
  DeletionTimestamp :: "int option"
  Finalizers :: "string list"
  rpc_Spec :: SpectrumXRailPoolConfigSpec
  rpc_Status :: SpectrumXRailPoolConfigStatus

abbreviation pf_names :: "RailTopology \<Rightarrow> string list" where
  "pf_names rt \<equiv> PfNames (rt_NicSelector rt)"

section \<open>Kubernetes and SR-IOV objects\<close>

record Node =
  node_Name :: string
  node_Labels :: labels

record InterfaceExt =
  iface_Name :: string
  EswitchMode :: string

record SriovNetworkNodeState =
  nst_SpecInterfaces :: "string list"
  nst_SyncStatus :: string
  nst_Interfaces :: "InterfaceExt list"

record DevlinkParam =
  dp_Name :: string
  dp_Value :: string
  dp_Cmode :: string
  dp_ApplyOn :: string

record OVSConfig =
  DatapathType :: string
  UplinkType :: string
  MTURequest :: int

record Bridge =
  GroupingPolicy :: string
  OVS :: "OVSConfig option"

record SriovNetworkNodePolicy =
  np_Kind :: string
  np_Name :: string
  np_Namespace :: string
  np_Labels :: labels
  np_ResourceName :: string
  np_Mtu :: int
  np_NumVfs :: int
  np_PfNames :: "string list"
  np_NodeSelector :: labels
  np_IsRdma :: bool
  np_EswitchMode :: string
  np_DevlinkParams :: "DevlinkParam list"
  np_Bridge :: Bridge

record SriovNetworkPoolConfig =
  pc_Kind :: string
  pc_Name :: string
  pc_Namespace :: string
  pc_Labels :: labels
  pc_NodeSelector :: labels
  pc_RdmaMode :: string
  pc_MaxUnavailable :: "IntOrString option"
  pc_OvsName :: string
  pc_OvsConfig :: labels

record OVSNetwork =
  on_Kind :: string
  on_Name :: string
  on_Namespace :: string
  on_Labels :: labels
  on_ResourceName :: string
  on_InterfaceType :: string
  on_NetworkNamespace :: string
  on_MTU :: nat
  on_IPAM :: string
  on_MetaPluginsConfig :: string
  on_Bridge :: string

record Toleration =
  tol_Key :: string
  tol_Operator :: string
  tol_Value :: string
  tol_Effect :: string

record OwnerReference =
  or_APIVersion :: string
  or_Kind :: string
  or_Name :: string
  or_UID :: string
  or_Controller :: "bool option"

text \<open>\<open>ds_Rest\<close> stands for the fields of the DaemonSet spec the operator never looks into.\<close>

record DaemonSet =
  ds_Name :: string
  ds_Namespace :: string
  ds_UID :: string
  ds_ResourceVersion :: string
  ds_OwnerReferences :: "OwnerReference list"
  ds_Tolerations :: "Toleration list"
  ds_NodeSelector :: labels
  ds_Rest :: string

record Unstructured =
  u_Kind :: string
  u_Name :: string
  u_Namespace :: string
  u_OwnerReferences :: "OwnerReference list"
  u_NodeSelector :: labels
  u_Content :: string

record Pod =
  pod_Name :: string
  pod_Namespace :: string
  pod_UID :: string
  pod_NodeName :: string
  pod_DeletionTimestamp :: "int option"
  pod_Annotations :: "labels option"
  pod_OwnerReferences :: "OwnerReference list"

text \<open>What \<open>unstructured.NestedString(obj, "spec", "cidr")\<close> finds in a CIDRPool.\<close>

datatype nested_string = Nested string | NestedMissing | NestedError goerr

section \<open>\<open>pkg/state\<close>\<close>

text \<open>
  \<open>GetNodeState\<close> returns a pointer into the slice; the pointer is the index of the first entry
  with the name. Writing through the pointer is a list update at that index.
\<close>

fun GetNodeState :: "NodeState list \<Rightarrow> string \<Rightarrow> nat result" where
  "GetNodeState [] nodeName = Inl (ErrorString (''failed get state for node: '' @ nodeName))"
| "GetNodeState (s # ss) nodeName =
     (if ns_Name s = nodeName then Inr 0
      else map_sum id Suc (GetNodeState ss nodeName))"

text \<open>
  The write of \<open>patchSyncStatusWithMessage\<close>: through the pointer when the node has an entry,
  by \<open>append\<close> otherwise.
\<close>

definition put_node_state :: "NodeState list \<Rightarrow> string \<Rightarrow> State \<Rightarrow> string \<Rightarrow> int \<Rightarrow> NodeState list" where
  "put_node_state ss nodeName st msg gen =
     (case GetNodeState ss nodeName of
        Inr i \<Rightarrow> ss[i := (ss ! i)\<lparr>ns_State := st, ns_Message := msg, ns_ObservedGeneration := gen\<rparr>]
      | Inl _ \<Rightarrow> ss @ [\<lparr>ns_Name = nodeName, ns_State = st, ns_ObservedGeneration = gen, ns_Message = msg\<rparr>])"

definition node_state :: "NodeState list \<Rightarrow> string \<Rightarrow> NodeState option" where
  "node_state ss n = (case GetNodeState ss n of Inr i \<Rightarrow> Some (ss ! i) | Inl _ \<Rightarrow> None)"

lemma GetNodeState_Inr:
  "GetNodeState ss n = Inr i \<Longrightarrow> i < length ss \<and> ns_Name (ss ! i) = n \<and> (\<forall>j < i. ns_Name (ss ! j) \<noteq> n)"
proof (induction ss arbitrary: i)
  case (Cons s ss)
  show ?case
  proof (cases "ns_Name s = n")
    case True
    with Cons.prems show ?thesis by simp
  next
    case False
    with Cons.prems obtain k where k: "GetNodeState ss n = Inr k" "i = Suc k"
      by (cases "GetNodeState ss n") auto
    with Cons.IH [OF k(1)] False show ?thesis by (auto simp: nth_Cons split: nat.splits)
  qed
qed simp

lemma GetNodeState_Inl: "(\<exists>e. GetNodeState ss n = Inl e) \<longleftrightarrow> n \<notin> ns_Name ` set ss"
  by (induction ss) (auto simp: map_sum_def split: sum.splits)

lemma GetNodeState_error:
  "GetNodeState ss n = Inl e \<Longrightarrow> e = ErrorString (''failed get state for node: '' @ n)"
proof (induction ss)
  case (Cons s ss)
  then show ?case by (cases "GetNodeState ss n") (auto split: if_splits)
qed simp

lemma GetNodeState_found:
  assumes "n \<in> ns_Name ` set ss"
  obtains i where "GetNodeState ss n = Inr i"
  using assms GetNodeState_Inl [of ss n] by (cases "GetNodeState ss n") auto

lemma node_state_Some: "node_state ss n = Some s \<Longrightarrow> s \<in> set ss \<and> ns_Name s = n"
  by (auto simp: node_state_def dest!: GetNodeState_Inr split: sum.splits)

lemma node_state_None: "node_state ss n = None \<longleftrightarrow> n \<notin> ns_Name ` set ss"
  by (auto simp: node_state_def GetNodeState_Inl [symmetric] split: sum.splits)

lemma node_state_Nil [simp]: "node_state [] n = None"
  by (simp add: node_state_def)

lemma node_state_Cons:
  "node_state (s # ss) n = (if ns_Name s = n then Some s else node_state ss n)"
  by (auto simp: node_state_def split: sum.splits)

lemma node_state_append:
  "node_state (ss @ ts) n = (case node_state ss n of None \<Rightarrow> node_state ts n | Some s \<Rightarrow> Some s)"
  by (induction ss) (auto simp: node_state_Cons)

lemma node_state_update:
  "i < length ss \<Longrightarrow> ns_Name s = ns_Name (ss ! i) \<Longrightarrow> n \<noteq> ns_Name (ss ! i) \<Longrightarrow>
   node_state (ss[i := s]) n = node_state ss n"
  by (induction ss arbitrary: i) (auto simp: node_state_Cons split: nat.splits)

lemma put_names:
  "map ns_Name (put_node_state ss n st msg g) =
   (if n \<in> ns_Name ` set ss then map ns_Name ss else map ns_Name ss @ [n])"
proof (cases "GetNodeState ss n")
  case (Inl e)
  then show ?thesis using GetNodeState_Inl [of ss n] by (simp add: put_node_state_def)
next
  case (Inr i)
  have i: "i < length ss" "ns_Name (ss ! i) = n" using GetNodeState_Inr [OF Inr] by simp_all
  then have "(map ns_Name ss)[i := n] = map ns_Name ss"
    using list_update_id [of "map ns_Name ss" i] by simp
  moreover have "n \<in> ns_Name ` set ss" using i by auto
  ultimately show ?thesis
    using Inr i by (simp add: put_node_state_def map_update)
qed

lemma put_same:
  "node_state (put_node_state ss n st msg g) n =
   Some \<lparr>ns_Name = n, ns_State = st, ns_ObservedGeneration = g, ns_Message = msg\<rparr>"
proof (cases "GetNodeState ss n")
  case (Inl e)
  then have "node_state ss n = None" by (simp add: node_state_def)
  with Inl show ?thesis by (simp add: put_node_state_def node_state_append node_state_Cons)
next
  case (Inr i)
  let ?s = "(ss ! i)\<lparr>ns_State := st, ns_Message := msg, ns_ObservedGeneration := g\<rparr>"
  have "node_state (ss[i := ?s]) n = Some ?s"
    using Inr
  proof (induction ss arbitrary: i)
    case (Cons s ss)
    then show ?case
      by (cases "GetNodeState ss n") (auto simp: node_state_Cons split: if_splits)
  qed simp
  moreover have "?s = \<lparr>ns_Name = n, ns_State = st, ns_ObservedGeneration = g, ns_Message = msg\<rparr>"
    using GetNodeState_Inr [OF Inr] by simp
  ultimately show ?thesis using Inr by (simp add: put_node_state_def)
qed

lemma put_other:
  "m \<noteq> n \<Longrightarrow> node_state (put_node_state ss n st msg g) m = node_state ss m"
proof (cases "GetNodeState ss n")
  case (Inl e)
  assume "m \<noteq> n"
  with Inl show ?thesis
    by (auto simp: put_node_state_def node_state_append node_state_Cons split: option.splits)
next
  case (Inr i)
  assume "m \<noteq> n"
  with Inr GetNodeState_Inr [OF Inr] show ?thesis
    by (simp add: put_node_state_def node_state_update)
qed

subsection \<open>The interface of the node-state list\<close>

text \<open>
  What the status code relies on: a write is read back, entries of other nodes are kept, and a
  list with one entry per node stays one.
\<close>

locale node_state_store =
  fixes lookup :: "'l \<Rightarrow> string \<Rightarrow> NodeState option"
    and put :: "'l \<Rightarrow> string \<Rightarrow> State \<Rightarrow> string \<Rightarrow> int \<Rightarrow> 'l"
    and unique :: "'l \<Rightarrow> bool"
  assumes lookup_put_same:
    "lookup (put l n st msg g) n =
     Some \<lparr>ns_Name = n, ns_State = st, ns_ObservedGeneration = g, ns_Message = msg\<rparr>"
  and lookup_put_other: "m \<noteq> n \<Longrightarrow> lookup (put l n st msg g) m = lookup l m"
  and unique_put: "unique l \<Longrightarrow> unique (put l n st msg g)"
begin

lemma put_put_same: "lookup (put (put l n st msg g) n st' msg' g') m = lookup (put l n st' msg' g') m"
  by (cases "m = n") (simp_all add: lookup_put_same lookup_put_other)

lemma put_commute:
  "n \<noteq> k \<Longrightarrow> lookup (put (put l n st msg g) k st' msg' g') m = lookup (put (put l k st' msg' g') n st msg g) m"
  by (cases "m = n"; cases "m = k") (simp_all add: lookup_put_same lookup_put_other)

end

definition unique_names :: "NodeState list \<Rightarrow> bool" where
  "unique_names ss = distinct (map ns_Name ss)"

interpretation nstates: node_state_store node_state put_node_state unique_names
proof unfold_locales
  fix l n st msg g
  assume "unique_names l"
  then show "unique_names (put_node_state l n st msg g)"
    by (auto simp: unique_names_def put_names)
qed (simp_all add: put_same put_other)

lemma index_by_node_state:
  "unique_names ss \<Longrightarrow> index_by ns_Name ss Map.empty n = node_state ss n"
proof (cases "node_state ss n")
  case None
  assume "unique_names ss"
  from None have "n \<notin> dom (index_by ns_Name ss Map.empty)"
    by (simp add: index_by_dom node_state_None)
  with None show ?thesis by (simp add: domIff)
next
  case (Some s)
  assume u: "unique_names ss"
  from Some have "s \<in> set ss" "ns_Name s = n" by (auto dest: node_state_Some)
  with u Some show ?thesis by (auto simp: unique_names_def dest: index_by_distinct)
qed

end
