(* ===== verification/World.thy ===== *)
theory World
  imports Api_Types
begin

text \<open>
  The outside of the program and the logic used to reason about its effects.

  The state of everything outside the program (API server, operating system, Open vSwitch) is a
  type variable \<open>'w\<close>. What the program can do to it is given by functions that the definitions
  take as arguments; nothing is assumed about them here. A \<open>world\<close> pairs that state with the
  list of events the program has produced so far: shell commands, API writes, file operations and
  link changes, each with the answer it got. The event list is only ever extended; it is what
  the theorems on order and absence of effects speak about.

  \<open>trace_spec m R\<close> says that every run of the computation \<open>m\<close>, in any world and whatever the
  outside answers, appends events \<open>es\<close> and returns \<open>r\<close> with \<open>R r es\<close>.
\<close>

datatype api_write =
    PatchFinalizers nsname "string list"
  | PatchPoolConfig SriovNetworkPoolConfig
  | PatchPolicy SriovNetworkNodePolicy
  | PatchOVSNetwork OVSNetwork
  | PatchStatus SpectrumXRailPoolConfig
  | DeletePolicy nsname
  | DeletePoolConfig nsname
  | DeleteOVSNetwork nsname
  | ApplyUnstructured Unstructured
  | CreateDaemonSet DaemonSet
  | UpdateDaemonSet DaemonSet

datatype file_op =
    MkdirAll string nat
  | WriteFile string string nat
  | Rename string string
  | Remove string

datatype event =
    Cmd string "string result"
  | Api api_write "goerr option"
  | File file_op "goerr option"
  | SetLink string bool "goerr option"

record 'w world =
  events :: "event list"
  env :: 'w

type_synonym ('w, 'a) op = "('w world, 'a) state"

section \<open>Primitive operations\<close>

text \<open>A read of the outside: it may change \<open>env\<close> (other actors move on) but is no event.\<close>

definition observe :: "('w \<Rightarrow> 'a \<times> 'w) \<Rightarrow> ('w, 'a) op" where
  "observe f = State (\<lambda>s. let (r, w) = f (env s) in (r, s\<lparr>env := w\<rparr>))"

definition perform :: "('a \<Rightarrow> event) \<Rightarrow> ('w \<Rightarrow> 'a \<times> 'w) \<Rightarrow> ('w, 'a) op" where
  "perform ev f = State (\<lambda>s. let (r, w) = f (env s) in (r, s\<lparr>env := w, events := events s @ [ev r]\<rparr>))"

section \<open>Event-trace logic\<close>

definition trace_spec :: "('w, 'a) op \<Rightarrow> ('a \<Rightarrow> event list \<Rightarrow> bool) \<Rightarrow> bool" where
  "trace_spec m R \<longleftrightarrow>
     (\<forall>s r s'. run_state m s = (r, s') \<longrightarrow> (\<exists>es. events s' = events s @ es \<and> R r es))"

definition emits :: "(event \<Rightarrow> bool) \<Rightarrow> ('w, 'a) op \<Rightarrow> bool" where
  "emits P m = trace_spec m (\<lambda>_ es. \<forall>e \<in> set es. P e)"

lemma trace_specI:
  "(\<And>s r s'. run_state m s = (r, s') \<Longrightarrow> \<exists>es. events s' = events s @ es \<and> R r es) \<Longrightarrow> trace_spec m R"
  by (simp add: trace_spec_def)

lemma trace_specD:
  assumes "trace_spec m R" "run_state m s = (r, s')"
  obtains es where "events s' = events s @ es" "R r es"
  using assms unfolding trace_spec_def by blast

lemma trace_run: "trace_spec m R \<Longrightarrow> \<exists>es. events (snd (run_state m s)) = events s @ es \<and> R (fst (run_state m s)) es"
  by (simp add: trace_spec_def)

lemma trace_spec_weaken: "trace_spec m R \<Longrightarrow> (\<And>r es. R r es \<Longrightarrow> R' r es) \<Longrightarrow> trace_spec m R'"
  by (fastforce simp: trace_spec_def)

lemma trace_spec_conj:
  assumes "trace_spec m R" "trace_spec m Q"
  shows "trace_spec m (\<lambda>r es. R r es \<and> Q r es)"
proof (rule trace_specI)
  fix s r s'
  assume run: "run_state m s = (r, s')"
  from trace_specD [OF assms(1) run] obtain es where "events s' = events s @ es" "R r es" .
  moreover from trace_specD [OF assms(2) run] obtain fs where "events s' = events s @ fs" "Q r fs" .
  ultimately show "\<exists>es. events s' = events s @ es \<and> R r es \<and> Q r es" by auto
qed

lemma trace_spec_result:
  assumes "trace_spec m R" "\<And>s. Q (fst (run_state m s))"
  shows "trace_spec m (\<lambda>r es. R r es \<and> Q r)"
proof (rule trace_specI)
  fix s r s'
  assume run: "run_state m s = (r, s')"
  with assms(2) [of s] have "Q r" by simp
  with trace_specD [OF assms(1) run] show "\<exists>es. events s' = events s @ es \<and> R r es \<and> Q r" by metis
qed

lemma trace_return: "trace_spec (State_Monad.return a) (\<lambda>r es. r = a \<and> es = [])"
  by (simp add: trace_spec_def)

lemma trace_observe: "trace_spec (observe f) (\<lambda>r es. es = [])"
  by (auto simp: trace_spec_def observe_def Let_def split: prod.splits)

lemma trace_observe_fact: "(\<And>w. Q (fst (f w))) \<Longrightarrow> trace_spec (observe f) (\<lambda>r es. es = [] \<and> Q r)"
  by (auto simp: trace_spec_def observe_def Let_def split: prod.splits) (metis fst_conv)

lemma trace_perform: "trace_spec (perform ev f) (\<lambda>r es. es = [ev r])"
  by (auto simp: trace_spec_def perform_def Let_def split: prod.splits)

lemma trace_bind:
  assumes "trace_spec m R" and "\<And>a. trace_spec (f a) (Q a)"
  shows "trace_spec (State_Monad.bind m f) (\<lambda>r es. \<exists>a es1 es2. es = es1 @ es2 \<and> R a es1 \<and> Q a r es2)"
proof (rule trace_specI)
  fix s r s'
  assume "run_state (State_Monad.bind m f) s = (r, s')"
  then obtain a t where m: "run_state m s = (a, t)" and f: "run_state (f a) t = (r, s')"
    by (auto split: prod.splits)
  from trace_specD [OF assms(1) m] obtain es1 where "events t = events s @ es1" "R a es1" .
  moreover from trace_specD [OF assms(2) f] obtain es2 where "events s' = events t @ es2" "Q a r es2" .
  ultimately show "\<exists>es. events s' = events s @ es \<and>
      (\<exists>a es1 es2. es = es1 @ es2 \<and> R a es1 \<and> Q a r es2)" by auto
qed

text \<open>
  The rule used to prove a specification of a sequence: \<open>R\<close> describes the first step, and what
  is left to show is the specification of the rest with the events of the first step put in front.
\<close>

lemma trace_bindI [trace_rules]:
  assumes "trace_spec m R"
    and "\<And>a es1. R a es1 \<Longrightarrow> trace_spec (f a) (\<lambda>r es. S r (es1 @ es))"
  shows "trace_spec (State_Monad.bind m f) S"
proof (rule trace_specI)
  fix s r s'
  assume "run_state (State_Monad.bind m f) s = (r, s')"
  then obtain a t where m: "run_state m s = (a, t)" and f: "run_state (f a) t = (r, s')"
    by (auto split: prod.splits)
  from trace_specD [OF assms(1) m] obtain es1 where es1: "events t = events s @ es1" "R a es1" .
  from trace_specD [OF assms(2) [OF es1(2)] f] obtain es2
    where "events s' = events t @ es2" "S r (es1 @ es2)" .
  with es1 show "\<exists>es. events s' = events s @ es \<and> S r es" by auto
qed

lemma trace_returnI [trace_rules]: "S a [] \<Longrightarrow> trace_spec (State_Monad.return a) S"
  by (rule trace_spec_weaken [OF trace_return]) simp

lemma trace_if [trace_rules]:
  "(b \<Longrightarrow> trace_spec m S) \<Longrightarrow> (\<not> b \<Longrightarrow> trace_spec n S) \<Longrightarrow> trace_spec (if b then m else n) S"
  by simp

lemma trace_case_option [trace_rules]:
  "(x = None \<Longrightarrow> trace_spec m S) \<Longrightarrow> (\<And>y. x = Some y \<Longrightarrow> trace_spec (f y) S) \<Longrightarrow>
   trace_spec (case x of None \<Rightarrow> m | Some y \<Rightarrow> f y) S"
  by (cases x) auto

lemma trace_case_sum [trace_rules]:
  "(\<And>e. x = Inl e \<Longrightarrow> trace_spec (f e) S) \<Longrightarrow> (\<And>y. x = Inr y \<Longrightarrow> trace_spec (g y) S) \<Longrightarrow>
   trace_spec (case x of Inl e \<Rightarrow> f e | Inr y \<Rightarrow> g y) S"
  by (cases x) auto

lemma trace_case_prod [trace_rules]:
  "(\<And>a b. x = (a, b) \<Longrightarrow> trace_spec (f a b) S) \<Longrightarrow> trace_spec (case x of (a, b) \<Rightarrow> f a b) S"
  by (cases x) auto

lemma trace_let [trace_rules]: "(\<And>y. y = x \<Longrightarrow> trace_spec (f y) S) \<Longrightarrow> trace_spec (Let x f) S"
  by simp

lemma emits_return [trace_rules]: "emits P (State_Monad.return a)"
  by (simp add: emits_def trace_returnI)

lemma emits_observe [trace_rules]: "emits P (observe f)"
  unfolding emits_def by (rule trace_spec_weaken [OF trace_observe]) simp

lemma emits_perform [trace_rules]: "(\<And>r. P (ev r)) \<Longrightarrow> emits P (perform ev f)"
  unfolding emits_def by (rule trace_spec_weaken [OF trace_perform]) simp

lemma emits_bind [trace_rules]:
  assumes "emits P m" "\<And>a. emits P (f a)"
  shows "emits P (State_Monad.bind m f)"
  unfolding emits_def
proof (rule trace_bindI)
  show "trace_spec m (\<lambda>_ es. \<forall>e \<in> set es. P e)" using assms(1) by (simp add: emits_def)
  fix a :: 'b and es1
  assume "\<forall>e \<in> set es1. P e"
  then show "trace_spec (f a) (\<lambda>_ es. \<forall>e \<in> set (es1 @ es). P e)"
    using assms(2) [of a] unfolding emits_def by (auto elim: trace_spec_weaken)
qed

text \<open>The same rule when the continuation depends on what is known of the result.\<close>

lemma emits_bind_fact:
  assumes "trace_spec m R" "\<And>a es. R a es \<Longrightarrow> (\<forall>e \<in> set es. P e) \<and> emits P (f a)"
  shows "emits P (State_Monad.bind m f)"
  unfolding emits_def
proof (rule trace_bindI [OF assms(1)])
  fix a es1
  assume "R a es1"
  with assms(2) have "\<forall>e \<in> set es1. P e" "emits P (f a)" by blast+
  then show "trace_spec (f a) (\<lambda>_ es. \<forall>e \<in> set (es1 @ es). P e)"
    unfolding emits_def by (auto elim: trace_spec_weaken)
qed

lemma emits_if [trace_rules]: "(b \<Longrightarrow> emits P m) \<Longrightarrow> (\<not> b \<Longrightarrow> emits P n) \<Longrightarrow> emits P (if b then m else n)"
  by simp

lemma emits_case_option [trace_rules]:
  "(x = None \<Longrightarrow> emits P m) \<Longrightarrow> (\<And>y. x = Some y \<Longrightarrow> emits P (f y)) \<Longrightarrow>
   emits P (case x of None \<Rightarrow> m | Some y \<Rightarrow> f y)"
  by (cases x) auto

lemma emits_case_sum [trace_rules]:
  "(\<And>e. x = Inl e \<Longrightarrow> emits P (f e)) \<Longrightarrow> (\<And>y. x = Inr y \<Longrightarrow> emits P (g y)) \<Longrightarrow>
   emits P (case x of Inl e \<Rightarrow> f e | Inr y \<Rightarrow> g y)"
  by (cases x) auto

lemma emits_case_prod [trace_rules]:
  "(\<And>a b. x = (a, b) \<Longrightarrow> emits P (f a b)) \<Longrightarrow> emits P (case x of (a, b) \<Rightarrow> f a b)"
  by (cases x) auto

lemma emits_let [trace_rules]: "(\<And>y. y = x \<Longrightarrow> emits P (f y)) \<Longrightarrow> emits P (Let x f)"
  by simp

lemma emits_mono: "emits P m \<Longrightarrow> (\<And>e. P e \<Longrightarrow> Q e) \<Longrightarrow> emits Q m"
  unfolding emits_def by (erule trace_spec_weaken) auto

lemma emitsD:
  assumes "emits P m" "run_state m s = (r, s')" "e \<in> set (events s')" "e \<notin> set (events s)"
  shows "P e"
  using assms by (auto simp: emits_def elim!: trace_specD)

lemma run_observe [simp]:
  "run_state (observe f) s = (fst (f (env s)), s\<lparr>env := snd (f (env s))\<rparr>)"
  by (simp add: observe_def Let_def split: prod.splits)

lemma run_perform [simp]:
  "run_state (perform ev f) s =
   (fst (f (env s)), s\<lparr>env := snd (f (env s)), events := events s @ [ev (fst (f (env s)))]\<rparr>)"
  by (simp add: perform_def Let_def split: prod.splits)

end
