(* ===== verification/Exec_Api.thy ===== *)
theory Exec_Api
  imports World
begin

text \<open>
  \<^verbatim>\<open>pkg/exec\<close>: running one shell command with a deadline. What \<open>sh -c\<close> does is the parameter
  \<open>sh\<close>: for a command and the state of the outside it gives the combined output, the error
  \<open>CombinedOutput\<close> returned, and whether the deadline had passed when it returned.

  The theory also has the interface \<open>exec_api\<close> through which the other components run commands,
  and \<^emph>\<open>plans\<close>: lists of commands run in order up to the first failure. A plan is the
  specification that the flow-programming functions are proved equal to.
\<close>

record sh_outcome =
  sh_out :: string
  sh_err :: "string option"
  sh_deadline :: bool

type_synonym 'w shell = "string \<Rightarrow> 'w \<Rightarrow> sh_outcome \<times> 'w"

definition newline :: string where "newline = [CHR 0x0A]"

text \<open>\<open>DefaultTimeout\<close> as \<open>%s\<close> prints it.\<close>

definition DefaultTimeout :: string where "DefaultTimeout = ''30s''"

definition Execute :: "'w shell \<Rightarrow> string \<Rightarrow> ('w, string result) op" where
  "Execute sh command =
     perform (Cmd command)
       (\<lambda>w. let (oc, w') = sh command w in
          (if sh_deadline oc then Inl (WrapError [] ErrTimeout ('' after '' @ DefaultTimeout @ '': '' @ command))
           else case sh_err oc of
                  Some m \<Rightarrow> Inl (External ''exec'' m)
                | None \<Rightarrow> Inr (TrimSuffix (sh_out oc) newline), w'))"

definition buildPrivilegedCommand :: "string \<Rightarrow> string" where
  "buildPrivilegedCommand command = ''nsenter --target 1 --net -- '' @ command"

definition ExecutePrivileged :: "'w shell \<Rightarrow> string \<Rightarrow> ('w, string result) op" where
  "ExecutePrivileged sh command = Execute sh (buildPrivilegedCommand command)"

text \<open>The command \<open>c\<close> succeeds in time with output \<open>out\<close>.\<close>

definition answers :: "'w shell \<Rightarrow> string \<Rightarrow> 'w \<Rightarrow> string \<Rightarrow> 'w \<Rightarrow> bool" where
  "answers sh c w out w' \<longleftrightarrow> (\<exists>oc. sh c w = (oc, w') \<and> \<not> sh_deadline oc \<and> sh_err oc = None \<and>
     out = TrimSuffix (sh_out oc) newline)"

lemma Execute_answers:
  assumes "run_state (Execute sh c) s = (Inr out, s')"
  shows "answers sh c (env s) out (env s')"
proof -
  obtain oc w' where "sh c (env s) = (oc, w')" by fastforce
  with assms show ?thesis by (auto simp: Execute_def answers_def split: if_splits option.splits)
qed

section \<open>Plans\<close>

text \<open>\<open>Run c w\<close>: run \<open>c\<close>, and on failure stop with the error \<open>w e\<close>. \<open>Stop e\<close>: stop with \<open>e\<close>.\<close>

datatype step = Run string "goerr \<Rightarrow> goerr" | Stop goerr

fun exec_plan :: "(string \<Rightarrow> ('w, string result) op) \<Rightarrow> step list \<Rightarrow> ('w, goerr option) op" where
  "exec_plan exec [] = State_Monad.return None"
| "exec_plan exec (Stop e # p) = State_Monad.return (Some e)"
| "exec_plan exec (Run c wrap # p) = do {
     r \<leftarrow> exec c;
     case r of
       Inl e \<Rightarrow> State_Monad.return (Some (wrap e))
     | Inr _ \<Rightarrow> exec_plan exec p
   }"

text \<open>The commands a plan runs when nothing fails, and those that were run in an event list.\<close>

fun plan_cmds :: "step list \<Rightarrow> string list" where
  "plan_cmds [] = []"
| "plan_cmds (Stop e # p) = []"
| "plan_cmds (Run c w # p) = c # plan_cmds p"

fun plan_stops :: "step list \<Rightarrow> goerr option" where
  "plan_stops [] = None"
| "plan_stops (Stop e # p) = Some e"
| "plan_stops (Run c w # p) = plan_stops p"

fun cmd_of :: "event \<Rightarrow> string option" where
  "cmd_of (Cmd c r) = Some c"
| "cmd_of _ = None"

definition cmds :: "event list \<Rightarrow> string list" where
  "cmds es = List.map_filter cmd_of es"

fun cmd_ok :: "event \<Rightarrow> bool" where
  "cmd_ok (Cmd c (Inr out)) = True"
| "cmd_ok _ = False"

text \<open>
  What a run of a plan shows: \<open>None\<close> after all commands succeeded, or an error after a prefix of
  the commands of which only the last failed, or the error the plan itself stops with.
\<close>

definition plan_outcome :: "step list \<Rightarrow> goerr option \<Rightarrow> event list \<Rightarrow> bool" where
  "plan_outcome p r es \<longleftrightarrow>
     (cmds es = plan_cmds p \<and> list_all cmd_ok es \<and> r = plan_stops p) \<or>
     (\<exists>pre c w e. es = pre @ [Cmd c (Inl e)] \<and> list_all cmd_ok pre \<and> prefix (cmds es) (plan_cmds p) \<and>
        Run c w \<in> set p \<and> r = Some (w e))"

lemma cmds_simps [simp]:
  "cmds [] = []"
  "cmds (Cmd c r # es) = c # cmds es"
  "cmds (Api a x # es) = cmds es"
  "cmds (File f x # es) = cmds es"
  "cmds (SetLink l u x # es) = cmds es"
  "cmds (es @ fs) = cmds es @ cmds fs"
  by (simp_all add: cmds_def map_filter_simps map_filter_def)

lemma plan_outcome_Nil: "plan_outcome [] None []"
  by (simp add: plan_outcome_def)

lemma plan_outcome_Stop: "plan_outcome (Stop e # p) (Some e) []"
  by (simp add: plan_outcome_def)

lemma plan_outcome_failI:
  "es = pre @ [Cmd c (Inl e)] \<Longrightarrow> list_all cmd_ok pre \<Longrightarrow> prefix (cmds es) (plan_cmds p) \<Longrightarrow>
   Run c w \<in> set p \<Longrightarrow> plan_outcome p (Some (w e)) es"
  unfolding plan_outcome_def by blast

lemma plan_outcome_fail: "plan_outcome (Run c w # p) (Some (w e)) [Cmd c (Inl e)]"
  by (rule plan_outcome_failI [where pre = "[]" and c = c]) simp_all

lemma plan_outcome_ok:
  assumes "plan_outcome p r es"
  shows "plan_outcome (Run c w # p) r (Cmd c (Inr out) # es)"
proof -
  from assms consider "cmds es = plan_cmds p" "list_all cmd_ok es" "r = plan_stops p"
    | pre c' w' e where "es = pre @ [Cmd c' (Inl e)]" "list_all cmd_ok pre"
        "prefix (cmds es) (plan_cmds p)" "Run c' w' \<in> set p" "r = Some (w' e)"
    unfolding plan_outcome_def by blast
  then show ?thesis
  proof cases
    case 1
    then show ?thesis by (simp add: plan_outcome_def)
  next
    case 2
    show ?thesis
      unfolding 2(5)
      by (rule plan_outcome_failI [where pre = "Cmd c (Inr out) # pre" and c = c']) (use 2 in simp_all)
  qed
qed

lemma plan_outcome_success:
  "plan_outcome p None es \<Longrightarrow> cmds es = plan_cmds p \<and> list_all cmd_ok es \<and> plan_stops p = None"
  by (auto simp: plan_outcome_def)

lemma plan_outcome_ok_iff:
  "plan_outcome p r es \<Longrightarrow> plan_stops p = None \<Longrightarrow> (r = None) = list_all cmd_ok es"
  by (auto simp: plan_outcome_def)

lemma plan_outcome_prefix: "plan_outcome p r es \<Longrightarrow> prefix (cmds es) (plan_cmds p)"
  by (auto simp: plan_outcome_def)

lemma plan_cmds_append:
  "plan_cmds (p @ q) = plan_cmds p @ (if plan_stops p = None then plan_cmds q else [])"
  by (induction p rule: plan_cmds.induct) auto

lemma plan_stops_append:
  "plan_stops (p @ q) = (case plan_stops p of None \<Rightarrow> plan_stops q | Some e \<Rightarrow> Some e)"
  by (induction p rule: plan_cmds.induct) auto

subsection \<open>Plans that tolerate failures\<close>

text \<open>
  A command with a flag and an error wrapper. When the flag is set every failure ends the plan;
  otherwise only a timeout does, and other failures are passed over.
\<close>

type_synonym tstep = "string \<times> bool \<times> (goerr \<Rightarrow> goerr)"

fun exec_tolerant :: "(string \<Rightarrow> ('w, string result) op) \<Rightarrow> tstep list \<Rightarrow> ('w, goerr option) op" where
  "exec_tolerant exec [] = State_Monad.return None"
| "exec_tolerant exec ((c, strict, wrap) # p) = do {
     r \<leftarrow> exec c;
     case r of
       Inl e \<Rightarrow>
         if strict \<or> errors_Is e ErrTimeout then State_Monad.return (Some (wrap e))
         else exec_tolerant exec p
     | Inr _ \<Rightarrow> exec_tolerant exec p
   }"

text \<open>What a run shows: the commands in order, up to the first failure that ends the plan.\<close>

fun tolerant_outcome :: "tstep list \<Rightarrow> goerr option \<Rightarrow> event list \<Rightarrow> bool" where
  "tolerant_outcome [] r es = (r = None \<and> es = [])"
| "tolerant_outcome ((c, strict, wrap) # p) r es =
     (\<exists>res es'. es = Cmd c res # es' \<and>
        (case res of
           Inl e \<Rightarrow>
             if strict \<or> errors_Is e ErrTimeout then r = Some (wrap e) \<and> es' = []
             else tolerant_outcome p r es'
         | Inr _ \<Rightarrow> tolerant_outcome p r es'))"

fun timed_out :: "event \<Rightarrow> bool" where
  "timed_out (Cmd c (Inl e)) = errors_Is e ErrTimeout"
| "timed_out _ = False"

lemma tolerant_outcome_cases:
  assumes "tolerant_outcome ((c, strict, wrap) # p) r es"
  obtains (ok) out es' where "es = Cmd c (Inr out) # es'" "tolerant_outcome p r es'"
    | (fatal) e where "es = [Cmd c (Inl e)]" "strict \<or> errors_Is e ErrTimeout" "r = Some (wrap e)"
    | (passed) e es' where "es = Cmd c (Inl e) # es'" "\<not> strict" "\<not> errors_Is e ErrTimeout" "tolerant_outcome p r es'"
proof -
  from assms obtain res es' where es: "es = Cmd c res # es'" and
    res: "case res of
           Inl e \<Rightarrow> if strict \<or> errors_Is e ErrTimeout then r = Some (wrap e) \<and> es' = [] else tolerant_outcome p r es'
         | Inr _ \<Rightarrow> tolerant_outcome p r es'" by auto
  show thesis
  proof (cases res)
    case (Inl e)
    with es res show thesis by (cases "strict \<or> errors_Is e ErrTimeout") (auto intro: fatal passed)
  next
    case (Inr out)
    with es res show thesis by (auto intro: ok)
  qed
qed

lemma tolerant_outcome_prefix: "tolerant_outcome p r es \<Longrightarrow> prefix (cmds es) (map fst p)"
proof (induction p arbitrary: es)
  case (Cons a p)
  obtain c strict wrap where a: "a = (c, strict, wrap)" by (cases a)
  from Cons.prems [unfolded a] show ?case
    by (cases rule: tolerant_outcome_cases) (auto simp: a dest: Cons.IH)
qed simp

lemma tolerant_outcome_success:
  "tolerant_outcome p None es \<Longrightarrow> cmds es = map fst p \<and> (\<forall>e \<in> set es. \<not> timed_out e)"
proof (induction p arbitrary: es)
  case (Cons a p)
  obtain c strict wrap where a: "a = (c, strict, wrap)" by (cases a)
  from Cons.prems [unfolded a] show ?case
    by (cases rule: tolerant_outcome_cases) (auto simp: a dest: Cons.IH)
qed simp

text \<open>
  A failure is the failure of the last command, wrapped; it was a strict one or it timed out.
\<close>

definition fatal_end :: "tstep list \<Rightarrow> goerr \<Rightarrow> event list \<Rightarrow> bool" where
  "fatal_end p err es \<longleftrightarrow>
     (\<exists>pre c strict wrap e. es = pre @ [Cmd c (Inl e)] \<and> (c, strict, wrap) \<in> set p \<and> err = wrap e \<and>
        (strict \<or> errors_Is e ErrTimeout) \<and> (\<forall>x \<in> set pre. \<not> timed_out x))"

lemma fatal_end_Cons:
  assumes "fatal_end p err es" "\<not> timed_out x"
  shows "fatal_end (a # p) err (x # es)"
proof -
  from assms(1) obtain pre c strict wrap e where "es = pre @ [Cmd c (Inl e)]" "(c, strict, wrap) \<in> set p"
    "err = wrap e" "strict \<or> errors_Is e ErrTimeout" "\<forall>x \<in> set pre. \<not> timed_out x"
    by (auto simp: fatal_end_def)
  with assms(2) show ?thesis
    unfolding fatal_end_def
    by (intro exI [of _ "x # pre"] exI [of _ c] exI [of _ strict] exI [of _ wrap] exI [of _ e]) simp
qed

lemma tolerant_outcome_failure: "tolerant_outcome p (Some err) es \<Longrightarrow> fatal_end p err es"
proof (induction p arbitrary: es)
  case (Cons a p)
  obtain c strict wrap where a: "a = (c, strict, wrap)" by (cases a)
  from Cons.prems [unfolded a] show ?case
  proof (cases rule: tolerant_outcome_cases)
    case (fatal e)
    then show ?thesis
      unfolding fatal_end_def
      by (intro exI [of _ "[]"] exI [of _ c] exI [of _ strict] exI [of _ wrap] exI [of _ e]) (simp add: a)
  qed (auto intro: fatal_end_Cons dest: Cons.IH)
qed simp

lemma exec_tolerant_append:
  "exec_tolerant ex (p @ q) = do {
     e \<leftarrow> exec_tolerant ex p;
     case e of Some err \<Rightarrow> State_Monad.return (Some err) | None \<Rightarrow> exec_tolerant ex q
   }"
proof (induction p)
  case (Cons a p)
  obtain c strict wrap where a: "a = (c, strict, wrap)" by (cases a)
  have "(\<lambda>r. case r of
            Inl e \<Rightarrow> if strict \<or> errors_Is e ErrTimeout then State_Monad.return (Some (wrap e)) else exec_tolerant ex (p @ q)
          | Inr _ \<Rightarrow> exec_tolerant ex (p @ q)) =
        (\<lambda>r. State_Monad.bind (case r of
            Inl e \<Rightarrow> if strict \<or> errors_Is e ErrTimeout then State_Monad.return (Some (wrap e)) else exec_tolerant ex p
          | Inr _ \<Rightarrow> exec_tolerant ex p)
          (\<lambda>e. case e of Some err \<Rightarrow> State_Monad.return (Some err) | None \<Rightarrow> exec_tolerant ex q))"
    by (rule ext) (auto simp: Cons split: sum.splits)
  then show ?case
    unfolding a append_Cons exec_tolerant.simps State_Monad.bind_assoc
    by (rule arg_cong [where f = "State_Monad.bind (ex c)"])
qed simp

section \<open>The interface \<open>exec.API\<close>\<close>

text \<open>
  What a client of \<open>exec.API\<close> relies on: one call is one command, and its answer is what the
  caller gets.
\<close>

locale exec_api =
  fixes exec :: "string \<Rightarrow> ('w, string result) op"
  assumes exec_event: "trace_spec (exec c) (\<lambda>r es. es = [Cmd c r])"
begin

lemma exec_bind:
  assumes "\<And>r. trace_spec (f r) (\<lambda>x es. S x (Cmd c r # es))"
  shows "trace_spec (State_Monad.bind (exec c) f) S"
  by (rule trace_bindI [OF exec_event]) (simp add: assms)

lemma exec_emits: "(\<And>r. P (Cmd c r)) \<Longrightarrow> emits P (exec c)"
  unfolding emits_def by (rule trace_spec_weaken [OF exec_event]) simp

lemma exec_plan_outcome: "trace_spec (exec_plan exec p) (plan_outcome p)"
proof (induction p rule: plan_cmds.induct)
  case (3 c w p)
  show ?case
    unfolding exec_plan.simps
  proof (rule exec_bind)
    fix r
    show "trace_spec (case r of Inl e \<Rightarrow> State_Monad.return (Some (w e)) | Inr _ \<Rightarrow> exec_plan exec p)
        (\<lambda>x es. plan_outcome (Run c w # p) x (Cmd c r # es))"
    proof (cases r)
      case (Inl e)
      then show ?thesis by (simp add: trace_returnI plan_outcome_fail)
    next
      case (Inr out)
      then show ?thesis by (auto intro: trace_spec_weaken [OF 3] plan_outcome_ok)
    qed
  qed
qed (simp_all add: trace_returnI plan_outcome_Nil plan_outcome_Stop)

lemma exec_tolerant_outcome: "trace_spec (exec_tolerant exec p) (tolerant_outcome p)"
proof (induction p)
  case (Cons a p)
  obtain c strict wrap where a: "a = (c, strict, wrap)" by (cases a)
  show ?case
    unfolding a exec_tolerant.simps
  proof (rule exec_bind)
    fix r
    show "trace_spec (case r of
          Inl e \<Rightarrow> if strict \<or> errors_Is e ErrTimeout then State_Monad.return (Some (wrap e)) else exec_tolerant exec p
        | Inr _ \<Rightarrow> exec_tolerant exec p)
      (\<lambda>x es. tolerant_outcome ((c, strict, wrap) # p) x (Cmd c r # es))"
      by (cases r) (auto intro: trace_returnI trace_spec_weaken [OF Cons])
  qed
qed (simp add: trace_returnI)

text \<open>A plan that cannot stop by itself either runs completely or ends in its first failure.\<close>

lemma exec_plan_success_iff:
  assumes "run_state (exec_plan exec p) s = (r, s')"
  obtains es where "events s' = events s @ es" "plan_outcome p r es"
  using trace_specD [OF exec_plan_outcome assms] by blast

end

interpretation xapi: exec_api "Execute sh" for sh
  by unfold_locales (auto simp: Execute_def intro: trace_spec_weaken [OF trace_perform])

section \<open>Properties\<close>

text \<open>
  One call of \<open>Execute\<close> runs one command. The result is an error that
  \<open>errors.Is(_, ErrTimeout)\<close> recognises exactly when the deadline had passed, even if the command
  ended normally; it is an output exactly when the deadline had not passed and the command
  succeeded; and the output is what the command printed, without one trailing line break.
\<close>

lemma Execute_classifies:
  "let oc = fst (sh c (env s)); r = fst (run_state (Execute sh c) s) in
   events (snd (run_state (Execute sh c) s)) = events s @ [Cmd c r] \<and>
   (\<exists>e. r = Inl e \<and> errors_Is e ErrTimeout) = sh_deadline oc \<and>
   (\<exists>out. r = Inr out) = (\<not> sh_deadline oc \<and> sh_err oc = None) \<and>
   (\<forall>body. r = Inr body \<longrightarrow> sh_out oc = body @ newline \<or> sh_out oc = body \<and> \<not> suffix newline body)"
proof -
  have trim: "out = TrimSuffix out newline @ newline \<or>
      out = TrimSuffix out newline \<and> \<not> suffix newline (TrimSuffix out newline)" for out
  proof (cases "suffix newline out")
    case True
    then obtain b where "out = b @ newline" by (auto simp: suffix_def)
    then show ?thesis by simp
  next
    case False
    then show ?thesis by (simp add: TrimSuffix_other)
  qed
  show ?thesis
    using trim [of "sh_out (fst (sh c (env s)))"]
    by (cases "sh c (env s)") (auto simp: Execute_def Let_def split: option.splits)
qed

end
