(* ===== verification/Cookie.thy ===== *)
theory Cookie
  imports Exec_Api
begin

text \<open>
  \<open>GenerateUint64FromString\<close> of \<^verbatim>\<open>internal/controller/flow_controller.go\<close>: the OpenFlow cookie of
  a pod is the 64-bit FNV-1a hash (package hash/fnv) of its UID.
\<close>

unbundle bit_operations_syntax

definition fnv_offset64 :: "64 word" where "fnv_offset64 = 14695981039346656037"
definition fnv_prime64 :: "64 word" where "fnv_prime64 = 1099511628211"

definition fnv1a_step :: "64 word \<Rightarrow> char \<Rightarrow> 64 word" where
  "fnv1a_step h c = (h XOR of_char c) * fnv_prime64"

definition GenerateUint64FromString :: "string \<Rightarrow> 64 word" where
  "GenerateUint64FromString input = foldl fnv1a_step fnv_offset64 input"

section \<open>Every step is injective in the state and in the byte\<close>

definition fnv_inverse64 :: "64 word" where "fnv_inverse64 = 14886173955864302971"

lemma fnv_prime_inverse: "fnv_prime64 * fnv_inverse64 = 1"
  by (simp add: fnv_prime64_def fnv_inverse64_def)

lemma mult_fnv_prime_cancel: "a * fnv_prime64 = b * fnv_prime64 \<longleftrightarrow> a = b"
proof
  assume "a * fnv_prime64 = b * fnv_prime64"
  then have "a * (fnv_prime64 * fnv_inverse64) = b * (fnv_prime64 * fnv_inverse64)"
    by (metis mult.assoc)
  then show "a = b" by (simp add: fnv_prime_inverse)
qed simp

lemma xor_left_cancel_word: "(h XOR a = h XOR b) \<longleftrightarrow> a = (b :: 64 word)"
proof
  assume "h XOR a = h XOR b"
  then have "h XOR (h XOR a) = h XOR (h XOR b)" by simp
  then show "a = b" by (simp flip: xor.assoc)
qed simp

lemma unat_of_char: "unat (of_char c :: 64 word) = of_char c"
proof -
  have "(of_char c :: nat) < 256" by (metis of_char_mod_256 mod_less_divisor zero_less_numeral)
  then have lt: "(of_char c :: nat) < 2 ^ 64" by (rule less_trans) simp
  have "(of_char c :: 64 word) = word_of_nat (of_char c)" by (simp add: of_nat_of_char)
  also have "unat \<dots> = of_char c" using lt by (simp add: unat_of_nat)
  finally show ?thesis .
qed

lemma of_char_word_inj: "(of_char a :: 64 word) = of_char b \<longleftrightarrow> a = b"
  by (metis unat_of_char of_char_eq_iff)

lemma fnv1a_step_state_inj: "fnv1a_step h c = fnv1a_step k c \<longleftrightarrow> h = k"
  by (metis fnv1a_step_def mult_fnv_prime_cancel xor.commute xor_left_cancel_word)

lemma fnv1a_step_byte_inj: "fnv1a_step h a = fnv1a_step h b \<longleftrightarrow> a = b"
  by (simp add: fnv1a_step_def mult_fnv_prime_cancel xor_left_cancel_word of_char_word_inj)

lemma fnv_fold_inj: "foldl fnv1a_step h s = foldl fnv1a_step k s \<longleftrightarrow> h = k"
  by (induction s arbitrary: h k) (simp_all add: fnv1a_step_state_inj)

section \<open>The reference definition\<close>

text \<open>FNV-1a as it is published, on natural numbers with the reduction to 64 bits written out.\<close>

definition fnv1a_reference :: "string \<Rightarrow> nat" where
  "fnv1a_reference s = foldl (\<lambda>h c. ((h XOR of_char c) * 1099511628211) mod 2 ^ 64) 14695981039346656037 s"

lemma unat_fnv1a_step: "unat (fnv1a_step h c) = ((unat h XOR of_char c) * 1099511628211) mod 2 ^ 64"
  unfolding fnv1a_step_def by (simp add: unat_word_ariths unsigned_xor_eq unat_of_char fnv_prime64_def)

lemma unat_fnv1a_fold:
  "unat (foldl fnv1a_step h s) = foldl (\<lambda>h c. ((h XOR of_char c) * 1099511628211) mod 2 ^ 64) (unat h) s"
  by (induction s arbitrary: h) (simp_all add: unat_fnv1a_step)

text \<open>
  Property C23. The cookie of a pod is the 64-bit FNV-1a hash of its UID, as the reference definition
  computes it without machine words. Two UIDs that differ in exactly one byte have different
  cookies, wherever the byte is: the rules of one of the pods can be deleted by cookie without
  touching the other's.
\<close>

theorem cookie_is_fnv1a:
  "unat (GenerateUint64FromString input) = fnv1a_reference input \<and>
   (GenerateUint64FromString (pre @ a # suf) = GenerateUint64FromString (pre @ b # suf) \<longleftrightarrow> a = b)"
  by (simp add: GenerateUint64FromString_def fnv1a_reference_def unat_fnv1a_fold fnv_offset64_def fnv_fold_inj
      fnv1a_step_byte_inj)

end
