(* ===== verification/Flows.thy ===== *)
theory Flows
  imports Cookie
begin

text \<open>
  \<^verbatim>\<open>internal/controller/flows.go\<close>: the functions that program OpenFlow rules and groups through
  \<open>ovs-ofctl\<close> and bridge tags through \<open>ovs-vsctl\<close>, and the cookie that \<open>flow_controller.go\<close>
  derives from a pod UID. \<open>sysfs\<close> is the content of \<^verbatim>\<open>/sys/class/net\<close>; \<open>app\<close> is
  \<open>multierr.Append\<close>, of which the code relies on one documented fact: the result of appending
  an error is an error.
\<close>

definition GroupIDAllPlanes :: int where "GroupIDAllPlanes = 100"
definition RailPodID :: string where "RailPodID = ''rail_pod_id''"

section \<open>Plane identifiers\<close>

record sys_file =
  file_content :: string
  file_close_err :: "goerr option"

type_synonym sysfs = "string \<Rightarrow> sys_file result"

definition is_space :: "char \<Rightarrow> bool" where
  "is_space c \<longleftrightarrow> c \<in> {CHR 0x20, CHR 0x09, CHR 0x0A, CHR 0x0B, CHR 0x0C, CHR 0x0D}"

text \<open>\<open>ss.SkipSpace\<close> of package fmt when newlines do not count as space.\<close>

fun skip_space :: "string \<Rightarrow> string result" where
  "skip_space [] = Inr []"
| "skip_space (c # cs) =
     (if c = CHR 0x0D \<and> take 1 cs = [CHR 0x0A] then skip_space cs
      else if c = CHR 0x0A then Inl (ErrorString ''unexpected newline'')
      else if is_space c then skip_space cs
      else Inr (c # cs))"

text \<open>\<open>%d\<close> into an \<open>int\<close>: an optional sign, then decimal digits, in the range of 64 bits.\<close>

definition scan_int :: "string \<Rightarrow> int result" where
  "scan_int s =
     (case skip_space s of
        Inl e \<Rightarrow> Inl e
      | Inr s1 \<Rightarrow>
          if s1 = [] then Inl (ErrorString ''unexpected EOF'')
          else
            let neg = (hd s1 = CHR ''-'');
                s2 = (if hd s1 \<in> {CHR ''-'', CHR ''+''} then tl s1 else s1);
                ds = takeWhile is_digit s2;
                v = (if neg then - int (parse_base 10 ds) else int (parse_base 10 ds))
            in if s2 = [] then Inl (ErrorString ''unexpected EOF'')
               else if ds = [] then Inl (ErrorString ''expected integer'')
               else if - (2 ^ 63) \<le> v \<and> v < 2 ^ 63 then Inr v
               else Inl (ErrorString ''value out of range''))"

text \<open>\<open>fmt.Fscanf(fd, "p%d", &pid)\<close>.\<close>

definition Fscanf_p_d :: "string \<Rightarrow> int result" where
  "Fscanf_p_d s =
     (case s of
        [] \<Rightarrow> Inl (ErrorString ''unexpected EOF'')
      | c # cs \<Rightarrow> if c = CHR ''p'' then scan_int cs else Inl (ErrorString ''input does not match format''))"

definition getPlaneIDFromPfName :: "sysfs \<Rightarrow> string \<Rightarrow> int result" where
  "getPlaneIDFromPfName fs pfName =
     (case fs (filepath_Join [pfName, ''phys_port_name'']) of
        Inl err \<Rightarrow> Inl (ErrorString (''failed to open '' @ pfName @ '': '' @ Error err))
      | Inr fd \<Rightarrow>
          (case Fscanf_p_d (file_content fd) of
             Inl err \<Rightarrow> Inl (ErrorString (''failed to read '' @ pfName @ '': '' @ Error err))
           | Inr pid \<Rightarrow>
               (case file_close_err fd of
                  Some cerr \<Rightarrow> Inl cerr
                | None \<Rightarrow> Inr pid)))"

section \<open>Command lines\<close>

text \<open>The \<open>fmt.Sprintf\<close> texts of the file.\<close>

definition add_flow_cmd :: "string \<Rightarrow> string \<Rightarrow> string" where
  "add_flow_cmd bridgeName flow = ''ovs-ofctl add-flow '' @ bridgeName @ '' \"'' @ flow @ ''\"''"

definition mod_group_cmd :: "string \<Rightarrow> string \<Rightarrow> string" where
  "mod_group_cmd bridgeName grp = ''ovs-ofctl --may-create mod-group '' @ bridgeName @ '' \"'' @ grp @ ''\"''"

definition del_flows_cmd :: "string \<Rightarrow> 64 word \<Rightarrow> string" where
  "del_flows_cmd bridge cookie = ''ovs-ofctl del-flows '' @ bridge @ '' cookie=0x'' @ fmt_x cookie @ ''/-1''"

definition get_external_id_cmd :: "string \<Rightarrow> string \<Rightarrow> string" where
  "get_external_id_cmd bridge podID = ''ovs-vsctl br-get-external-id '' @ bridge @ '' '' @ podID"

definition get_external_ids_cmd :: "string \<Rightarrow> string" where
  "get_external_ids_cmd bridge = ''ovs-vsctl br-get-external-id '' @ bridge"

definition remove_external_id_cmd :: "string \<Rightarrow> string \<Rightarrow> string" where
  "remove_external_id_cmd bridge podID = ''ovs-vsctl remove bridge '' @ bridge @ '' external_ids '' @ podID"

definition list_br_cmd :: string where "list_br_cmd = ''ovs-vsctl list-br''"

definition port_to_br_cmd :: "string \<Rightarrow> string" where
  "port_to_br_cmd portName = ''ovs-vsctl port-to-br '' @ portName"

definition arp_flow :: "64 word \<Rightarrow> string \<Rightarrow> string" where
  "arp_flow cookie outputs = ''table=0,cookie=0x'' @ fmt_x cookie @ '',priority=16384,arp,actions=output:'' @ outputs"

definition plane_flow :: "64 word \<Rightarrow> int \<Rightarrow> string" where
  "plane_flow cookie planeID =
     ''table=1,cookie=0x'' @ fmt_x cookie @ '',nv_mp_pid='' @ fmt_d planeID @
     '',nv_mp_strict=0,nv_mp_preferred=1,actions=group:'' @ fmt_d planeID"

definition rtt_flow :: "64 word \<Rightarrow> int \<Rightarrow> string \<Rightarrow> string" where
  "rtt_flow cookie planeID pfName =
     ''table=1,cookie=0x'' @ fmt_x cookie @ '',nv_mp_pid='' @ fmt_d planeID @
     '',nv_mp_strict=1,actions=output:'' @ pfName"

definition non_roce_flow :: "64 word \<Rightarrow> string" where
  "non_roce_flow cookie =
     ''table=1,cookie=0x'' @ fmt_x cookie @ '',nv_mp_preferred=0,actions=group:'' @ fmt_d GroupIDAllPlanes"

definition plane_group :: "int \<Rightarrow> string \<Rightarrow> string" where
  "plane_group planeID pfName =
     ''group_id='' @ fmt_d planeID @ '',type=fast_failover,'' @
     ''bucket=watch_port='' @ pfName @ '',actions=output:'' @ pfName @ '','' @
     ''bucket=watch_group='' @ fmt_d GroupIDAllPlanes @ '',actions=group:'' @ fmt_d GroupIDAllPlanes"

fun all_planes_buckets :: "string list \<Rightarrow> string" where
  "all_planes_buckets [] = []"
| "all_planes_buckets (pf # pfs) =
     '',bucket=watch_port='' @ pf @ '',actions=output:'' @ pf @ all_planes_buckets pfs"

definition all_planes_group :: "string list \<Rightarrow> string" where
  "all_planes_group pfs =
     ''group_id='' @ fmt_d GroupIDAllPlanes @ '',type=select,selection_method=hash'' @ all_planes_buckets pfs"

definition pod_arp_flow :: "64 word \<Rightarrow> string \<Rightarrow> string \<Rightarrow> string" where
  "pod_arp_flow cookie podIP vf =
     ''table=0,cookie=0x'' @ fmt_x cookie @ '',arp,arp_tpa='' @ podIP @ '',actions=output:'' @ vf"

definition pod_ip_flow :: "64 word \<Rightarrow> string \<Rightarrow> string \<Rightarrow> string" where
  "pod_ip_flow cookie podIP vf =
     ''table=0,cookie=0x'' @ fmt_x cookie @ '',ip,nw_dst='' @ podIP @ '',actions=output:'' @ vf"

definition pod_out_flow :: "64 word \<Rightarrow> string \<Rightarrow> string" where
  "pod_out_flow cookie vf =
     ''table=0,priority='' @ fmt_d 16384 @ '',cookie=0x'' @ fmt_x cookie @ '',ip,in_port='' @ vf @ '',actions=resubmit(,1)''"

definition sw_ip_flow :: "64 word \<Rightarrow> string \<Rightarrow> string" where
  "sw_ip_flow cookie pfName = ''table=1,cookie=0x'' @ fmt_x cookie @ '',actions=output:'' @ pfName"

text \<open>\<open>fmt.Errorf\<close> with \<open>%v\<close>: the text of the cause is kept, the cause is not.\<close>

definition errorf_v :: "string \<Rightarrow> goerr \<Rightarrow> goerr" where
  "errorf_v msg err = ErrorString (msg @ '': '' @ Error err)"

section \<open>Operations\<close>

fun more_outputs :: "string list \<Rightarrow> string" where
  "more_outputs [] = []"
| "more_outputs (pf # pfs) = '',output:'' @ pf @ more_outputs pfs"

text \<open>The loop over \<open>pfNames\<close> of \<open>AddHardwareMultiplaneFlows\<close>.\<close>

fun add_plane_flows :: "'w shell \<Rightarrow> sysfs \<Rightarrow> string \<Rightarrow> 64 word \<Rightarrow> string list \<Rightarrow> ('w, goerr option) op" where
  "add_plane_flows sh fs bridgeName cookie [] = State_Monad.return None"
| "add_plane_flows sh fs bridgeName cookie (pfName # pfNames) =
     (case getPlaneIDFromPfName fs pfName of
        Inl err \<Rightarrow> State_Monad.return (Some (errorf_v (''failed to get plane id for '' @ pfName) err))
      | Inr planeID \<Rightarrow> do {
          r \<leftarrow> Execute sh (add_flow_cmd bridgeName (plane_flow cookie planeID));
          case r of
            Inl err \<Rightarrow> State_Monad.return
              (Some (errorf_v (''failed to add IP flow for '' @ pfName @ '' to bridge '' @ bridgeName) err))
          | Inr _ \<Rightarrow> do {
              r2 \<leftarrow> Execute sh (add_flow_cmd bridgeName (rtt_flow cookie planeID pfName));
              case r2 of
                Inl err \<Rightarrow> State_Monad.return
                  (Some (errorf_v (''failed to add flow for '' @ pfName @ '' to bridge '' @ bridgeName) err))
              | Inr _ \<Rightarrow> add_plane_flows sh fs bridgeName cookie pfNames
            }
        })"

definition AddHardwareMultiplaneFlows ::
    "'w shell \<Rightarrow> sysfs \<Rightarrow> string \<Rightarrow> 64 word \<Rightarrow> string list \<Rightarrow> ('w, goerr option) op" where
  "AddHardwareMultiplaneFlows sh fs bridgeName cookie pfNames =
     (case pfNames of
        [] \<Rightarrow> State_Monad.return (Some (ErrorString ''no pf names provided''))
      | pf0 # rest \<Rightarrow> do {
          r \<leftarrow> Execute sh (add_flow_cmd bridgeName (arp_flow cookie (pf0 @ more_outputs rest)));
          case r of
            Inl err \<Rightarrow> State_Monad.return (Some (errorf_v (''failed to add arp flow to bridge '' @ bridgeName) err))
          | Inr _ \<Rightarrow> do {
              e \<leftarrow> add_plane_flows sh fs bridgeName cookie pfNames;
              case e of
                Some err \<Rightarrow> State_Monad.return (Some err)
              | None \<Rightarrow> do {
                  r2 \<leftarrow> Execute sh (add_flow_cmd bridgeName (non_roce_flow cookie));
                  case r2 of
                    Inl err \<Rightarrow> State_Monad.return
                      (Some (errorf_v (''failed to add non-RoCE flow to bridge '' @ bridgeName) err))
                  | Inr _ \<Rightarrow> State_Monad.return None
                }
            }
        })"

fun add_plane_groups :: "'w shell \<Rightarrow> sysfs \<Rightarrow> string \<Rightarrow> string list \<Rightarrow> ('w, goerr option) op" where
  "add_plane_groups sh fs bridgeName [] = State_Monad.return None"
| "add_plane_groups sh fs bridgeName (pfName # pfNames) =
     (case getPlaneIDFromPfName fs pfName of
        Inl err \<Rightarrow> State_Monad.return (Some (errorf_v (''could not get plane ID for '' @ pfName) err))
      | Inr planeID \<Rightarrow> do {
          r \<leftarrow> Execute sh (mod_group_cmd bridgeName (plane_group planeID pfName));
          case r of
            Inl err \<Rightarrow> State_Monad.return
              (Some (errorf_v (''failed to add group for '' @ pfName @ '' to bridge '' @ bridgeName) err))
          | Inr _ \<Rightarrow> add_plane_groups sh fs bridgeName pfNames
        })"

definition AddHardwareMultiplaneGroups ::
    "'w shell \<Rightarrow> sysfs \<Rightarrow> string \<Rightarrow> string list \<Rightarrow> ('w, goerr option) op" where
  "AddHardwareMultiplaneGroups sh fs bridgeName pfNames =
     (if pfNames = [] then State_Monad.return (Some (ErrorString ''no pf names provided''))
      else do {
        e \<leftarrow> add_plane_groups sh fs bridgeName pfNames;
        case e of
          Some err \<Rightarrow> State_Monad.return (Some err)
        | None \<Rightarrow> do {
            r \<leftarrow> Execute sh (mod_group_cmd bridgeName (all_planes_group pfNames));
            case r of
              Inl err \<Rightarrow> State_Monad.return
                (Some (errorf_v (''failed to add group '' @ fmt_d GroupIDAllPlanes @ '' to bridge '' @ bridgeName) err))
            | Inr _ \<Rightarrow> State_Monad.return None
          }
      })"

definition AddPodRailFlows ::
    "'w shell \<Rightarrow> 64 word \<Rightarrow> string \<Rightarrow> string \<Rightarrow> string \<Rightarrow> ('w, goerr option) op" where
  "AddPodRailFlows sh cookie vf bridge podIP = do {
     r1 \<leftarrow> Execute sh (add_flow_cmd bridge (pod_arp_flow cookie podIP vf));
     case r1 of
       Inl err \<Rightarrow> State_Monad.return (Some (errorf_v (''failed to add flows to bridge ['' @ bridge @ '']'') err))
     | Inr _ \<Rightarrow> do {
         r2 \<leftarrow> Execute sh (add_flow_cmd bridge (pod_ip_flow cookie podIP vf));
         case r2 of
           Inl err \<Rightarrow> State_Monad.return (Some (errorf_v (''failed to add flows to bridge ['' @ bridge @ '']'') err))
         | Inr _ \<Rightarrow> do {
             r3 \<leftarrow> Execute sh (add_flow_cmd bridge (pod_out_flow cookie vf));
             case r3 of
               Inl err \<Rightarrow> State_Monad.return (Some (errorf_v (''failed to add flows to bridge ['' @ bridge @ '']'') err))
             | Inr _ \<Rightarrow> State_Monad.return None
           }
       }
   }"

definition AddSoftwareMultiplaneFlows ::
    "'w shell \<Rightarrow> string \<Rightarrow> 64 word \<Rightarrow> string \<Rightarrow> ('w, goerr option) op" where
  "AddSoftwareMultiplaneFlows sh bridgeName cookie pfName = do {
     r1 \<leftarrow> Execute sh (add_flow_cmd bridgeName (arp_flow cookie pfName));
     case r1 of
       Inl err \<Rightarrow> State_Monad.return (Some (errorf_v (''failed to add ARP flow to bridge '' @ bridgeName) err))
     | Inr _ \<Rightarrow> do {
         r2 \<leftarrow> Execute sh (add_flow_cmd bridgeName (sw_ip_flow cookie pfName));
         case r2 of
           Inl err \<Rightarrow> State_Monad.return (Some (errorf_v (''failed to add IP flow to bridge '' @ bridgeName) err))
         | Inr _ \<Rightarrow> State_Monad.return None
       }
   }"

definition DeleteFlowsByCookie :: "'w shell \<Rightarrow> string \<Rightarrow> 64 word \<Rightarrow> ('w, goerr option) op" where
  "DeleteFlowsByCookie sh bridgeName cookie = do {
     r \<leftarrow> Execute sh (del_flows_cmd bridgeName cookie);
     case r of
       Inl err \<Rightarrow> State_Monad.return (Some (errorf_v (''failed to delete flows for bridge '' @ bridgeName) err))
     | Inr _ \<Rightarrow> State_Monad.return None
   }"

text \<open>On failure \<open>Execute\<close> returns an empty output, which is what the message prints.\<close>

definition cleanBridgeFlows :: "'w shell \<Rightarrow> string \<Rightarrow> string \<Rightarrow> 64 word \<Rightarrow> ('w, goerr option) op" where
  "cleanBridgeFlows sh bridge podID cookie = do {
     r \<leftarrow> Execute sh (del_flows_cmd bridge cookie);
     case r of
       Inl err \<Rightarrow> State_Monad.return
         (Some (ErrorString (''failed to delete flows for bridge '' @ bridge @ '': '' @ Error err @ '', output: '')))
     | Inr _ \<Rightarrow> do {
         r2 \<leftarrow> Execute sh (remove_external_id_cmd bridge podID);
         case r2 of
           Inl err \<Rightarrow> State_Monad.return
             (Some (errorf_v (''failed to clear external id for bridge '' @ bridge) err))
         | Inr _ \<Rightarrow> State_Monad.return None
       }
   }"

type_synonym multierr_append = "goerr option \<Rightarrow> goerr \<Rightarrow> goerr option"

text \<open>The loop over the bridges of \<open>DeletePodRailFlows\<close>; \<open>errs\<close> is the error collected so far.\<close>

fun delete_pod_flows :: "multierr_append \<Rightarrow> 'w shell \<Rightarrow> 64 word \<Rightarrow> string \<Rightarrow> string list \<Rightarrow> goerr option
    \<Rightarrow> ('w, goerr option) op" where
  "delete_pod_flows app sh cookie podID [] errs = State_Monad.return errs"
| "delete_pod_flows app sh cookie podID (bridge # bridges) errs = do {
     val \<leftarrow> Execute sh (get_external_id_cmd bridge podID);
     case val of
       Inl err \<Rightarrow> delete_pod_flows app sh cookie podID bridges
         (app errs (errorf_v (''failed to get external id for bridge '' @ bridge) err))
     | Inr v \<Rightarrow>
         if v = RailPodID then do {
           e \<leftarrow> cleanBridgeFlows sh bridge podID cookie;
           case e of
             Some err \<Rightarrow> delete_pod_flows app sh cookie podID bridges (app errs err)
           | None \<Rightarrow> delete_pod_flows app sh cookie podID bridges errs
         }
         else delete_pod_flows app sh cookie podID bridges errs
   }"

definition DeletePodRailFlows :: "multierr_append \<Rightarrow> 'w shell \<Rightarrow> 64 word \<Rightarrow> string \<Rightarrow> ('w, goerr option) op" where
  "DeletePodRailFlows app sh cookie podID = do {
     out \<leftarrow> Execute sh list_br_cmd;
     case out of
       Inl err \<Rightarrow> State_Monad.return (Some (errorf_v ''failed to list bridges'' err))
     | Inr s \<Rightarrow> delete_pod_flows app sh cookie podID (Split s CHR 0x0A) None
   }"

definition IsBridgeManagedByRailCNI :: "'w shell \<Rightarrow> string \<Rightarrow> string \<Rightarrow> ('w, bool result) op" where
  "IsBridgeManagedByRailCNI sh bridge podID = do {
     out \<leftarrow> Execute sh (get_external_id_cmd bridge podID);
     case out of
       Inl err \<Rightarrow> State_Monad.return (Inl (ErrorString
         (''failed to get external id for bridge '' @ bridge @ '', output: , err: '' @ Error err)))
     | Inr v \<Rightarrow> State_Monad.return (Inr (v = RailPodID))
   }"

text \<open>The inner loop of \<open>CleanupStaleFlowsForBridges\<close> that collects \<open>stalePods\<close>.\<close>

fun stale_pods :: "(string \<rightharpoonup> bool) \<Rightarrow> string list \<Rightarrow> (string \<times> 64 word) list" where
  "stale_pods existing [] = []"
| "stale_pods existing (line # lines) =
     (if Contains line (''='' @ RailPodID) then
        (let parts = Split line CHR ''='' in
         if 2 \<le> length parts \<and> existing (hd parts) \<noteq> Some True
         then (hd parts, GenerateUint64FromString (hd parts)) # stale_pods existing lines
         else stale_pods existing lines)
      else stale_pods existing lines)"

fun clean_stale_pods :: "multierr_append \<Rightarrow> 'w shell \<Rightarrow> string \<Rightarrow> (string \<times> 64 word) list \<Rightarrow> goerr option
    \<Rightarrow> ('w, goerr option) op" where
  "clean_stale_pods app sh bridge [] errs = State_Monad.return errs"
| "clean_stale_pods app sh bridge ((podID, cookie) # ps) errs = do {
     e \<leftarrow> cleanBridgeFlows sh bridge podID cookie;
     case e of
       Some err \<Rightarrow> clean_stale_pods app sh bridge ps (app errs err)
     | None \<Rightarrow> clean_stale_pods app sh bridge ps errs
   }"

fun cleanup_bridges :: "multierr_append \<Rightarrow> 'w shell \<Rightarrow> (string \<rightharpoonup> bool) \<Rightarrow> string list \<Rightarrow> goerr option
    \<Rightarrow> ('w, goerr option) op" where
  "cleanup_bridges app sh existing [] errs = State_Monad.return errs"
| "cleanup_bridges app sh existing (bridge # bridges) errs = do {
     out \<leftarrow> Execute sh (get_external_ids_cmd bridge);
     case out of
       Inl err \<Rightarrow> cleanup_bridges app sh existing bridges
         (app errs (ErrorString (''failed to get external ids for bridge '' @ bridge @ '': out: , err: '' @ Error err)))
     | Inr ids \<Rightarrow> do {
         errs' \<leftarrow> clean_stale_pods app sh bridge (stale_pods existing (Split ids CHR 0x0A)) errs;
         cleanup_bridges app sh existing bridges errs'
       }
   }"

definition CleanupStaleFlowsForBridges :: "multierr_append \<Rightarrow> 'w shell \<Rightarrow> (string \<rightharpoonup> bool) \<Rightarrow> ('w, goerr option) op" where
  "CleanupStaleFlowsForBridges app sh existing = do {
     out \<leftarrow> Execute sh list_br_cmd;
     case out of
       Inl err \<Rightarrow> State_Monad.return
         (Some (ErrorString (''failed to list bridges: out: , err: '' @ Error err)))
     | Inr s \<Rightarrow> cleanup_bridges app sh existing (Split s CHR 0x0A) None
   }"

definition GetBridgeNameFromPortName :: "'w shell \<Rightarrow> string \<Rightarrow> ('w, string result) op" where
  "GetBridgeNameFromPortName sh portName = do {
     out \<leftarrow> Execute sh (port_to_br_cmd portName);
     case out of
       Inl err \<Rightarrow> State_Monad.return (Inl (errorf_v (''failed to get bridge name for port '' @ portName) err))
     | Inr v \<Rightarrow> State_Monad.return (Inr v)
   }"

section \<open>Plans of the flow-programming functions\<close>

text \<open>
  Each function that stops at the first failing command is equal to the run of a plan: the
  commands in order, each with the text its failure is reported with.
\<close>

fun hw_plane_plan :: "sysfs \<Rightarrow> string \<Rightarrow> 64 word \<Rightarrow> string list \<Rightarrow> step list" where
  "hw_plane_plan fs br cookie [] = []"
| "hw_plane_plan fs br cookie (pf # pfs) =
     (case getPlaneIDFromPfName fs pf of
        Inl err \<Rightarrow> [Stop (errorf_v (''failed to get plane id for '' @ pf) err)]
      | Inr i \<Rightarrow>
          Run (add_flow_cmd br (plane_flow cookie i))
            (errorf_v (''failed to add IP flow for '' @ pf @ '' to bridge '' @ br)) #
          Run (add_flow_cmd br (rtt_flow cookie i pf))
            (errorf_v (''failed to add flow for '' @ pf @ '' to bridge '' @ br)) #
          hw_plane_plan fs br cookie pfs)"

definition hw_flow_plan :: "sysfs \<Rightarrow> string \<Rightarrow> 64 word \<Rightarrow> string list \<Rightarrow> step list" where
  "hw_flow_plan fs br cookie pfs =
     (if pfs = [] then [Stop (ErrorString ''no pf names provided'')]
      else Run (add_flow_cmd br (arp_flow cookie (hd pfs @ more_outputs (tl pfs))))
             (errorf_v (''failed to add arp flow to bridge '' @ br)) #
           hw_plane_plan fs br cookie pfs @
           [Run (add_flow_cmd br (non_roce_flow cookie))
             (errorf_v (''failed to add non-RoCE flow to bridge '' @ br))])"

fun hw_group_plane_plan :: "sysfs \<Rightarrow> string \<Rightarrow> string list \<Rightarrow> step list" where
  "hw_group_plane_plan fs br [] = []"
| "hw_group_plane_plan fs br (pf # pfs) =
     (case getPlaneIDFromPfName fs pf of
        Inl err \<Rightarrow> [Stop (errorf_v (''could not get plane ID for '' @ pf) err)]
      | Inr i \<Rightarrow>
          Run (mod_group_cmd br (plane_group i pf))
            (errorf_v (''failed to add group for '' @ pf @ '' to bridge '' @ br)) #
          hw_group_plane_plan fs br pfs)"

definition hw_group_plan :: "sysfs \<Rightarrow> string \<Rightarrow> string list \<Rightarrow> step list" where
  "hw_group_plan fs br pfs =
     (if pfs = [] then [Stop (ErrorString ''no pf names provided'')]
      else hw_group_plane_plan fs br pfs @
           [Run (mod_group_cmd br (all_planes_group pfs))
             (errorf_v (''failed to add group '' @ fmt_d GroupIDAllPlanes @ '' to bridge '' @ br))])"

definition pod_flow_plan :: "64 word \<Rightarrow> string \<Rightarrow> string \<Rightarrow> string \<Rightarrow> step list" where
  "pod_flow_plan cookie vf br ip =
     map (\<lambda>flow. Run (add_flow_cmd br flow) (errorf_v (''failed to add flows to bridge ['' @ br @ '']'')))
       [pod_arp_flow cookie ip vf, pod_ip_flow cookie ip vf, pod_out_flow cookie vf]"

definition sw_flow_plan :: "string \<Rightarrow> 64 word \<Rightarrow> string \<Rightarrow> step list" where
  "sw_flow_plan br cookie pf =
     [Run (add_flow_cmd br (arp_flow cookie pf)) (errorf_v (''failed to add ARP flow to bridge '' @ br)),
      Run (add_flow_cmd br (sw_ip_flow cookie pf)) (errorf_v (''failed to add IP flow to bridge '' @ br))]"

definition clean_plan :: "string \<Rightarrow> string \<Rightarrow> 64 word \<Rightarrow> step list" where
  "clean_plan br podID cookie =
     [Run (del_flows_cmd br cookie)
        (\<lambda>err. ErrorString (''failed to delete flows for bridge '' @ br @ '': '' @ Error err @ '', output: '')),
      Run (remove_external_id_cmd br podID) (errorf_v (''failed to clear external id for bridge '' @ br))]"

lemma exec_plan_append:
  "exec_plan ex (p @ q) = do {
     e \<leftarrow> exec_plan ex p;
     case e of Some err \<Rightarrow> State_Monad.return (Some err) | None \<Rightarrow> exec_plan ex q
   }"
proof (induction p rule: plan_cmds.induct)
  case (3 c w p)
  have "(\<lambda>r. case r of Inl e \<Rightarrow> State_Monad.return (Some (w e)) | Inr _ \<Rightarrow> exec_plan ex (p @ q)) =
        (\<lambda>r. State_Monad.bind (case r of Inl e \<Rightarrow> State_Monad.return (Some (w e)) | Inr _ \<Rightarrow> exec_plan ex p)
          (\<lambda>e. case e of Some err \<Rightarrow> State_Monad.return (Some err) | None \<Rightarrow> exec_plan ex q))"
    by (rule ext) (auto simp: 3 split: sum.splits)
  then show ?case
    unfolding append_Cons exec_plan.simps State_Monad.bind_assoc
    by (rule arg_cong [where f = "State_Monad.bind (ex c)"])
qed simp_all

lemma add_plane_flows_plan:
  "add_plane_flows sh fs br cookie pfs = exec_plan (Execute sh) (hw_plane_plan fs br cookie pfs)"
proof (induction pfs)
  case (Cons pf pfs)
  show ?case
    unfolding add_plane_flows.simps hw_plane_plan.simps
    by (cases "getPlaneIDFromPfName fs pf") (simp_all only: sum.case exec_plan.simps Cons.IH)
qed simp

lemma add_plane_groups_plan:
  "add_plane_groups sh fs br pfs = exec_plan (Execute sh) (hw_group_plane_plan fs br pfs)"
proof (induction pfs)
  case (Cons pf pfs)
  show ?case
    unfolding add_plane_groups.simps hw_group_plane_plan.simps
    by (cases "getPlaneIDFromPfName fs pf") (simp_all only: sum.case exec_plan.simps Cons.IH)
qed simp

lemma AddHardwareMultiplaneFlows_plan:
  "AddHardwareMultiplaneFlows sh fs br cookie pfs = exec_plan (Execute sh) (hw_flow_plan fs br cookie pfs)"
proof (cases pfs)
  case Nil
  then show ?thesis by (simp add: AddHardwareMultiplaneFlows_def hw_flow_plan_def)
next
  case (Cons pf rest)
  then have ne: "(pf # rest = []) = False" by simp
  show ?thesis
    unfolding Cons AddHardwareMultiplaneFlows_def hw_flow_plan_def ne if_False list.case list.sel
      exec_plan.simps exec_plan_append add_plane_flows_plan
    by (rule refl)
qed

lemma AddHardwareMultiplaneGroups_plan:
  "AddHardwareMultiplaneGroups sh fs br pfs = exec_plan (Execute sh) (hw_group_plan fs br pfs)"
proof (cases "pfs = []")
  case False
  then show ?thesis
    unfolding AddHardwareMultiplaneGroups_def hw_group_plan_def if_not_P [OF False]
      exec_plan.simps exec_plan_append add_plane_groups_plan
    by (simp only:)
qed (simp add: AddHardwareMultiplaneGroups_def hw_group_plan_def)

lemma AddPodRailFlows_plan:
  "AddPodRailFlows sh cookie vf br ip = exec_plan (Execute sh) (pod_flow_plan cookie vf br ip)"
  unfolding AddPodRailFlows_def pod_flow_plan_def list.map exec_plan.simps by (rule refl)

lemma AddSoftwareMultiplaneFlows_plan:
  "AddSoftwareMultiplaneFlows sh br cookie pf = exec_plan (Execute sh) (sw_flow_plan br cookie pf)"
  unfolding AddSoftwareMultiplaneFlows_def sw_flow_plan_def exec_plan.simps by (rule refl)

lemma cleanBridgeFlows_plan:
  "cleanBridgeFlows sh br podID cookie = exec_plan (Execute sh) (clean_plan br podID cookie)"
  unfolding cleanBridgeFlows_def clean_plan_def exec_plan.simps by (rule refl)

lemmas flow_plans =
  AddHardwareMultiplaneFlows_plan AddHardwareMultiplaneGroups_plan AddPodRailFlows_plan
  AddSoftwareMultiplaneFlows_plan cleanBridgeFlows_plan

section \<open>Traces of the deletion functions\<close>

definition multierr_law :: "multierr_append \<Rightarrow> bool" where
  "multierr_law app \<longleftrightarrow> (\<forall>errs e. app errs e \<noteq> None)"

lemma multierr_lawD [simp]: "multierr_law app \<Longrightarrow> app errs e \<noteq> None"
  by (simp add: multierr_law_def)

text \<open>What one pass over a bridge does when the rules of a deleted pod are removed.\<close>

definition bridge_visit :: "string \<Rightarrow> 64 word \<Rightarrow> string \<Rightarrow> event list \<Rightarrow> bool" where
  "bridge_visit podID cookie br seg \<longleftrightarrow>
     (\<exists>e. seg = [Cmd (get_external_id_cmd br podID) (Inl e)]) \<or>
     (\<exists>v. v \<noteq> RailPodID \<and> seg = [Cmd (get_external_id_cmd br podID) (Inr v)]) \<or>
     (\<exists>r rest. seg = Cmd (get_external_id_cmd br podID) (Inr RailPodID) # rest \<and>
        plan_outcome (clean_plan br podID cookie) r rest)"

text \<open>What one pass over a bridge does when the rules of vanished pods are removed.\<close>

definition clean_visit :: "string \<Rightarrow> string \<times> 64 word \<Rightarrow> event list \<Rightarrow> bool" where
  "clean_visit br p seg \<longleftrightarrow> (\<exists>r. plan_outcome (clean_plan br (fst p) (snd p)) r seg)"

definition stale_visit :: "(string \<rightharpoonup> bool) \<Rightarrow> string \<Rightarrow> event list \<Rightarrow> bool" where
  "stale_visit existing br seg \<longleftrightarrow>
     (\<exists>e. seg = [Cmd (get_external_ids_cmd br) (Inl e)]) \<or>
     (\<exists>ids segs. seg = Cmd (get_external_ids_cmd br) (Inr ids) # concat segs \<and>
        list_all2 (clean_visit br) (stale_pods existing (Split ids CHR 0x0A)) segs)"

lemma clean_plan_stops [simp]: "plan_stops (clean_plan br p c) = None"
  by (simp add: clean_plan_def)

lemma cleanBridgeFlows_trace:
  "trace_spec (cleanBridgeFlows sh br p c)
     (\<lambda>r es. plan_outcome (clean_plan br p c) r es \<and> (r = None) = list_all cmd_ok es)"
  unfolding cleanBridgeFlows_plan
  by (rule trace_spec_weaken [OF xapi.exec_plan_outcome]) (simp add: plan_outcome_ok_iff)

text \<open>A pass over a list in which every element contributes its own segment of events.\<close>

definition pass :: "('a \<Rightarrow> event list \<Rightarrow> bool) \<Rightarrow> 'a list \<Rightarrow> goerr option \<Rightarrow> goerr option \<Rightarrow> event list \<Rightarrow> bool" where
  "pass V xs errs r es \<longleftrightarrow>
     (\<exists>segs. es = concat segs \<and> list_all2 V xs segs) \<and> (r = None) = (errs = None \<and> list_all cmd_ok es)"

lemma pass_Nil [simp]: "pass V [] errs r es \<longleftrightarrow> es = [] \<and> (r = None) = (errs = None)"
  by (auto simp: pass_def)

lemma pass_Cons:
  assumes "V x seg" "pass V xs errs' r es" "(errs' = None) = (errs = None \<and> list_all cmd_ok seg)"
  shows "pass V (x # xs) errs r (seg @ es)"
proof -
  from assms(2) obtain segs where s: "es = concat segs" "list_all2 V xs segs"
    by (auto simp: pass_def)
  have "seg @ es = concat (seg # segs)" "list_all2 V (x # xs) (seg # segs)"
    using s assms(1) by simp_all
  moreover have "(r = None) = (errs = None \<and> list_all cmd_ok (seg @ es))"
    using assms(2,3) by (auto simp: pass_def)
  ultimately show ?thesis unfolding pass_def by blast
qed

lemma pass_step:
  "trace_spec m (pass V xs errs') \<Longrightarrow> V x seg \<Longrightarrow> (errs' = None) = (errs = None \<and> list_all cmd_ok seg) \<Longrightarrow>
   trace_spec m (\<lambda>r es. pass V (x # xs) errs r (seg @ es))"
  by (erule trace_spec_weaken) (rule pass_Cons)

lemmas pass_step_one = pass_step [where seg = "[ev]" for ev, unfolded append_Cons append_Nil]
lemmas pass_step_many = pass_step [where seg = "ev # seg" for ev seg, unfolded append_Cons]

lemma delete_pod_flows_pass:
  assumes law: "multierr_law app"
  shows "trace_spec (delete_pod_flows app sh cookie podID brs errs) (pass (bridge_visit podID cookie) brs errs)"
proof (induction brs arbitrary: errs)
  case Nil
  show ?case by (simp add: trace_returnI)
next
  case (Cons br brs)
  show ?case
    unfolding delete_pod_flows.simps
  proof (intro xapi.exec_bind trace_case_sum trace_if, goal_cases)
    case (1 val err)
    then show ?case using law by (intro pass_step_one [OF Cons.IH]) (simp_all add: bridge_visit_def)
  next
    case (2 val v)
    show ?case
    proof (intro trace_bindI [OF cleanBridgeFlows_trace] trace_case_option, goal_cases)
      case (1 e seg)
      with 2 show ?case by (intro pass_step_many [OF Cons.IH]) (auto simp: bridge_visit_def)
    next
      case (2 e seg err)
      with \<open>val = Inr v\<close> \<open>v = RailPodID\<close> law show ?case
        by (intro pass_step_many [OF Cons.IH]) (auto simp: bridge_visit_def)
    qed
  next
    case (3 val v)
    then show ?case by (intro pass_step_one [OF Cons.IH]) (simp_all add: bridge_visit_def)
  qed
qed

lemma clean_stale_pods_pass:
  assumes law: "multierr_law app"
  shows "trace_spec (clean_stale_pods app sh br ps errs) (pass (clean_visit br) ps errs)"
proof (induction ps arbitrary: errs)
  case Nil
  show ?case by (simp add: trace_returnI)
next
  case (Cons p ps)
  obtain pod c where p: "p = (pod, c)" by (cases p)
  show ?case
    unfolding p clean_stale_pods.simps
  proof (intro trace_bindI [OF cleanBridgeFlows_trace] trace_case_option, goal_cases)
    case (1 e seg)
    then show ?case by (intro pass_step [OF Cons.IH]) (auto simp: clean_visit_def)
  next
    case (2 e seg err)
    then show ?case using law by (intro pass_step [OF Cons.IH]) (auto simp: clean_visit_def)
  qed
qed

lemma cleanup_bridges_pass:
  assumes law: "multierr_law app"
  shows "trace_spec (cleanup_bridges app sh existing brs errs) (pass (stale_visit existing) brs errs)"
proof (induction brs arbitrary: errs)
  case Nil
  show ?case by (simp add: trace_returnI)
next
  case (Cons br brs)
  show ?case
    unfolding cleanup_bridges.simps
  proof (intro xapi.exec_bind trace_case_sum, goal_cases)
    case (1 out err)
    then show ?case using law by (intro pass_step_one [OF Cons.IH]) (simp_all add: stale_visit_def)
  next
    case (2 out ids)
    show ?case
    proof (rule trace_bindI [OF clean_stale_pods_pass [OF law]], goal_cases)
      case (1 errs' seg)
      with 2 show ?case by (intro pass_step_many [OF Cons.IH]) (auto simp: stale_visit_def pass_def)
    qed
  qed
qed

section \<open>The interface \<open>FlowsAPI\<close>\<close>

record 'w FlowsAPI =
  api_AddHardwareMultiplaneFlows :: "string \<Rightarrow> 64 word \<Rightarrow> string list \<Rightarrow> ('w, goerr option) op"
  api_AddHardwareMultiplaneGroups :: "string \<Rightarrow> string list \<Rightarrow> ('w, goerr option) op"
  api_AddPodRailFlows :: "64 word \<Rightarrow> string \<Rightarrow> string \<Rightarrow> string \<Rightarrow> ('w, goerr option) op"
  api_AddSoftwareMultiplaneFlows :: "string \<Rightarrow> 64 word \<Rightarrow> string \<Rightarrow> ('w, goerr option) op"
  api_DeleteFlowsByCookie :: "string \<Rightarrow> 64 word \<Rightarrow> ('w, goerr option) op"
  api_DeletePodRailFlows :: "64 word \<Rightarrow> string \<Rightarrow> ('w, goerr option) op"
  api_IsBridgeManagedByRailCNI :: "string \<Rightarrow> string \<Rightarrow> ('w, bool result) op"
  api_CleanupStaleFlowsForBridges :: "(string \<rightharpoonup> bool) \<Rightarrow> ('w, goerr option) op"
  api_GetBridgeNameFromPortName :: "string \<Rightarrow> ('w, string result) op"

definition NewFlows :: "multierr_append \<Rightarrow> sysfs \<Rightarrow> 'w shell \<Rightarrow> 'w FlowsAPI" where
  "NewFlows app fs sh =
     \<lparr>api_AddHardwareMultiplaneFlows = AddHardwareMultiplaneFlows sh fs,
      api_AddHardwareMultiplaneGroups = AddHardwareMultiplaneGroups sh fs,
      api_AddPodRailFlows = AddPodRailFlows sh,
      api_AddSoftwareMultiplaneFlows = AddSoftwareMultiplaneFlows sh,
      api_DeleteFlowsByCookie = DeleteFlowsByCookie sh,
      api_DeletePodRailFlows = DeletePodRailFlows app sh,
      api_IsBridgeManagedByRailCNI = IsBridgeManagedByRailCNI sh,
      api_CleanupStaleFlowsForBridges = CleanupStaleFlowsForBridges app sh,
      api_GetBridgeNameFromPortName = GetBridgeNameFromPortName sh\<rparr>"

definition managed_answer :: "string \<Rightarrow> string \<Rightarrow> bool result \<Rightarrow> event list \<Rightarrow> bool" where
  "managed_answer br podID r es \<longleftrightarrow>
     (\<exists>a. es = [Cmd (get_external_id_cmd br podID) a] \<and>
        (case r of Inr b \<Rightarrow> \<exists>v. a = Inr v \<and> b = (v = RailPodID) | Inl _ \<Rightarrow> \<exists>e. a = Inl e))"

definition delete_outcome :: "64 word \<Rightarrow> string \<Rightarrow> goerr option \<Rightarrow> event list \<Rightarrow> bool" where
  "delete_outcome cookie podID r es \<longleftrightarrow>
     (\<exists>e. es = [Cmd list_br_cmd (Inl e)] \<and> r \<noteq> None) \<or>
     (\<exists>out rest. es = Cmd list_br_cmd (Inr out) # rest \<and>
        pass (bridge_visit podID cookie) (Split out CHR 0x0A) None r rest)"

definition cleanup_outcome :: "(string \<rightharpoonup> bool) \<Rightarrow> goerr option \<Rightarrow> event list \<Rightarrow> bool" where
  "cleanup_outcome existing r es \<longleftrightarrow>
     (\<exists>e. es = [Cmd list_br_cmd (Inl e)] \<and> r \<noteq> None) \<or>
     (\<exists>out rest. es = Cmd list_br_cmd (Inr out) # rest \<and>
        pass (stale_visit existing) (Split out CHR 0x0A) None r rest)"

text \<open>
  What the pod reconciler and the stale-flow cleaner rely on: the contract of each method they
  call, in terms of the commands it runs and the answers they got.
\<close>

locale flows_api =
  fixes F :: "'w FlowsAPI"
  assumes managed_trace: "trace_spec (api_IsBridgeManagedByRailCNI F br podID) (managed_answer br podID)"
    and add_pod_trace:
      "trace_spec (api_AddPodRailFlows F cookie vf br ip) (plan_outcome (pod_flow_plan cookie vf br ip))"
    and delete_pod_trace:
      "trace_spec (api_DeletePodRailFlows F cookie podID) (delete_outcome cookie podID)"
    and cleanup_trace:
      "trace_spec (api_CleanupStaleFlowsForBridges F existing) (cleanup_outcome existing)"

lemma IsBridgeManaged_trace: "trace_spec (IsBridgeManagedByRailCNI sh br podID) (managed_answer br podID)"
  unfolding IsBridgeManagedByRailCNI_def
  by (intro xapi.exec_bind trace_case_sum trace_returnI) (auto simp: managed_answer_def)

lemma DeletePodRailFlows_trace:
  assumes "multierr_law app"
  shows "trace_spec (DeletePodRailFlows app sh cookie podID) (delete_outcome cookie podID)"
  unfolding DeletePodRailFlows_def
proof (intro xapi.exec_bind trace_case_sum, goal_cases)
  case (1 out e)
  then show ?case by (intro trace_returnI) (simp add: delete_outcome_def)
next
  case (2 out s)
  then show ?case
    by (intro trace_spec_weaken [OF delete_pod_flows_pass [OF assms]]) (auto simp: delete_outcome_def)
qed

lemma CleanupStaleFlows_trace:
  assumes "multierr_law app"
  shows "trace_spec (CleanupStaleFlowsForBridges app sh existing) (cleanup_outcome existing)"
  unfolding CleanupStaleFlowsForBridges_def
proof (intro xapi.exec_bind trace_case_sum, goal_cases)
  case (1 out e)
  then show ?case by (intro trace_returnI) (simp add: cleanup_outcome_def)
next
  case (2 out s)
  then show ?case
    by (intro trace_spec_weaken [OF cleanup_bridges_pass [OF assms]]) (auto simp: cleanup_outcome_def)
qed

lemma NewFlows_api: "multierr_law app \<Longrightarrow> flows_api (NewFlows app fs sh)"
  by unfold_locales
    (simp_all add: NewFlows_def IsBridgeManaged_trace AddPodRailFlows_plan xapi.exec_plan_outcome
      DeletePodRailFlows_trace CleanupStaleFlows_trace)

text \<open>
  \<open>first_error\<close> is an implementation of \<open>multierr.Append\<close> that meets the documented fact; with
  it the functions of this theory implement the interface.
\<close>

definition first_error :: multierr_append where
  "first_error errs e = (case errs of None \<Rightarrow> Some e | Some e' \<Rightarrow> Some e')"

lemma first_error_law [simp]: "multierr_law first_error"
  by (simp add: multierr_law_def first_error_def split: option.splits)

interpretation flowsi: flows_api "NewFlows first_error fs sh" for fs sh
  by (rule NewFlows_api) simp

section \<open>Properties\<close>

definition hw_flow_cmds :: "string \<Rightarrow> 64 word \<Rightarrow> (string \<times> int) list \<Rightarrow> string list" where
  "hw_flow_cmds br cookie planes =
     add_flow_cmd br (arp_flow cookie (hd (map fst planes) @ more_outputs (tl (map fst planes)))) #
     concat (map (\<lambda>(pf, i). [add_flow_cmd br (plane_flow cookie i), add_flow_cmd br (rtt_flow cookie i pf)]) planes) @
     [add_flow_cmd br (non_roce_flow cookie)]"

definition hw_group_cmds :: "string \<Rightarrow> (string \<times> int) list \<Rightarrow> string list" where
  "hw_group_cmds br planes =
     map (\<lambda>(pf, i). mod_group_cmd br (plane_group i pf)) planes @
     [mod_group_cmd br (all_planes_group (map fst planes))]"

definition planes_known :: "sysfs \<Rightarrow> (string \<times> int) list \<Rightarrow> bool" where
  "planes_known fs planes \<longleftrightarrow> planes \<noteq> [] \<and> (\<forall>p \<in> set planes. getPlaneIDFromPfName fs (fst p) = Inr (snd p))"

lemma hw_plane_plan_known:
  "\<forall>p \<in> set planes. getPlaneIDFromPfName fs (fst p) = Inr (snd p) \<Longrightarrow>
   plan_cmds (hw_plane_plan fs br cookie (map fst planes)) =
     concat (map (\<lambda>(pf, i). [add_flow_cmd br (plane_flow cookie i), add_flow_cmd br (rtt_flow cookie i pf)]) planes) \<and>
   plan_stops (hw_plane_plan fs br cookie (map fst planes)) = None"
  by (induction planes) auto

lemma hw_group_plane_plan_known:
  "\<forall>p \<in> set planes. getPlaneIDFromPfName fs (fst p) = Inr (snd p) \<Longrightarrow>
   plan_cmds (hw_group_plane_plan fs br (map fst planes)) =
     map (\<lambda>(pf, i). mod_group_cmd br (plane_group i pf)) planes \<and>
   plan_stops (hw_group_plane_plan fs br (map fst planes)) = None"
  by (induction planes) auto

lemma hw_flow_plan_known:
  "planes_known fs planes \<Longrightarrow>
   plan_cmds (hw_flow_plan fs br cookie (map fst planes)) = hw_flow_cmds br cookie planes \<and>
   plan_stops (hw_flow_plan fs br cookie (map fst planes)) = None"
  using hw_plane_plan_known [of planes fs br cookie]
  by (simp add: planes_known_def hw_flow_plan_def hw_flow_cmds_def plan_cmds_append plan_stops_append)

lemma hw_group_plan_known:
  "planes_known fs planes \<Longrightarrow>
   plan_cmds (hw_group_plan fs br (map fst planes)) = hw_group_cmds br planes \<and>
   plan_stops (hw_group_plan fs br (map fst planes)) = None"
  using hw_group_plane_plan_known [of planes fs br]
  by (simp add: planes_known_def hw_group_plan_def hw_group_cmds_def plan_cmds_append plan_stops_append)

text \<open>The outcome of a run that is meant to issue exactly the commands \<open>cs\<close>, in this order.\<close>

definition runs_in_order :: "string list \<Rightarrow> goerr option \<Rightarrow> event list \<Rightarrow> bool" where
  "runs_in_order cs r es \<longleftrightarrow>
     (case r of
        None \<Rightarrow> cmds es = cs \<and> list_all cmd_ok es
      | Some _ \<Rightarrow> prefix (cmds es) cs \<and> es \<noteq> [] \<and> list_all cmd_ok (butlast es) \<and> \<not> cmd_ok (last es))"

lemma plan_outcome_in_order: "plan_outcome p r es \<Longrightarrow> plan_stops p = None \<Longrightarrow> runs_in_order (plan_cmds p) r es"
  by (auto simp: plan_outcome_def runs_in_order_def)

lemma exec_plan_in_order:
  "plan_stops p = None \<Longrightarrow> trace_spec (exec_plan (Execute sh) p) (runs_in_order (plan_cmds p))"
  by (rule trace_spec_weaken [OF xapi.exec_plan_outcome]) (rule plan_outcome_in_order)

text \<open>
  For a non-empty list of PFs whose plane ids can be read, programming the hardware
  multiplane rules runs the ARP rule over all PFs, then for every PF the plane rule and the RTT
  rule, then the non-RoCE rule, in this order; it succeeds exactly when all of them succeed and
  otherwise stops at the first failing command.
\<close>

lemma hw_flows_in_order:
  assumes "planes_known fs planes"
  shows "trace_spec (AddHardwareMultiplaneFlows sh fs br cookie (map fst planes))
           (runs_in_order (hw_flow_cmds br cookie planes))"
  unfolding AddHardwareMultiplaneFlows_plan
  using exec_plan_in_order hw_flow_plan_known [OF assms] by metis

definition demo_sysfs :: sysfs where
  "demo_sysfs path = Inr \<lparr>file_content = ''p1'', file_close_err = None\<rparr>"

definition ok_shell :: "unit shell" where
  "ok_shell c w = (\<lparr>sh_out = [], sh_err = None, sh_deadline = False\<rparr>, w)"

text \<open>
  Programming the hardware multiplane groups creates the fast-failover group of every
  PF, in order, and last the group over all planes that the others fall back to, with the same
  success and failure behaviour.
\<close>

lemma hw_groups_in_order:
  assumes "planes_known fs planes"
  shows "trace_spec (AddHardwareMultiplaneGroups sh fs br (map fst planes))
           (runs_in_order (hw_group_cmds br planes))"
  unfolding AddHardwareMultiplaneGroups_plan
  using exec_plan_in_order hw_group_plan_known [OF assms] by metis

text \<open>
  \<open>AddPodRailFlows\<close> runs the ARP rule, the IP rule and the resubmit rule of the pod,
  in this order, stopping at the first failure.
\<close>

lemma pod_flows_in_order:
  "trace_spec (AddPodRailFlows sh cookie vf br ip)
     (runs_in_order (map (add_flow_cmd br)
        [pod_arp_flow cookie ip vf, pod_ip_flow cookie ip vf, pod_out_flow cookie vf]))"
proof -
  have "plan_stops (pod_flow_plan cookie vf br ip) = None"
    "plan_cmds (pod_flow_plan cookie vf br ip) =
     map (add_flow_cmd br) [pod_arp_flow cookie ip vf, pod_ip_flow cookie ip vf, pod_out_flow cookie vf]"
    by (simp_all add: pod_flow_plan_def)
  then show ?thesis
    unfolding AddPodRailFlows_plan using exec_plan_in_order by metis
qed

text \<open>
  Property C12. \<open>DeletePodRailFlows\<close> asks every bridge of \<open>ovs-vsctl list-br\<close> for the tag of the
  pod, whatever happens on the other bridges; it deletes rules, and then the tag, exactly on the
  bridges whose tag is \<open>rail_pod_id\<close>; and it returns no error exactly when every command it ran
  succeeded.
\<close>

theorem delete_pod_flows_complete:
  assumes "multierr_law app"
  shows "trace_spec (DeletePodRailFlows app sh cookie podID)
     (\<lambda>r es. (\<exists>e. es = [Cmd list_br_cmd (Inl e)] \<and> r \<noteq> None) \<or>
       (\<exists>out segs. es = Cmd list_br_cmd (Inr out) # concat segs \<and>
          list_all2 (bridge_visit podID cookie) (Split out CHR 0x0A) segs \<and>
          (r = None) = list_all cmd_ok es))"
  by (rule trace_spec_weaken [OF DeletePodRailFlows_trace [OF assms]])
    (auto simp: delete_outcome_def pass_def)

theorem delete_pod_flows_complete_witness:
  "multierr_law first_error \<and>
   trace_spec (DeletePodRailFlows first_error ok_shell 7 ''uid'')
     (\<lambda>r es. (\<exists>e. es = [Cmd list_br_cmd (Inl e)] \<and> r \<noteq> None) \<or>
       (\<exists>out segs. es = Cmd list_br_cmd (Inr out) # concat segs \<and>
          list_all2 (bridge_visit ''uid'' 7) (Split out CHR 0x0A) segs \<and>
          (r = None) = list_all cmd_ok es))"
  by (rule conjI [OF first_error_law delete_pod_flows_complete [OF first_error_law]])

text \<open>
  Property C13. \<open>CleanupStaleFlowsForBridges\<close> reads the tags of every listed bridge, whatever
  happens on the other bridges, and cleans on each bridge exactly the pods that \<open>stale_pods\<close>
  finds in its tags, one after the other; no error is returned exactly when every command
  succeeded.
\<close>

theorem cleanup_stale_complete:
  assumes "multierr_law app"
  shows "trace_spec (CleanupStaleFlowsForBridges app sh existing)
     (\<lambda>r es. (\<exists>e. es = [Cmd list_br_cmd (Inl e)] \<and> r \<noteq> None) \<or>
       (\<exists>out segs. es = Cmd list_br_cmd (Inr out) # concat segs \<and>
          list_all2 (stale_visit existing) (Split out CHR 0x0A) segs \<and>
          (r = None) = list_all cmd_ok es))"
  by (rule trace_spec_weaken [OF CleanupStaleFlows_trace [OF assms]])
    (auto simp: cleanup_outcome_def pass_def)

theorem cleanup_stale_complete_witness:
  "multierr_law first_error \<and>
   trace_spec (CleanupStaleFlowsForBridges first_error ok_shell [''uid'' \<mapsto> True])
     (\<lambda>r es. (\<exists>e. es = [Cmd list_br_cmd (Inl e)] \<and> r \<noteq> None) \<or>
       (\<exists>out segs. es = Cmd list_br_cmd (Inr out) # concat segs \<and>
          list_all2 (stale_visit [''uid'' \<mapsto> True]) (Split out CHR 0x0A) segs \<and>
          (r = None) = list_all cmd_ok es))"
  by (rule conjI [OF first_error_law cleanup_stale_complete [OF first_error_law]])

text \<open>
  The tags of a bridge as \<open>ovs-vsctl br-get-external-id\<close> prints them, one \<open>key=value\<close> per line, and
  the values the cleaner takes for a mark of the rail CNI.
\<close>

definition tag_line :: "string \<times> string \<Rightarrow> string" where
  "tag_line kv = fst kv @ CHR ''='' # snd kv"

definition print_tags :: "(string \<times> string) list \<Rightarrow> string" where
  "print_tags kvs = Join CHR 0x0A (map tag_line kvs)"

definition plain_tag :: "string \<times> string \<Rightarrow> bool" where
  "plain_tag kv \<longleftrightarrow> CHR ''='' \<notin> set (fst kv) \<and> CHR 0x0A \<notin> set (fst kv) \<and> CHR 0x0A \<notin> set (snd kv)"

definition rail_mark :: "string \<Rightarrow> bool" where
  "rail_mark v \<longleftrightarrow> take (length RailPodID) v = RailPodID \<or> Contains v (CHR ''='' # RailPodID)"

lemma Contains_key:
  "c \<notin> set k \<Longrightarrow> Contains (k @ c # v) (c # sub) \<longleftrightarrow> take (length sub) v = sub \<or> Contains v (c # sub)"
  by (induction k) auto

lemma Split_print_tags:
  assumes "kvs \<noteq> []" "\<forall>kv \<in> set kvs. plain_tag kv"
  shows "Split (print_tags kvs) CHR 0x0A = map tag_line kvs"
proof -
  have "CHR 0x0A \<notin> set l" if "l \<in> set (map tag_line kvs)" for l
    using that assms(2) by (auto simp: plain_tag_def tag_line_def)
  with assms(1) show ?thesis unfolding print_tags_def by (intro Split_Join) auto
qed

lemma stale_pods_tags:
  "\<forall>kv \<in> set kvs. plain_tag kv \<Longrightarrow>
   stale_pods existing (map tag_line kvs) =
   map (\<lambda>kv. (fst kv, GenerateUint64FromString (fst kv)))
     (filter (\<lambda>kv. rail_mark (snd kv) \<and> existing (fst kv) \<noteq> Some True) kvs)"
proof (induction kvs)
  case (Cons kv kvs)
  have eq: "CHR ''='' \<notin> set (fst kv)" using Cons.prems by (simp add: plain_tag_def)
  have "Contains (tag_line kv) (''='' @ RailPodID) = rail_mark (snd kv)"
    using Contains_key [OF eq] by (simp add: tag_line_def rail_mark_def)
  moreover have "Split (tag_line kv) CHR ''='' = fst kv # Split (snd kv) CHR ''=''"
    using Split_append_sep [OF eq] by (simp add: tag_line_def)
  moreover have "1 \<le> length (Split (snd kv) CHR ''='')"
    by (cases "Split (snd kv) CHR ''=''") auto
  ultimately show ?case
    using Cons by (simp add: Let_def)
qed simp

text \<open>
  Property C28. Printing and parsing the tags of a bridge: for keys without \<open>=\<close> and line breaks, the
  pods found stale are exactly the keys whose value is marked by the rail CNI and which are not
  among the existing pods, in the order of the output, each with its own cookie. In particular
  the rules of an existing pod are never selected.
\<close>

theorem stale_pods_print_tags:
  assumes "kvs \<noteq> []" and "\<forall>kv \<in> set kvs. plain_tag kv"
  shows "stale_pods existing (Split (print_tags kvs) CHR 0x0A) =
    map (\<lambda>kv. (fst kv, GenerateUint64FromString (fst kv)))
      (filter (\<lambda>kv. rail_mark (snd kv) \<and> existing (fst kv) \<noteq> Some True) kvs)"
  using Split_print_tags [OF assms] stale_pods_tags [OF assms(2)] by simp

theorem stale_pods_print_tags_witness:
  "stale_pods [''live'' \<mapsto> True]
     (Split (print_tags [(''gone'', RailPodID), (''live'', RailPodID), (''owner'', ''me'')]) CHR 0x0A) =
   [(''gone'', GenerateUint64FromString ''gone'')]"
  using stale_pods_print_tags [of "[(''gone'', RailPodID), (''live'', RailPodID), (''owner'', ''me'')]"
      "[''live'' \<mapsto> True]"]
  by (simp add: plain_tag_def rail_mark_def RailPodID_def)

text \<open>
  When \<open>ovs-vsctl list-br\<close> prints nothing (the node has no bridge), splitting the
  output still yields one, empty, bridge name: the next command is the query of the tag on the
  bridge with the empty name.
\<close>

lemma no_bridge_still_queried:
  assumes "multierr_law app"
  shows "trace_spec (DeletePodRailFlows app sh cookie podID)
     (\<lambda>r es. \<forall>rest. es = Cmd list_br_cmd (Inr []) # rest \<longrightarrow>
        (\<exists>a rest'. rest = Cmd (get_external_id_cmd [] podID) a # rest'))"
  by (rule trace_spec_weaken [OF DeletePodRailFlows_trace [OF assms]])
    (auto simp: delete_outcome_def pass_def list_all2_Cons1 bridge_visit_def)

end
