(* ===== verification/Flow_Controller.thy ===== *)
theory Flow_Controller
  imports Flows
begin

text \<open>
  \<^verbatim>\<open>internal/controller/flow_controller.go\<close>: the pod reconciler. It works through the interface
  \<open>FlowsAPI\<close> and the shell. \<open>unmarshal\<close> is the decoding of the network-status annotation into the
  list of \<open>NetworkStatus\<close> of the network-attachment-definition client.
\<close>

text \<open>A Go call returns or panics; \<open>ns.IPs[0]\<close> of an empty slice panics.\<close>

datatype 'a go = Returned 'a | Panicked string

record NetworkStatus =
  nstat_Interface :: string
  nstat_IPs :: "string list"
  nstat_DeviceType :: "string option"

type_synonym unmarshal = "string \<Rightarrow> NetworkStatus list result"

definition NetworkStatusAnnot :: string where
  "NetworkStatusAnnot = ''k8s.v1.cni.cncf.io/network-status''"

definition iface_rep_cmd :: "string \<Rightarrow> string \<Rightarrow> string" where
  "iface_rep_cmd iface podUID =
     ''ovs-vsctl --no-heading --columns=name find Port external_ids:contIface='' @ iface @
     '' external_ids:contPodUid='' @ podUID"

definition iface_to_br_cmd :: "string \<Rightarrow> string" where
  "iface_to_br_cmd rep = ''ovs-vsctl iface-to-br '' @ rep"

definition getIfaceRep :: "'w shell \<Rightarrow> string \<Rightarrow> string \<Rightarrow> ('w, string result) op" where
  "getIfaceRep sh iface podUID = Execute sh (iface_rep_cmd iface podUID)"

definition repToBridge :: "'w shell \<Rightarrow> string \<Rightarrow> ('w, string result) op" where
  "repToBridge sh rep = do {
     br \<leftarrow> Execute sh (iface_to_br_cmd rep);
     case br of
       Inl err \<Rightarrow> State_Monad.return (Inl err)
     | Inr b \<Rightarrow> State_Monad.return (Inr b)
   }"

text \<open>The loop of \<open>handlePodFlows\<close>; \<open>errs\<close> is the error collected so far.\<close>

fun handle_pod_flows :: "multierr_append \<Rightarrow> 'w shell \<Rightarrow> 'w FlowsAPI \<Rightarrow> 64 word \<Rightarrow> string \<Rightarrow> NetworkStatus list
    \<Rightarrow> goerr option \<Rightarrow> ('w, goerr option go) op" where
  "handle_pod_flows app sh F cookie uid [] errs = State_Monad.return (Returned errs)"
| "handle_pod_flows app sh F cookie uid (ns # nss) errs = do {
     rep \<leftarrow> getIfaceRep sh (nstat_Interface ns) uid;
     case rep of
       Inl err \<Rightarrow> handle_pod_flows app sh F cookie uid nss (app errs err)
     | Inr rep \<Rightarrow> do {
         bridge \<leftarrow> repToBridge sh rep;
         case bridge of
           Inl err \<Rightarrow> handle_pod_flows app sh F cookie uid nss (app errs err)
         | Inr bridge \<Rightarrow> do {
             isManaged \<leftarrow> api_IsBridgeManagedByRailCNI F bridge uid;
             case isManaged of
               Inl err \<Rightarrow> handle_pod_flows app sh F cookie uid nss (app errs err)
             | Inr managed \<Rightarrow>
                 if \<not> managed then handle_pod_flows app sh F cookie uid nss errs
                 else case nstat_IPs ns of
                   [] \<Rightarrow> State_Monad.return (Panicked ''index out of range [0] with length 0'')
                 | ip # _ \<Rightarrow> do {
                     e \<leftarrow> api_AddPodRailFlows F cookie rep bridge ip;
                     case e of
                       Some err \<Rightarrow> handle_pod_flows app sh F cookie uid nss (app errs err)
                     | None \<Rightarrow> handle_pod_flows app sh F cookie uid nss errs
                   }
           }
       }
   }"

definition handlePodFlows :: "multierr_append \<Rightarrow> 'w shell \<Rightarrow> 'w FlowsAPI \<Rightarrow> Pod \<Rightarrow> NetworkStatus list
    \<Rightarrow> ('w, goerr option go) op" where
  "handlePodFlows app sh F pod relevant =
     handle_pod_flows app sh F (GenerateUint64FromString (pod_UID pod)) (pod_UID pod) relevant None"

definition is_relevant :: "NetworkStatus \<Rightarrow> bool" where
  "is_relevant ns \<longleftrightarrow> nstat_DeviceType ns = Some ''pci''"

definition annotation :: "labels \<Rightarrow> string \<Rightarrow> string" where
  "annotation m k = (case m k of Some v \<Rightarrow> v | None \<Rightarrow> [])"

text \<open>The error that \<open>Reconcile\<close> returns (its \<open>Result\<close> is always empty).\<close>

definition Reconcile_pod :: "multierr_append \<Rightarrow> unmarshal \<Rightarrow> 'w shell \<Rightarrow> 'w FlowsAPI \<Rightarrow> Pod
    \<Rightarrow> ('w, goerr option go) op" where
  "Reconcile_pod app unmarshal sh F pod =
     (if pod_DeletionTimestamp pod \<noteq> None then do {
        err \<leftarrow> api_DeletePodRailFlows F (GenerateUint64FromString (pod_UID pod)) (pod_UID pod);
        State_Monad.return (Returned None)
      }
      else case pod_Annotations pod of
        None \<Rightarrow> State_Monad.return (Returned None)
      | Some annotations \<Rightarrow>
          (case unmarshal (annotation annotations NetworkStatusAnnot) of
             Inl err \<Rightarrow> State_Monad.return (Returned None)
           | Inr networkStatus \<Rightarrow>
               let relevant = filter is_relevant networkStatus in
               if relevant = [] then State_Monad.return (Returned None)
               else handlePodFlows app sh F pod relevant))"

definition isPodRelevant :: "string \<Rightarrow> Pod \<Rightarrow> bool" where
  "isPodRelevant nodeName pod =
     (if pod_NodeName pod \<noteq> nodeName then False
      else case pod_Annotations pod of
        None \<Rightarrow> False
      | Some annotations \<Rightarrow> annotations NetworkStatusAnnot \<noteq> None)"

text \<open>
  The requests made when the OVS watcher fires; \<open>list_pods\<close> is the listing of the pods whose
  \<open>spec.nodeName\<close> index is the node's.
\<close>

definition hostPodMapFunc :: "string \<Rightarrow> (string \<Rightarrow> 'w \<Rightarrow> Pod list result \<times> 'w) \<Rightarrow> ('w, nsname list) op" where
  "hostPodMapFunc nodeName list_pods = do {
     pods \<leftarrow> observe (list_pods nodeName);
     case pods of
       Inl err \<Rightarrow> State_Monad.return []
     | Inr items \<Rightarrow> State_Monad.return
         (map (\<lambda>pod. (pod_Namespace pod, pod_Name pod)) (filter (isPodRelevant nodeName) items))
   }"

section \<open>Traces\<close>

text \<open>What is done for one interface of a pod.\<close>

definition iface_visit :: "64 word \<Rightarrow> string \<Rightarrow> NetworkStatus \<Rightarrow> event list \<Rightarrow> bool" where
  "iface_visit cookie uid ns seg \<longleftrightarrow>
     (\<exists>e. seg = [Cmd (iface_rep_cmd (nstat_Interface ns) uid) (Inl e)]) \<or>
     (\<exists>rep e. seg = [Cmd (iface_rep_cmd (nstat_Interface ns) uid) (Inr rep), Cmd (iface_to_br_cmd rep) (Inl e)]) \<or>
     (\<exists>rep br a. seg = [Cmd (iface_rep_cmd (nstat_Interface ns) uid) (Inr rep),
          Cmd (iface_to_br_cmd rep) (Inr br), Cmd (get_external_id_cmd br uid) a] \<and> a \<noteq> Inr RailPodID) \<or>
     (\<exists>rep br r rest. seg = [Cmd (iface_rep_cmd (nstat_Interface ns) uid) (Inr rep),
          Cmd (iface_to_br_cmd rep) (Inr br), Cmd (get_external_id_cmd br uid) (Inr RailPodID)] @ rest \<and>
          plan_outcome (pod_flow_plan cookie rep br (hd (nstat_IPs ns))) r rest)"

definition pod_pass :: "64 word \<Rightarrow> string \<Rightarrow> NetworkStatus list \<Rightarrow> goerr option \<Rightarrow> goerr option go \<Rightarrow> event list \<Rightarrow> bool" where
  "pod_pass cookie uid nss errs r es \<longleftrightarrow>
     (\<exists>e. r = Returned e \<and> pass (iface_visit cookie uid) nss errs e es)"

lemma pod_flow_plan_stops [simp]: "plan_stops (pod_flow_plan c vf br ip) = None"
  by (simp add: pod_flow_plan_def)

lemma repToBridge_exec:
  fixes sh :: "'w shell"
  shows "repToBridge sh rep = Execute sh (iface_to_br_cmd rep)"
proof -
  have "(\<lambda>br. case br of Inl err \<Rightarrow> State_Monad.return (Inl err) | Inr b \<Rightarrow> State_Monad.return (Inr b)) =
      (State_Monad.return :: string result \<Rightarrow> ('w, string result) op)"
    by (rule ext) (simp split: sum.splits)
  then show ?thesis unfolding repToBridge_def by (simp only: bind_right_identity)
qed

lemma pod_pass_step:
  assumes "trace_spec m (pod_pass cookie uid nss errs')" "iface_visit cookie uid ns seg"
    "(errs' = None) = (errs = None \<and> list_all cmd_ok seg)"
  shows "trace_spec m (\<lambda>r es. pod_pass cookie uid (ns # nss) errs r (seg @ es))"
  using assms(1)
  by (rule trace_spec_weaken)
    (auto simp: pod_pass_def intro: pass_Cons [where V = "iface_visit cookie uid", OF assms(2) _ assms(3)])

lemmas pod_pass_step1 = pod_pass_step [where seg = "[a]" for a, unfolded append_Cons append_Nil]
lemmas pod_pass_step2 = pod_pass_step [where seg = "[a, b]" for a b, unfolded append_Cons append_Nil]
lemmas pod_pass_step3 = pod_pass_step [where seg = "[a, b, c]" for a b c, unfolded append_Cons append_Nil]
lemmas pod_pass_step4 = pod_pass_step [where seg = "a # b # c # d" for a b c d, unfolded append_Cons]

context flows_api begin

lemma handle_pod_flows_pass:
  assumes law: "multierr_law app" and ips: "\<forall>ns \<in> set nss. nstat_IPs ns \<noteq> []"
  shows "trace_spec (handle_pod_flows app sh F cookie uid nss errs) (pod_pass cookie uid nss errs)"
  using ips
proof (induction nss arbitrary: errs)
  case Nil
  show ?case by (simp add: trace_returnI pod_pass_def)
next
  case (Cons ns nss)
  then obtain ip ips where ip: "nstat_IPs ns = ip # ips" by (cases "nstat_IPs ns") auto
  have IH: "trace_spec (handle_pod_flows app sh F cookie uid nss errs') (pod_pass cookie uid nss errs')" for errs'
    using Cons by simp
  show ?case
    unfolding handle_pod_flows.simps getIfaceRep_def repToBridge_exec ip list.case
  proof (intro xapi.exec_bind trace_case_sum, goal_cases)
    case (1 rep err)
    then show ?case using law by (intro pod_pass_step1 [OF IH]) (auto simp: iface_visit_def)
  next
    case (2 rep' rep br err)
    then show ?case using law by (intro pod_pass_step2 [OF IH]) (auto simp: iface_visit_def)
  next
    case (3 rep' rep br' br)
    note cmds = 3
    show ?case
    proof (intro trace_bindI [OF managed_trace] trace_case_sum trace_if, goal_cases)
      case (1 m es err)
      then obtain e where "es = [Cmd (get_external_id_cmd br uid) (Inl e)]"
        by (auto simp: managed_answer_def)
      with cmds law show ?case
        by (simp only: append_Cons append_Nil) (intro pod_pass_step3 [OF IH], auto simp: iface_visit_def)
    next
      case (2 m es managed)
      then obtain v where "es = [Cmd (get_external_id_cmd br uid) (Inr v)]" "v \<noteq> RailPodID"
        by (auto simp: managed_answer_def)
      with cmds show ?case
        by (simp only: append_Cons append_Nil) (intro pod_pass_step3 [OF IH], auto simp: iface_visit_def)
    next
      case (3 m es managed)
      then have es: "es = [Cmd (get_external_id_cmd br uid) (Inr RailPodID)]"
        by (auto simp: managed_answer_def)
      show ?case
        unfolding es append_Cons append_Nil cmds
      proof (intro trace_bindI [OF add_pod_trace] trace_case_option, goal_cases)
        case (1 e seg)
        with ip plan_outcome_ok_iff [OF 1(1)] show ?case
          by (intro pod_pass_step4 [OF IH]) (auto simp: iface_visit_def)
      next
        case (2 e seg err)
        with ip law plan_outcome_ok_iff [OF 2(1)] show ?case
          by (intro pod_pass_step4 [OF IH]) (auto simp: iface_visit_def)
      qed
    qed
  qed
qed

end

section \<open>Properties\<close>

text \<open>
  Property C21. For pods whose PCI interfaces all have an address, \<open>handlePodFlows\<close> treats every
  interface, whatever happens to the others: it resolves the representor and its bridge, and adds
  the rules of the pod exactly on the bridges tagged with \<open>rail_pod_id\<close> for this pod, with the
  pod's cookie, the representor and the first address. No error is returned exactly when every
  command succeeded.
\<close>

theorem handlePodFlows_complete:
  assumes "multierr_law app" and "\<forall>ns \<in> set nss. nstat_IPs ns \<noteq> []"
  shows "trace_spec (handlePodFlows app sh (NewFlows app fs sh) pod nss)
     (\<lambda>r es. \<exists>err segs. r = Returned err \<and> es = concat segs \<and>
        list_all2 (iface_visit (GenerateUint64FromString (pod_UID pod)) (pod_UID pod)) nss segs \<and>
        (err = None) = list_all cmd_ok es)"
  unfolding handlePodFlows_def
  by (rule trace_spec_weaken
      [OF flows_api.handle_pod_flows_pass [OF NewFlows_api [OF assms(1)] assms(1) assms(2)]])
    (auto simp: pod_pass_def pass_def)

definition demo_pod :: Pod where
  "demo_pod = \<lparr>pod_Name = ''p'', pod_Namespace = ''ns'', pod_UID = ''uid'', pod_NodeName = ''node'',
     pod_DeletionTimestamp = None, pod_Annotations = Some [NetworkStatusAnnot \<mapsto> ''json''],
     pod_OwnerReferences = []\<rparr>"

definition demo_net :: "string list \<Rightarrow> NetworkStatus" where
  "demo_net ips = \<lparr>nstat_Interface = ''net1'', nstat_IPs = ips, nstat_DeviceType = Some ''pci''\<rparr>"

theorem handlePodFlows_complete_witness:
  "multierr_law first_error \<and>
   trace_spec (handlePodFlows first_error ok_shell (NewFlows first_error demo_sysfs ok_shell) demo_pod [demo_net [''10.0.0.1'']])
     (\<lambda>r es. \<exists>err segs. r = Returned err \<and> es = concat segs \<and>
        list_all2 (iface_visit (GenerateUint64FromString (pod_UID demo_pod)) (pod_UID demo_pod))
          [demo_net [''10.0.0.1'']] segs \<and>
        (err = None) = list_all cmd_ok es)"
proof
  have "\<forall>ns \<in> set [demo_net [''10.0.0.1'']]. nstat_IPs ns \<noteq> []" by (simp add: demo_net_def)
  from handlePodFlows_complete [OF first_error_law this]
  show "trace_spec (handlePodFlows first_error ok_shell (NewFlows first_error demo_sysfs ok_shell) demo_pod [demo_net [''10.0.0.1'']])
     (\<lambda>r es. \<exists>err segs. r = Returned err \<and> es = concat segs \<and>
        list_all2 (iface_visit (GenerateUint64FromString (pod_UID demo_pod)) (pod_UID demo_pod))
          [demo_net [''10.0.0.1'']] segs \<and>
        (err = None) = list_all cmd_ok es)" .
qed simp

text \<open>
  A pod that is being deleted is handled by deleting its rules by its own cookie and
  UID on all bridges tagged for it, and the reconciliation reports success even when that failed
  (the stale-flow cleaner is the one that retries).
\<close>

lemma Reconcile_pod_deleted:
  assumes "multierr_law app" and "pod_DeletionTimestamp pod \<noteq> None"
  shows "trace_spec (Reconcile_pod app unmarshal sh (NewFlows app fs sh) pod)
    (\<lambda>r es. r = Returned None \<and>
       (\<exists>d. delete_outcome (GenerateUint64FromString (pod_UID pod)) (pod_UID pod) d es))"
  unfolding Reconcile_pod_def if_P [OF assms(2)]
  by (rule trace_bindI [OF flows_api.delete_pod_trace [OF NewFlows_api [OF assms(1)]]])
    (rule trace_returnI, auto)

definition nothing_to_do :: "unmarshal \<Rightarrow> Pod \<Rightarrow> bool" where
  "nothing_to_do unmarshal pod =
     (case pod_Annotations pod of
        None \<Rightarrow> True
      | Some a \<Rightarrow> (case unmarshal (annotation a NetworkStatusAnnot) of
                      Inl _ \<Rightarrow> True
                    | Inr nss \<Rightarrow> list_all (\<lambda>ns. nstat_DeviceType ns \<noteq> Some ''pci'') nss))"

text \<open>
  A pod that is not being deleted and has no annotations, an annotation that cannot be
  decoded, or no PCI interface is left alone: success, and no command is run.
\<close>

lemma Reconcile_pod_ignored:
  assumes "pod_DeletionTimestamp pod = None" and "nothing_to_do unmarshal pod"
  shows "run_state (Reconcile_pod app unmarshal sh F pod) s = (Returned None, s)"
proof -
  have filt: "filter is_relevant nss = [] \<longleftrightarrow> list_all (\<lambda>ns. nstat_DeviceType ns \<noteq> Some ''pci'') nss" for nss
    by (induction nss) (auto simp: is_relevant_def)
  show ?thesis
    using assms by (auto simp: Reconcile_pod_def nothing_to_do_def filt Let_def split: option.splits sum.splits)
qed

text \<open>
  Property C38. A PCI interface without any address on a bridge managed by the rail CNI makes the
  reconciliation panic on \<open>ns.IPs[0]\<close>: whenever the three queries of the first interface succeed and
  the tag is \<open>rail_pod_id\<close>, the call does not return.
\<close>

theorem handlePodFlows_panics_without_ip:
  assumes "nstat_IPs ns = []"
    and "run_state (Execute sh (iface_rep_cmd (nstat_Interface ns) (pod_UID pod))) s = (Inr rep, s1)"
    and "run_state (Execute sh (iface_to_br_cmd rep)) s1 = (Inr br, s2)"
    and "run_state (Execute sh (get_external_id_cmd br (pod_UID pod))) s2 = (Inr RailPodID, s3)"
  shows "\<exists>m. run_state (handlePodFlows app sh (NewFlows app fs sh) pod (ns # nss)) s = (Panicked m, s3)"
  using assms
  by (simp add: handlePodFlows_def getIfaceRep_def repToBridge_exec NewFlows_def IsBridgeManagedByRailCNI_def)

definition managed_shell :: "unit shell" where
  "managed_shell c w = (\<lparr>sh_out = RailPodID, sh_err = None, sh_deadline = False\<rparr>, w)"

theorem handlePodFlows_panics_without_ip_witness:
  "\<exists>m s'. run_state (handlePodFlows first_error managed_shell
     (NewFlows first_error demo_sysfs managed_shell) demo_pod [demo_net []]) \<lparr>events = [], env = ()\<rparr> = (Panicked m, s')"
proof -
  have run: "run_state (Execute managed_shell c) s =
      (Inr RailPodID, s\<lparr>events := events s @ [Cmd c (Inr RailPodID)]\<rparr>)" for c s
    by (simp add: Execute_def managed_shell_def Let_def RailPodID_def TrimSuffix_def newline_def)
  have "nstat_IPs (demo_net []) = []" by (simp add: demo_net_def)
  from handlePodFlows_panics_without_ip [OF this run run run] show ?thesis by blast
qed

end
