(* ===== verification/Safe_Start.thy ===== *)
theory Safe_Start
  imports World
begin

text \<open>
  \<^verbatim>\<open>internal/ovssafestart\<close>: installation of the OVS safe-start script and of its systemd
  drop-in. The operations of package \<open>os\<close> are the record \<open>'w Os\<close>; what the code relies on is
  the interface \<open>file_system\<close>, read through a \<open>view\<close> of the files on disk. \<open>disk_os\<close> is a
  file system with a set of broken paths, on which the interface is interpreted.
  The two embedded files are the arguments \<open>scriptContent\<close> and \<open>dropInContent\<close>.
\<close>

record 'w Os =
  os_do :: "file_op \<Rightarrow> 'w \<Rightarrow> goerr option \<times> 'w"
  os_ReadFile :: "string \<Rightarrow> 'w \<Rightarrow> string result \<times> 'w"

definition do_file :: "'w Os \<Rightarrow> file_op \<Rightarrow> ('w, goerr option) op" where
  "do_file os f = perform (File f) (os_do os f)"

definition ENOENT :: string where "ENOENT = ''ENOENT''"

text \<open>\<open>os.IsNotExist\<close> looks at the error itself, not at what it wraps.\<close>

fun os_IsNotExist :: "goerr \<Rightarrow> bool" where
  "os_IsNotExist (External k m) = (k = ENOENT)"
| "os_IsNotExist e = False"

definition HostScriptPath :: string where
  "HostScriptPath = ''/var/lib/spectrum-x/xplane-ovs-safe-start.sh''"

definition HostDropInPath :: string where
  "HostDropInPath = ''/etc/systemd/system/ovs-vswitchd.service.d/20-xplane-safe-start.conf''"

definition resolveHostPath :: "string \<Rightarrow> string \<Rightarrow> string" where
  "resolveHostPath hostRoot absPath =
     (if hostRoot = [] then absPath
      else filepath_Join [hostRoot, TrimPrefix absPath ''/''])"

text \<open>The name the content is written to before it replaces the file.\<close>

definition tmp_path :: "string \<Rightarrow> string" where
  "tmp_path path = path @ ''.tmp''"

text \<open>
  Writing the new content and moving it over the file. File modes are written in octal in the
  source: 0o750 is 488, 0o755 is 493 and 0o644 is 420.
\<close>

definition replace_file :: "'w Os \<Rightarrow> string \<Rightarrow> string \<Rightarrow> nat \<Rightarrow> ('w, goerr option) op" where
  "replace_file os path content mode = do {
     err \<leftarrow> do_file os (WriteFile (tmp_path path) content mode);
     case err of
       Some e \<Rightarrow> State_Monad.return (Some e)
     | None \<Rightarrow> do {
         err \<leftarrow> do_file os (Rename (tmp_path path) path);
         case err of
           Some e \<Rightarrow> do {
             _ \<leftarrow> do_file os (Remove (tmp_path path));
             State_Monad.return (Some e)
           }
         | None \<Rightarrow> State_Monad.return None
       }
   }"

definition writeFileIfChanged :: "'w Os \<Rightarrow> string \<Rightarrow> string \<Rightarrow> nat \<Rightarrow> ('w, goerr option) op" where
  "writeFileIfChanged os path content mode = do {
     err \<leftarrow> do_file os (MkdirAll (filepath_Dir path) 488);
     case err of
       Some e \<Rightarrow> State_Monad.return (Some e)
     | None \<Rightarrow> do {
         existing \<leftarrow> observe (os_ReadFile os path);
         case existing of
           Inr old \<Rightarrow>
             if old = content then State_Monad.return None
             else replace_file os path content mode
         | Inl e \<Rightarrow>
             if \<not> os_IsNotExist e then State_Monad.return (Some e)
             else replace_file os path content mode
       }
   }"

definition EnsureInstalled :: "'w Os \<Rightarrow> string \<Rightarrow> string \<Rightarrow> string \<Rightarrow> ('w, goerr option) op" where
  "EnsureInstalled os scriptContent dropInContent hostRoot = do {
     err \<leftarrow> writeFileIfChanged os (resolveHostPath hostRoot HostScriptPath) scriptContent 493;
     case err of
       Some e \<Rightarrow> State_Monad.return (Some (WrapError ''failed to install safe-start script: '' e []))
     | None \<Rightarrow> do {
         err \<leftarrow> writeFileIfChanged os (resolveHostPath hostRoot HostDropInPath) dropInContent 420;
         case err of
           Some e \<Rightarrow> State_Monad.return (Some (WrapError ''failed to install safe-start drop-in: '' e []))
         | None \<Rightarrow> State_Monad.return None
       }
   }"

text \<open>What every outcome of a write leaves at the path, and that it leaves other files alone.\<close>

definition replaced :: "('w \<Rightarrow> string \<Rightarrow> string option) \<Rightarrow> string \<Rightarrow> string \<Rightarrow> 'w \<Rightarrow> goerr option \<Rightarrow> 'w \<Rightarrow> bool" where
  "replaced view path content w r w' \<longleftrightarrow>
     (r = None \<longrightarrow> view w' path = Some content) \<and>
     view w' path \<in> {view w path, Some content} \<and>
     (\<forall>q. q \<noteq> path \<and> q \<noteq> tmp_path path \<longrightarrow> view w' q = view w q)"

fun is_mkdir :: "event \<Rightarrow> bool" where
  "is_mkdir (File (MkdirAll p m) r) = True"
| "is_mkdir _ = False"

section \<open>The interface of the file system\<close>

text \<open>
  What POSIX and package \<open>os\<close> promise, as far as the installer relies on it: a read tells the
  truth, a successful write stores the content, a failed write touches no other file, and
  \<open>rename\<close> replaces its target as a whole or not at all.
\<close>

locale file_system =
  fixes os :: "'w Os"
    and view :: "'w \<Rightarrow> string \<Rightarrow> string option"
  assumes mkdir_view: "view (snd (os_do os (MkdirAll p m) w)) = view w"
    and read_view: "view (snd (os_ReadFile os p w)) = view w"
    and read_found: "fst (os_ReadFile os p w) = Inr c \<Longrightarrow> view w p = Some c"
    and read_missing: "fst (os_ReadFile os p w) = Inl e \<Longrightarrow> os_IsNotExist e \<Longrightarrow> view w p = None"
    and write_ok: "fst (os_do os (WriteFile p c m) w) = None \<Longrightarrow>
      view (snd (os_do os (WriteFile p c m) w)) = (view w)(p \<mapsto> c)"
    and write_frame: "q \<noteq> p \<Longrightarrow> view (snd (os_do os (WriteFile p c m) w)) q = view w q"
    and rename_ok: "p \<noteq> q \<Longrightarrow> fst (os_do os (Rename p q) w) = None \<Longrightarrow>
      view (snd (os_do os (Rename p q) w)) = (view w)(q := view w p, p := None)"
    and rename_failed: "fst (os_do os (Rename p q) w) = Some e \<Longrightarrow>
      view (snd (os_do os (Rename p q) w)) = view w"
    and remove_frame: "q \<noteq> p \<Longrightarrow> view (snd (os_do os (Remove p) w)) q = view w q"
begin

lemma replace_file_view:
  assumes run: "run_state (replace_file os path content mode) s = (r, s')"
  shows "replaced view path content (env s) r (env s')"
proof -
  have ne: "tmp_path path \<noteq> path" "path \<noteq> tmp_path path" by (simp_all add: tmp_path_def)
  obtain e1 w1 where 1: "os_do os (WriteFile (tmp_path path) content mode) (env s) = (e1, w1)" by fastforce
  obtain e2 w2 where 2: "os_do os (Rename (tmp_path path) path) w1 = (e2, w2)" by fastforce
  obtain e3 w3 where 3: "os_do os (Remove (tmp_path path)) w2 = (e3, w3)" by fastforce
  have frame1: "view w1 q = view (env s) q" if "q \<noteq> tmp_path path" for q
    using write_frame [OF that, of content mode "env s"] 1 by simp
  have frame3: "view w3 q = view w2 q" if "q \<noteq> tmp_path path" for q
    using remove_frame [OF that, of w2] 3 by simp
  note run' = run [unfolded replace_file_def do_file_def]
  show ?thesis
  proof (cases e1)
    case None
    then have w1: "view w1 = (view (env s))(tmp_path path \<mapsto> content)"
      using write_ok [of "tmp_path path" content mode "env s"] 1 by simp
    show ?thesis
    proof (cases e2)
      case None
      then have "view w2 = (view w1)(path := view w1 (tmp_path path), tmp_path path := None)"
        using rename_ok [OF ne(1), of w1] 2 by simp
      with None \<open>e1 = None\<close> w1 run' 1 2 ne show ?thesis by (auto simp: replaced_def)
    next
      case (Some e)
      then have "view w2 = view w1" using rename_failed [of "tmp_path path" path w1 e] 2 by simp
      with Some \<open>e1 = None\<close> run' 1 2 3 ne frame1 frame3 show ?thesis by (auto simp: replaced_def)
    qed
  next
    case (Some e)
    with run' 1 frame1 ne show ?thesis by (auto simp: replaced_def)
  qed
qed

lemma writeFileIfChanged_view:
  assumes "run_state (writeFileIfChanged os path content mode) s = (r, s')"
  shows "replaced view path content (env s) r (env s')"
  using assms
  by (auto simp: writeFileIfChanged_def do_file_def replaced_def mkdir_view read_view
      split: option.splits sum.splits if_splits dest!: read_found replace_file_view)

text \<open>A file that already has the content is not written again.\<close>

lemma writeFileIfChanged_same:
  assumes "view (env s) path = Some content"
    and "run_state (writeFileIfChanged os path content mode) s = (r, s')"
  shows "view (env s') = view (env s) \<and> (\<exists>e. events s' = events s @ [e] \<and> is_mkdir e)"
proof -
  obtain e1 w1 where 1: "os_do os (MkdirAll (filepath_Dir path) 488) (env s) = (e1, w1)" by fastforce
  obtain e2 w2 where 2: "os_ReadFile os path w1 = (e2, w2)" by fastforce
  have w1: "view w1 = view (env s)" using mkdir_view [of "filepath_Dir path" 488 "env s"] 1 by simp
  have w2: "view w2 = view w1" using read_view [of path w1] 2 by simp
  have "e2 = Inr content \<or> (\<exists>e. e2 = Inl e \<and> \<not> os_IsNotExist e)"
    using read_found [of path w1] read_missing [of path w1] 2 w1 assms(1) by (cases e2) auto
  with assms(2) 1 2 w1 w2 show ?thesis
    by (auto simp: writeFileIfChanged_def do_file_def split: option.splits)
qed

end

subsection \<open>A disk\<close>

record disk =
  files :: "string \<Rightarrow> string option"
  broken :: "string \<Rightarrow> bool"

definition EIO :: "string \<Rightarrow> goerr" where "EIO p = External ''EIO'' p"

fun disk_do :: "file_op \<Rightarrow> disk \<Rightarrow> goerr option \<times> disk" where
  "disk_do (MkdirAll p m) d = (if broken d p then Some (EIO p) else None, d)"
| "disk_do (WriteFile p c m) d =
     (if broken d p then (Some (EIO p), d) else (None, d\<lparr>files := (files d)(p \<mapsto> c)\<rparr>))"
| "disk_do (Rename p q) d =
     (if broken d p \<or> broken d q then (Some (EIO p), d)
      else case files d p of
        None \<Rightarrow> (Some (External ENOENT p), d)
      | Some c \<Rightarrow> (None, d\<lparr>files := (files d)(p := None, q \<mapsto> c)\<rparr>))"
| "disk_do (Remove p) d =
     (if broken d p then (Some (EIO p), d)
      else case files d p of
        None \<Rightarrow> (Some (External ENOENT p), d)
      | Some c \<Rightarrow> (None, d\<lparr>files := (files d)(p := None)\<rparr>))"

definition disk_read :: "string \<Rightarrow> disk \<Rightarrow> string result \<times> disk" where
  "disk_read p d =
     (if broken d p then Inl (EIO p)
      else case files d p of None \<Rightarrow> Inl (External ENOENT p) | Some c \<Rightarrow> Inr c, d)"

definition disk_os :: "disk Os" where
  "disk_os = \<lparr>os_do = disk_do, os_ReadFile = disk_read\<rparr>"

interpretation diskfs: file_system disk_os files
  by unfold_locales
    (auto simp: disk_os_def disk_read_def EIO_def ENOENT_def fun_eq_iff split: if_splits option.splits)

section \<open>Paths\<close>

lemma resolveHostPath_last:
  "last (resolveHostPath r HostScriptPath) = CHR ''h''" "last (resolveHostPath r HostDropInPath) = CHR ''f''"
proof -
  have "last (Clean (r @ CHR ''/'' # ''var/lib/spectrum-x/xplane-ovs-safe-start.sh'')) = CHR ''h''"
    using Clean_last [of "''xplane-ovs-safe-start.sh''" "r @ ''/var/lib/spectrum-x''"] by simp
  then show "last (resolveHostPath r HostScriptPath) = CHR ''h''"
    by (simp add: resolveHostPath_def HostScriptPath_def filepath_Join_def TrimPrefix_def)
  have "last (Clean (r @ CHR ''/'' # ''etc/systemd/system/ovs-vswitchd.service.d/20-xplane-safe-start.conf'')) = CHR ''f''"
    using Clean_last [of "''20-xplane-safe-start.conf''" "r @ ''/etc/systemd/system/ovs-vswitchd.service.d''"]
    by simp
  then show "last (resolveHostPath r HostDropInPath) = CHR ''f''"
    by (simp add: resolveHostPath_def HostDropInPath_def filepath_Join_def TrimPrefix_def)
qed

lemma tmp_path_last: "last (tmp_path p) = CHR ''p''"
  by (simp add: tmp_path_def)

text \<open>The two files and their temporary names are four different paths.\<close>

lemma install_paths_distinct:
  assumes "p = resolveHostPath r HostScriptPath" "q = resolveHostPath r HostDropInPath"
  shows "p \<noteq> q \<and> p \<noteq> tmp_path p \<and> p \<noteq> tmp_path q \<and> q \<noteq> tmp_path p \<and> q \<noteq> tmp_path q"
  using resolveHostPath_last [of r] tmp_path_last [of p] tmp_path_last [of q] unfolding assms [symmetric]
  by auto

lemma EnsureInstalled_view:
  assumes "file_system os view"
    and "run_state (EnsureInstalled os scriptContent dropInContent root) s = (r, s')"
    and "p = resolveHostPath root HostScriptPath" "q = resolveHostPath root HostDropInPath"
  shows "(r = None \<longrightarrow> view (env s') p = Some scriptContent \<and> view (env s') q = Some dropInContent) \<and>
    view (env s') p \<in> {view (env s) p, Some scriptContent} \<and>
    view (env s') q \<in> {view (env s) q, Some dropInContent} \<and>
    (\<forall>x. x \<notin> {p, tmp_path p, q, tmp_path q} \<longrightarrow> view (env s') x = view (env s) x)"
proof -
  obtain e1 s1 where 1: "run_state (writeFileIfChanged os p scriptContent 493) s = (e1, s1)" by fastforce
  obtain e2 s2 where 2: "run_state (writeFileIfChanged os q dropInContent 420) s1 = (e2, s2)" by fastforce
  note d = install_paths_distinct [OF assms(3,4)]
  have r1: "replaced view p scriptContent (env s) e1 (env s1)"
    and r2: "replaced view q dropInContent (env s1) e2 (env s2)"
    using file_system.writeFileIfChanged_view [OF assms(1)] 1 2 by blast+
  show ?thesis
  proof (cases e1)
    case None
    with assms(2) 1 2 have "env s' = env s2" "(r = None) = (e2 = None)"
      by (auto simp: EnsureInstalled_def assms(3,4) [symmetric] split: option.splits)
    with None r1 r2 d show ?thesis by (auto simp: replaced_def)
  next
    case (Some e)
    with assms(2) 1 have "env s' = env s1" "r \<noteq> None"
      by (auto simp: EnsureInstalled_def assms(3,4) [symmetric])
    with r1 d show ?thesis by (auto simp: replaced_def)
  qed
qed

text \<open>An empty disk, as the start of an installation.\<close>

definition empty_disk :: "disk world" where
  "empty_disk = \<lparr>events = [], env = \<lparr>files = Map.empty, broken = (\<lambda>_. False)\<rparr>\<rparr>"

lemma install_on_empty_disk: "fst (run_state (EnsureInstalled disk_os ''a'' ''b'' []) empty_disk) = None"
  by (simp add: EnsureInstalled_def writeFileIfChanged_def replace_file_def do_file_def disk_os_def disk_read_def
      empty_disk_def ENOENT_def tmp_path_def resolveHostPath_def HostScriptPath_def HostDropInPath_def)

section \<open>Properties\<close>

text \<open>
  Property C20. On any file system that keeps the promises of \<open>file_system\<close>, \<open>EnsureInstalled\<close>
  leaves each of the two files either as it was or with its complete new content, never in
  between; when it reports success both have the new content; and no file but these two and
  their temporary names is changed.
\<close>

theorem EnsureInstalled_atomic:
  assumes "file_system os view"
    and "run_state (EnsureInstalled os scriptContent dropInContent root) s = (r, s')"
    and "p = resolveHostPath root HostScriptPath" "q = resolveHostPath root HostDropInPath"
  shows "(r = None \<longrightarrow> view (env s') p = Some scriptContent \<and> view (env s') q = Some dropInContent) \<and>
    view (env s') p \<in> {view (env s) p, Some scriptContent} \<and>
    view (env s') q \<in> {view (env s) q, Some dropInContent} \<and>
    (\<forall>x. x \<notin> {p, tmp_path p, q, tmp_path q} \<longrightarrow> view (env s') x = view (env s) x)"
  by (rule EnsureInstalled_view [OF assms])

theorem EnsureInstalled_atomic_witness:
  "let run = run_state (EnsureInstalled disk_os ''a'' ''b'' []) empty_disk in
   fst run = None \<and> files (env (snd run)) HostScriptPath = Some ''a'' \<and> files (env (snd run)) HostDropInPath = Some ''b''"
  using EnsureInstalled_atomic [OF diskfs.file_system_axioms prod.collapse [symmetric] refl refl,
      of "''a''" "''b''" "[]" empty_disk] install_on_empty_disk
  by (simp add: Let_def resolveHostPath_def)

text \<open>
  Once \<open>EnsureInstalled\<close> has reported success, calling it again writes nothing: all
  it does to the disk is to ask for the directories, and the files stay as they are.
\<close>

lemma EnsureInstalled_idempotent:
  assumes "file_system os view"
    and "run_state (EnsureInstalled os scriptContent dropInContent root) s = (None, s1)"
    and "run_state (EnsureInstalled os scriptContent dropInContent root) s1 = (r, s2)"
  shows "view (env s2) = view (env s1) \<and> (\<exists>es. events s2 = events s1 @ es \<and> list_all is_mkdir es)"
proof -
  define p q where pq: "p = resolveHostPath root HostScriptPath" "q = resolveHostPath root HostDropInPath"
  have have_files: "view (env s1) p = Some scriptContent" "view (env s1) q = Some dropInContent"
    using EnsureInstalled_view [OF assms(1,2) pq] by simp_all
  obtain e1 t where 1: "run_state (writeFileIfChanged os p scriptContent 493) s1 = (e1, t)" by fastforce
  obtain e2 u where 2: "run_state (writeFileIfChanged os q dropInContent 420) t = (e2, u)" by fastforce
  from file_system.writeFileIfChanged_same [OF assms(1) have_files(1) 1]
  obtain a where a: "view (env t) = view (env s1)" "events t = events s1 @ [a]" "is_mkdir a" by blast
  with file_system.writeFileIfChanged_same [OF assms(1) _ 2] have_files(2)
  obtain b where "view (env u) = view (env t)" "events u = events t @ [b]" "is_mkdir b" by auto
  with a assms(3) 1 2 show ?thesis
    by (auto simp: EnsureInstalled_def pq [symmetric] split: option.splits)
qed

end
