(* ===== verification/Cluster.thy ===== *)
theory Cluster
  imports Exec_Api Safe_Start
begin

text \<open>
  The Kubernetes side of the operator: the API client and the functions of the Kubernetes and
  SR-IOV libraries that the reconciler calls. None of that code is in the repository, so it is a
  pair of records of functions that every definition takes as an argument, and what is documented
  of a function and used by a theorem is a named law. \<open>'w HostReconciler\<close> is the reconciler's struct.
\<close>

section \<open>The API client\<close>

text \<open>
  Reads give a result and may see another state of the outside. \<open>get_CIDRPool\<close> is the read of a
  CIDR pool together with the lookup of \<open>spec.cidr\<close> in it. A write is one \<open>api_write\<close>;
  the status patch takes the object it is based on and gives back the object as the server holds it.
\<close>

record 'w Client =
  get_Node :: "string \<Rightarrow> 'w \<Rightarrow> Node result \<times> 'w"
  get_RailPoolConfig :: "nsname \<Rightarrow> 'w \<Rightarrow> SpectrumXRailPoolConfig result \<times> 'w"
  get_SriovNodeState :: "nsname \<Rightarrow> 'w \<Rightarrow> SriovNetworkNodeState result \<times> 'w"
  get_NodePolicy :: "nsname \<Rightarrow> 'w \<Rightarrow> SriovNetworkNodePolicy result \<times> 'w"
  get_CIDRPool :: "nsname \<Rightarrow> 'w \<Rightarrow> nested_string result \<times> 'w"
  get_Pod :: "nsname \<Rightarrow> 'w \<Rightarrow> Pod result \<times> 'w"
  get_DaemonSet :: "nsname \<Rightarrow> 'w \<Rightarrow> DaemonSet result \<times> 'w"
  list_Nodes :: "labels \<Rightarrow> 'w \<Rightarrow> Node list result \<times> 'w"
  list_NodePolicies :: "string \<Rightarrow> labels \<Rightarrow> 'w \<Rightarrow> SriovNetworkNodePolicy list result \<times> 'w"
  list_RailPoolConfigs :: "string option \<Rightarrow> 'w \<Rightarrow> SpectrumXRailPoolConfig list result \<times> 'w"
  list_Pods :: "'w \<Rightarrow> Pod list result \<times> 'w"
  api_do :: "api_write \<Rightarrow> 'w \<Rightarrow> goerr option \<times> 'w"
  patch_status :: "SpectrumXRailPoolConfig \<Rightarrow> SpectrumXRailPoolConfig \<Rightarrow> 'w \<Rightarrow> SpectrumXRailPoolConfig result \<times> 'w"

definition api_call :: "'w Client \<Rightarrow> api_write \<Rightarrow> ('w, goerr option) op" where
  "api_call c a = perform (Api a) (api_do c a)"

definition error_of :: "'a result \<Rightarrow> goerr option" where
  "error_of r = (case r of Inl e \<Rightarrow> Some e | Inr _ \<Rightarrow> None)"

definition status_call :: "'w Client \<Rightarrow> SpectrumXRailPoolConfig \<Rightarrow> SpectrumXRailPoolConfig
    \<Rightarrow> ('w, SpectrumXRailPoolConfig result) op" where
  "status_call c base updated = perform (\<lambda>r. Api (PatchStatus updated) (error_of r)) (patch_status c base updated)"

section \<open>Library functions\<close>

text \<open>What \<open>render.RenderDir\<close> is given.\<close>

record RenderData =
  rd_Namespace :: string
  rd_ImagePullSecrets :: "string list"
  rd_Image :: string

type_synonym 'w retried = "SpectrumXRailPoolConfig \<Rightarrow> ('w, goerr option \<times> SpectrumXRailPoolConfig) op"

record 'w Lib =
  IsNotFound :: "goerr \<Rightarrow> bool"
  IsConflict :: "goerr \<Rightarrow> bool"
  NewConflict :: "string \<Rightarrow> goerr \<Rightarrow> goerr"
  RetryOnConflict :: "'w retried \<Rightarrow> 'w retried"
  labels_Matches :: "labels \<Rightarrow> labels \<Rightarrow> bool"
  ContainsFinalizer :: "SpectrumXRailPoolConfig \<Rightarrow> string \<Rightarrow> bool"
  AddFinalizer :: "SpectrumXRailPoolConfig \<Rightarrow> string \<Rightarrow> SpectrumXRailPoolConfig"
  RemoveFinalizer :: "SpectrumXRailPoolConfig \<Rightarrow> string \<Rightarrow> SpectrumXRailPoolConfig"
  GVK_String :: "string \<Rightarrow> string"
  ObjectKey_String :: "nsname \<Rightarrow> string"
  GetControllerOf :: "Pod \<Rightarrow> OwnerReference option"
  SetControllerReference_obj :: "SpectrumXRailPoolConfig \<Rightarrow> Unstructured \<Rightarrow> Unstructured result"
  SetControllerReference_ds :: "SpectrumXRailPoolConfig \<Rightarrow> DaemonSet \<Rightarrow> DaemonSet result"
  Convert_obj_ds :: "Unstructured \<Rightarrow> DaemonSet result"
  kscheme_obj_ds :: "Unstructured \<Rightarrow> DaemonSet result"
  kscheme_ds_obj :: "DaemonSet \<Rightarrow> Unstructured result"
  DeepEqual_owners :: "OwnerReference list \<Rightarrow> OwnerReference list \<Rightarrow> bool"
  DeepEqual_tolerations :: "Toleration list \<Rightarrow> Toleration list \<Rightarrow> bool"
  DeepDerivative_spec :: "DaemonSet \<Rightarrow> DaemonSet \<Rightarrow> bool"
  RenderDir :: "string \<Rightarrow> RenderData \<Rightarrow> 'w \<Rightarrow> Unstructured list result \<times> 'w"

text \<open>\<open>client.IgnoreNotFound(err) != nil\<close>.\<close>

definition relevant_error :: "'w Lib \<Rightarrow> goerr option \<Rightarrow> goerr option" where
  "relevant_error lib err = (case err of None \<Rightarrow> None | Some e \<Rightarrow> if IsNotFound lib e then None else Some e)"

subsection \<open>Laws\<close>

text \<open>
  \<open>retry.RetryOnConflict\<close> runs the function, and again as long as it returns a conflict and the
  back-off has steps left; it returns what the last run returned. \<open>n\<close> is the number of
  repetitions the back-off allows.
\<close>

fun retry_loop :: "(goerr \<Rightarrow> bool) \<Rightarrow> nat \<Rightarrow> 'w retried \<Rightarrow> 'w retried" where
  "retry_loop conflict 0 fn x = fn x"
| "retry_loop conflict (Suc n) fn x = do {
     r \<leftarrow> fn x;
     case r of (err, y) \<Rightarrow>
       (case err of
          Some e \<Rightarrow> if conflict e then retry_loop conflict n fn y else State_Monad.return (err, y)
        | None \<Rightarrow> State_Monad.return (err, y))
   }"

definition retry_law :: "'w Lib \<Rightarrow> bool" where
  "retry_law lib \<longleftrightarrow> (\<exists>n. \<forall>fn. RetryOnConflict lib fn = retry_loop (IsConflict lib) n fn)"

text \<open>The error tests of \<open>apierrors\<close> look through \<open>%w\<close>, and do not answer yes to a timeout.\<close>

definition errors_law :: "'w Lib \<Rightarrow> bool" where
  "errors_law lib \<longleftrightarrow>
     (\<forall>p e s. IsNotFound lib (WrapError p e s) = IsNotFound lib e) \<and>
     (\<forall>p e s. IsConflict lib (WrapError p e s) = IsConflict lib e) \<and>
     (\<forall>n e. IsConflict lib (NewConflict lib n e)) \<and>
     (\<forall>m. \<not> IsNotFound lib (ErrorString m)) \<and> \<not> IsNotFound lib ErrTimeout"

text \<open>A set of labels as a selector asks for each of its pairs.\<close>

definition labels_law :: "'w Lib \<Rightarrow> bool" where
  "labels_law lib \<longleftrightarrow> (\<forall>sel l. labels_Matches lib sel l = (sel \<subseteq>\<^sub>m l))"

definition finalizer_law :: "'w Lib \<Rightarrow> bool" where
  "finalizer_law lib \<longleftrightarrow>
     (\<forall>o1 f. ContainsFinalizer lib o1 f = (f \<in> set (Finalizers o1))) \<and>
     (\<forall>o1 f. AddFinalizer lib o1 f =
        (if f \<in> set (Finalizers o1) then o1 else o1\<lparr>Finalizers := Finalizers o1 @ [f]\<rparr>)) \<and>
     (\<forall>o1 f. RemoveFinalizer lib o1 f = o1\<lparr>Finalizers := filter (\<lambda>g. g \<noteq> f) (Finalizers o1)\<rparr>)"

section \<open>The reconciler\<close>

record OperatorConfig =
  PodName :: string
  PodNamespace :: string
  XPlaneRepository :: string
  XPlaneImage :: string
  XPlaneVersion :: string
  ImagePullSecrets :: "string list"

record 'w HostReconciler =
  kube :: "'w Client"
  lib :: "'w Lib"
  shell :: "'w shell"
  osys :: "'w Os"
  nodeName :: string
  ownPod :: nsname
  hostRoot :: string
  scriptContent :: string
  dropInContent :: string
  cfg :: OperatorConfig

section \<open>Traces of client calls\<close>

lemma trace_api_call: "trace_spec (api_call c a) (\<lambda>r es. es = [Api a r])"
  by (simp add: api_call_def trace_perform)

lemma emits_api_call [trace_rules]: "(\<And>r. P (Api a r)) \<Longrightarrow> emits P (api_call c a)"
  by (simp add: api_call_def emits_perform)

lemma trace_status_call:
  "trace_spec (status_call c base u) (\<lambda>r es. es = [Api (PatchStatus u) (error_of r)])"
  by (simp add: status_call_def trace_perform)

lemma emits_status_call [trace_rules]:
  "(\<And>r. P (Api (PatchStatus u) r)) \<Longrightarrow> emits P (status_call c base u)"
  by (simp add: status_call_def emits_perform)

lemma emits_Execute [trace_rules]: "(\<And>r. P (Cmd c r)) \<Longrightarrow> emits P (Execute sh c)"
  by (rule xapi.exec_emits)

lemma emits_retry_loop:
  assumes "\<And>x. emits P (fn x)"
  shows "emits P (retry_loop conf n fn x)"
proof (induction n arbitrary: x)
  case 0
  show ?case by (simp add: assms)
next
  case (Suc n)
  show ?case
    unfolding retry_loop.simps
    by (intro emits_bind assms emits_case_prod emits_case_option emits_if emits_return Suc)
qed

text \<open>A relation between argument and result that holds for each run holds for the retried call.\<close>

lemma retry_loop_result:
  assumes "\<And>x. trace_spec (fn x) (\<lambda>y es. Q x (snd y))" "\<And>x y z. Q x y \<Longrightarrow> Q y z \<Longrightarrow> Q x z"
  shows "trace_spec (retry_loop conf n fn x) (\<lambda>y es. Q x (snd y))"
proof (induction n arbitrary: x)
  case 0
  show ?case by (simp add: assms(1))
next
  case (Suc n)
  show ?case
    unfolding retry_loop.simps
    by (intro trace_bindI [OF assms(1)] trace_case_prod trace_case_option trace_if trace_returnI
        trace_spec_weaken [OF Suc]) (auto intro: assms(2))
qed

lemma RetryOnConflict_result:
  assumes "retry_law lb" "\<And>x. trace_spec (fn x) (\<lambda>y es. Q x (snd y))" "\<And>x y z. Q x y \<Longrightarrow> Q y z \<Longrightarrow> Q x z"
  shows "trace_spec (RetryOnConflict lb fn x) (\<lambda>y es. Q x (snd y))"
proof -
  from assms(1) obtain n where "RetryOnConflict lb fn = retry_loop (IsConflict lb) n fn"
    by (auto simp: retry_law_def)
  then show ?thesis using retry_loop_result [of fn Q, OF assms(2,3)] by simp
qed

lemma emits_RetryOnConflict:
  assumes "retry_law lb" "\<And>x. emits P (fn x)"
  shows "emits P (RetryOnConflict lb fn x)"
  using assms emits_retry_loop [of P fn] by (auto simp: retry_law_def)

text \<open>A first run that returns something other than a conflict is the whole of the retried call.\<close>

lemma retry_loop_settled:
  assumes "run_state (fn x) s = ((err, y), s')" and "\<And>e. err = Some e \<Longrightarrow> \<not> conf e"
  shows "run_state (retry_loop conf n fn x) s = ((err, y), s')"
  using assms by (cases n) (auto split: option.splits)

lemma RetryOnConflict_settled:
  assumes "retry_law lb" "run_state (fn x) s = ((err, y), s')"
    and "\<And>e. err = Some e \<Longrightarrow> \<not> IsConflict lb e"
  shows "run_state (RetryOnConflict lb fn x) s = ((err, y), s')"
  using assms retry_loop_settled [of fn x s err y s'] by (auto simp: retry_law_def)

section \<open>A concrete cluster\<close>

text \<open>
  Functions that keep the laws, and a client that always reads the same objects and accepts
  every write: the instances at which the theorems are applied.
\<close>

fun kind_is :: "string \<Rightarrow> goerr \<Rightarrow> bool" where
  "kind_is k (External k' m) = (k = k')"
| "kind_is k (WrapError p e s) = kind_is k e"
| "kind_is k e = False"

definition demo_convert :: "Unstructured \<Rightarrow> DaemonSet" where
  "demo_convert u = \<lparr>ds_Name = u_Name u, ds_Namespace = u_Namespace u, ds_UID = [], ds_ResourceVersion = [],
     ds_OwnerReferences = u_OwnerReferences u, ds_Tolerations = [], ds_NodeSelector = u_NodeSelector u,
     ds_Rest = u_Content u\<rparr>"

definition demo_lib :: "'w Lib" where
  "demo_lib = \<lparr>IsNotFound = kind_is ''NotFound'', IsConflict = kind_is ''Conflict'',
     NewConflict = (\<lambda>n e. External ''Conflict'' (Error e)),
     RetryOnConflict = retry_loop (kind_is ''Conflict'') 4,
     labels_Matches = (\<lambda>sel l. sel \<subseteq>\<^sub>m l),
     ContainsFinalizer = (\<lambda>o1 f. f \<in> set (Finalizers o1)),
     AddFinalizer = (\<lambda>o1 f. if f \<in> set (Finalizers o1) then o1 else o1\<lparr>Finalizers := Finalizers o1 @ [f]\<rparr>),
     RemoveFinalizer = (\<lambda>o1 f. o1\<lparr>Finalizers := filter (\<lambda>g. g \<noteq> f) (Finalizers o1)\<rparr>),
     GVK_String = (\<lambda>k. k), ObjectKey_String = (\<lambda>(ns, n). ns @ ''/'' @ n),
     GetControllerOf = (\<lambda>pod. find (\<lambda>o1. or_Controller o1 = Some True) (pod_OwnerReferences pod)),
     SetControllerReference_obj = (\<lambda>rpc u. Inr u), SetControllerReference_ds = (\<lambda>rpc ds. Inr ds),
     Convert_obj_ds = (\<lambda>u. Inr (demo_convert u)), kscheme_obj_ds = (\<lambda>u. Inr (demo_convert u)),
     kscheme_ds_obj = (\<lambda>ds. Inr \<lparr>u_Kind = ''DaemonSet'', u_Name = ds_Name ds, u_Namespace = ds_Namespace ds,
        u_OwnerReferences = ds_OwnerReferences ds, u_NodeSelector = ds_NodeSelector ds, u_Content = ds_Rest ds\<rparr>),
     DeepEqual_owners = (=), DeepEqual_tolerations = (=),
     DeepDerivative_spec = (\<lambda>a b. ds_Rest a = ds_Rest b \<and> ds_NodeSelector a \<subseteq>\<^sub>m ds_NodeSelector b),
     RenderDir = (\<lambda>dir d w. (Inr [], w))\<rparr>"

lemma demo_lib_laws [simp]:
  "retry_law demo_lib" "errors_law demo_lib" "labels_law demo_lib" "finalizer_law demo_lib"
  by (auto simp: demo_lib_def retry_law_def errors_law_def labels_law_def finalizer_law_def)

definition demo_rail :: "string \<Rightarrow> string list \<Rightarrow> RailTopology" where
  "demo_rail name pfs = \<lparr>rt_Name = name, rt_NicSelector = \<lparr>PfNames = pfs\<rparr>, CidrPoolRef = [], IPAM = [],
     rt_MTU = 9216, SwPlane = 0\<rparr>"

definition demo_rpc :: "RailTopology list \<Rightarrow> string list \<Rightarrow> SpectrumXRailPoolConfig" where
  "demo_rpc rails fins = \<lparr>rpc_Name = ''pool'', rpc_Namespace = ''ns'', rpc_ResourceVersion = ''1'', Generation = 1,
     DeletionTimestamp = None, Finalizers = fins,
     rpc_Spec = \<lparr>DraEnabled = True, VFStateFollow = None, NodeSelector = Map.empty, MaxUnavailable = None,
       NetworkNamespace = ''default'', OvsConfig = Map.empty, NumVfs = 1, RailTopologies = rails\<rparr>,
     rpc_Status = \<lparr>SyncStatus = [], NodeStates = [], ObservedGeneration = 0\<rparr>\<rparr>"

definition demo_node :: "string \<Rightarrow> Node" where
  "demo_node n = \<lparr>node_Name = n, node_Labels = Map.empty\<rparr>"

definition no_object :: "'a result" where
  "no_object = Inl (External ''NotFound'' ''no such object'')"

definition demo_client :: "SpectrumXRailPoolConfig \<Rightarrow> SriovNetworkNodePolicy list \<Rightarrow> 'w Client" where
  "demo_client rpc policies = \<lparr>get_Node = (\<lambda>n w. (Inr (demo_node n), w)),
     get_RailPoolConfig = (\<lambda>k w. (Inr rpc, w)),
     get_SriovNodeState = (\<lambda>k w. (Inr \<lparr>nst_SpecInterfaces = [''if''], nst_SyncStatus = SyncStatusSucceeded,
        nst_Interfaces = map (\<lambda>n. \<lparr>iface_Name = n, EswitchMode = ''switchdev''\<rparr>)
          (concat (map pf_names (RailTopologies (rpc_Spec rpc))))\<rparr>, w)),
     get_NodePolicy = (\<lambda>k w. (no_object, w)), get_CIDRPool = (\<lambda>k w. (no_object, w)),
     get_Pod = (\<lambda>k w. (no_object, w)), get_DaemonSet = (\<lambda>k w. (no_object, w)),
     list_Nodes = (\<lambda>sel w. (Inr [demo_node ''node''], w)),
     list_NodePolicies = (\<lambda>ns sel w. (Inr policies, w)),
     list_RailPoolConfigs = (\<lambda>ns w. (Inr [rpc], w)), list_Pods = (\<lambda>w. (Inr [], w)),
     api_do = (\<lambda>a w. (None, w)), patch_status = (\<lambda>base u w. (Inr u, w))\<rparr>"

definition demo_reconciler :: "'w Client \<Rightarrow> 'w shell \<Rightarrow> 'w Os \<Rightarrow> 'w HostReconciler" where
  "demo_reconciler c sh os = \<lparr>kube = c, lib = demo_lib, shell = sh, osys = os, nodeName = ''node'',
     ownPod = (''ns'', ''agent''), hostRoot = [], scriptContent = ''a'', dropInContent = ''b'',
     cfg = \<lparr>PodName = ''agent'', PodNamespace = ''ns'', XPlaneRepository = ''r'', XPlaneImage = ''i'',
       XPlaneVersion = ''v'', ImagePullSecrets = []\<rparr>\<rparr>"

definition demo_world :: "disk world" where
  "demo_world = empty_disk"

lemma events_demo_world [simp]: "events demo_world = []"
  by (simp add: demo_world_def empty_disk_def)

definition all_ok_shell :: "'w shell" where
  "all_ok_shell c w = (\<lparr>sh_out = [], sh_err = None, sh_deadline = False\<rparr>, w)"

abbreviation demo :: "SpectrumXRailPoolConfig \<Rightarrow> disk HostReconciler" where
  "demo rpc \<equiv> demo_reconciler (demo_client rpc []) all_ok_shell disk_os"

lemmas demo_defs = demo_reconciler_def demo_client_def demo_rpc_def demo_rail_def demo_node_def

end
