(* ===== verification/Stale_Cleaner.thy ===== *)
theory Stale_Cleaner
  imports Flows Cluster
begin

text \<open>
  \<^verbatim>\<open>internal/staleflows/stalecleanup.go\<close>: the routine that periodically removes the flows of pods
  that are gone. It is a client of the interface \<open>FlowsAPI\<close>; what it promises is proved once in
  the locale of that interface and used at the functions of \<^verbatim>\<open>flows.go\<close>.
\<close>

section \<open>The cleaner\<close>

text \<open>\<open>time.Duration\<close> counts nanoseconds in 64 bits.\<close>

record 'w Cleaner =
  cl_Client :: "'w Client"
  CleanupInterval :: "64 word"
  cl_Flows :: "'w FlowsAPI"

definition default_interval :: "64 word" where "default_interval = 5 * 60 * 1000000000"

definition cleanup_interval :: "'w Cleaner \<Rightarrow> 64 word" where
  "cleanup_interval c = (if CleanupInterval c = 0 then default_interval else CleanupInterval c)"

text \<open>The loop that fills the map \<open>existingPods\<close>.\<close>

fun mark_existing :: "(string \<rightharpoonup> bool) \<Rightarrow> Pod list \<Rightarrow> (string \<rightharpoonup> bool)" where
  "mark_existing existing [] = existing"
| "mark_existing existing (pod # pods) = mark_existing (existing(pod_UID pod \<mapsto> True)) pods"

definition cleanupStaleFlows :: "'w Cleaner \<Rightarrow> ('w, goerr option) op" where
  "cleanupStaleFlows c = do {
     pods \<leftarrow> observe (list_Pods (cl_Client c));
     case pods of
       Inl err \<Rightarrow> State_Monad.return (Some (WrapError ''failed to list pods: '' err []))
     | Inr items \<Rightarrow>
         if items = [] then State_Monad.return None
         else do {
           e \<leftarrow> api_CleanupStaleFlowsForBridges (cl_Flows c) (mark_existing Map.empty items);
           case e of
             Some err \<Rightarrow> State_Monad.return (Some (WrapError ''failed to cleanup stale flows: '' err []))
           | None \<Rightarrow> State_Monad.return None
         }
   }"

text \<open>
  The loop of \<open>StartCleanupRoutine\<close>, driven by the channels that \<open>select\<close> finds ready: \<open>True\<close> is
  the ticker with period \<open>cleanup_interval\<close>, \<open>False\<close> the end of the context. An error of a pass is
  logged and the loop goes on.
\<close>

fun StartCleanupRoutine :: "'w Cleaner \<Rightarrow> bool list \<Rightarrow> ('w, unit) op" where
  "StartCleanupRoutine c [] = State_Monad.return ()"
| "StartCleanupRoutine c (ticked # ready) =
     (if ticked then do {
        _ \<leftarrow> cleanupStaleFlows c;
        StartCleanupRoutine c ready
      }
      else State_Monad.return ())"

section \<open>What is cleaned\<close>

lemma mark_existing_lookup:
  "mark_existing m pods u = (if u \<in> pod_UID ` set pods then Some True else m u)"
  by (induction pods arbitrary: m) auto

lemma stale_pods_not_existing:
  "p \<in> set (stale_pods existing lines) \<Longrightarrow> existing (fst p) \<noteq> Some True \<and> snd p = GenerateUint64FromString (fst p)"
  by (induction lines) (auto simp: Let_def split: if_splits)

text \<open>
  The commands a pass may run: it lists bridges and reads their tags, and it deletes the flows
  and the tag of a pod only if the pod is not in \<open>live\<close>.
\<close>

definition spares :: "string set \<Rightarrow> event \<Rightarrow> bool" where
  "spares live e \<longleftrightarrow>
     (\<exists>a. e = Cmd list_br_cmd a) \<or> (\<exists>br a. e = Cmd (get_external_ids_cmd br) a) \<or>
     (\<exists>br p a. p \<notin> live \<and>
        (e = Cmd (del_flows_cmd br (GenerateUint64FromString p)) a \<or> e = Cmd (remove_external_id_cmd br p) a))"

lemma list_all2_preimage: "list_all2 P xs ys \<Longrightarrow> y \<in> set ys \<Longrightarrow> \<exists>x \<in> set xs. P x y"
  by (induction rule: list_all2_induct) auto

lemma cmds_member: "Cmd c a \<in> set es \<Longrightarrow> c \<in> set (cmds es)"
proof (induction es)
  case (Cons e es)
  then show ?case by (cases e) auto
qed simp

lemma cmd_okD: "cmd_ok e \<Longrightarrow> \<exists>c a. e = Cmd c a"
  by (erule cmd_ok.elims) auto

lemma plan_outcome_events:
  assumes "plan_outcome p r es" "e \<in> set es"
  shows "\<exists>c a. e = Cmd c a \<and> c \<in> set (plan_cmds p)"
proof -
  obtain c a where e: "e = Cmd c a"
    using assms by (auto simp: plan_outcome_def list_all_iff dest!: bspec cmd_okD)
  with assms(2) have "c \<in> set (cmds es)" by (auto intro: cmds_member)
  with e plan_outcome_prefix [OF assms(1), THEN set_mono_prefix] show ?thesis by auto
qed

lemma clean_visit_spares:
  assumes "clean_visit br p seg" "e \<in> set seg" "fst p \<notin> live" "snd p = GenerateUint64FromString (fst p)"
  shows "spares live e"
proof -
  from assms(1) obtain r where "plan_outcome (clean_plan br (fst p) (snd p)) r seg"
    by (auto simp: clean_visit_def)
  from plan_outcome_events [OF this assms(2)] obtain c a
    where "e = Cmd c a" "c = del_flows_cmd br (snd p) \<or> c = remove_external_id_cmd br (fst p)"
    by (auto simp: clean_plan_def)
  with assms(3,4) show ?thesis unfolding spares_def by auto
qed

lemma stale_visit_spares:
  assumes "stale_visit existing br seg" "e \<in> set seg" "\<And>u. u \<in> live \<Longrightarrow> existing u = Some True"
  shows "spares live e"
proof -
  from assms(1) consider err where "seg = [Cmd (get_external_ids_cmd br) (Inl err)]"
    | ids segs where "seg = Cmd (get_external_ids_cmd br) (Inr ids) # concat segs"
        "list_all2 (clean_visit br) (stale_pods existing (Split ids CHR 0x0A)) segs"
    unfolding stale_visit_def by blast
  then show ?thesis
  proof cases
    case 1
    then show ?thesis using assms(2) by (auto simp: spares_def)
  next
    case 2
    show ?thesis
    proof (cases "e \<in> set (concat segs)")
      case True
      then obtain s where s: "s \<in> set segs" "e \<in> set s" by auto
      with 2(2) obtain p where p: "p \<in> set (stale_pods existing (Split ids CHR 0x0A))" "clean_visit br p s"
        using list_all2_preimage by metis
      from stale_pods_not_existing [OF p(1)] assms(3) have "fst p \<notin> live" "snd p = GenerateUint64FromString (fst p)"
        by auto
      with clean_visit_spares [OF p(2) s(2)] show ?thesis by blast
    next
      case False
      with 2(1) assms(2) show ?thesis by (auto simp: spares_def)
    qed
  qed
qed

lemma cleanup_outcome_spares:
  assumes "cleanup_outcome existing r es" "e \<in> set es" "\<And>u. u \<in> live \<Longrightarrow> existing u = Some True"
  shows "spares live e"
proof -
  from assms(1) consider err where "es = [Cmd list_br_cmd (Inl err)]"
    | out segs where "es = Cmd list_br_cmd (Inr out) # concat segs"
        "list_all2 (stale_visit existing) (Split out CHR 0x0A) segs"
    by (auto simp: cleanup_outcome_def pass_def)
  then show ?thesis
  proof cases
    case 1
    then show ?thesis using assms(2) by (auto simp: spares_def)
  next
    case 2
    show ?thesis
    proof (cases "e \<in> set (concat segs)")
      case True
      then obtain s where s: "s \<in> set segs" "e \<in> set s" by auto
      with 2(2) obtain br where "stale_visit existing br s"
        using list_all2_preimage by metis
      from stale_visit_spares [OF this s(2) assms(3)] show ?thesis .
    next
      case False
      with 2(1) assms(2) show ?thesis by (auto simp: spares_def)
    qed
  qed
qed

section \<open>The cleaner as a client of \<open>FlowsAPI\<close>\<close>

text \<open>What one pass does with the pods the client has listed.\<close>

definition pass_outcome :: "Pod list result \<Rightarrow> goerr option \<Rightarrow> event list \<Rightarrow> bool" where
  "pass_outcome listed r es \<longleftrightarrow>
     (case listed of
        Inl err \<Rightarrow> r = Some (WrapError ''failed to list pods: '' err []) \<and> es = []
      | Inr [] \<Rightarrow> r = None \<and> es = []
      | Inr pods \<Rightarrow> \<exists>r'. cleanup_outcome (mark_existing Map.empty pods) r' es \<and>
          r = map_option (\<lambda>err. WrapError ''failed to cleanup stale flows: '' err []) r')"

lemma pass_outcome_simps:
  "pass_outcome (Inl err) r es \<longleftrightarrow> r = Some (WrapError ''failed to list pods: '' err []) \<and> es = []"
  "pass_outcome (Inr []) r es \<longleftrightarrow> r = None \<and> es = []"
  "pods \<noteq> [] \<Longrightarrow> pass_outcome (Inr pods) r es \<longleftrightarrow>
     (\<exists>r'. cleanup_outcome (mark_existing Map.empty pods) r' es \<and>
        r = map_option (\<lambda>err. WrapError ''failed to cleanup stale flows: '' err []) r')"
  by (simp_all add: pass_outcome_def split: list.splits)

context flows_api
begin

lemma cleanup_pass:
  "\<exists>es. events (snd (run_state (cleanupStaleFlows \<lparr>cl_Client = c, CleanupInterval = i, cl_Flows = F\<rparr>) s)) = events s @ es \<and>
     pass_outcome (fst (list_Pods c (env s)))
       (fst (run_state (cleanupStaleFlows \<lparr>cl_Client = c, CleanupInterval = i, cl_Flows = F\<rparr>) s)) es"
proof (cases "fst (list_Pods c (env s))")
  case (Inl err)
  then show ?thesis by (simp add: cleanupStaleFlows_def pass_outcome_simps)
next
  case (Inr pods)
  show ?thesis
  proof (cases "pods = []")
    case True
    with Inr show ?thesis by (simp add: cleanupStaleFlows_def pass_outcome_simps)
  next
    case False
    define t where "t = s\<lparr>env := snd (list_Pods c (env s))\<rparr>"
    define m where "m = api_CleanupStaleFlowsForBridges F (mark_existing Map.empty pods)"
    obtain r' t' where run: "run_state m t = (r', t')" by (cases "run_state m t")
    from trace_run [OF cleanup_trace [of "mark_existing Map.empty pods"], of t]
    obtain es where "events t' = events s @ es" "cleanup_outcome (mark_existing Map.empty pods) r' es"
      using run by (auto simp: m_def t_def)
    with Inr False run show ?thesis
      by (cases r') (auto simp: cleanupStaleFlows_def pass_outcome_simps m_def t_def)
  qed
qed

end

text \<open>The routine runs a pass on every tick, however the earlier ones ended, until the context is done.\<close>

lemma StartCleanupRoutine_ticks:
  "run_state (StartCleanupRoutine c (replicate n True @ False # rest)) s =
   ((), ((\<lambda>t. snd (run_state (cleanupStaleFlows c) t)) ^^ n) s)"
  by (induction n arbitrary: s) (simp_all add: funpow_Suc_right case_prod_beta del: funpow.simps(2))

section \<open>Properties\<close>

text \<open>
  A pass of the cleaner does exactly this: if the pods cannot be listed it
  reports that and runs no command; if none is listed it does nothing; otherwise it runs the
  cleanup of all bridges against the set of listed pods and reports its error, if any. In
  particular, when the last pod of a node is gone, its flows are not removed by the cleaner.
\<close>

lemma cleanupStaleFlows_pass:
  assumes "multierr_law app"
  shows "\<exists>es. events (snd (run_state (cleanupStaleFlows
      \<lparr>cl_Client = c, CleanupInterval = i, cl_Flows = NewFlows app fs sh\<rparr>) s)) = events s @ es \<and>
    pass_outcome (fst (list_Pods c (env s)))
      (fst (run_state (cleanupStaleFlows
        \<lparr>cl_Client = c, CleanupInterval = i, cl_Flows = NewFlows app fs sh\<rparr>) s)) es"
  by (rule flows_api.cleanup_pass [OF NewFlows_api [OF assms]])

definition listing :: "Pod list \<Rightarrow> 'w Client" where
  "listing pods = (demo_client (demo_rpc [] []) [])\<lparr>list_Pods := (\<lambda>w. (Inr pods, w))\<rparr>"

definition cleaner_pod :: "string \<Rightarrow> Pod" where
  "cleaner_pod u = \<lparr>pod_Name = ''p'', pod_Namespace = ''ns'', pod_UID = u, pod_NodeName = ''node'',
     pod_DeletionTimestamp = None, pod_Annotations = None, pod_OwnerReferences = []\<rparr>"

text \<open>
  The cleaner never touches a pod that exists: among the commands of a pass, the
  ones that delete flows or a tag are for pods that are not among the pods just listed.
\<close>

lemma cleanupStaleFlows_spares_listed:
  assumes "multierr_law app" "fst (list_Pods c (env s)) = Inr pods"
  shows "\<exists>es. events (snd (run_state (cleanupStaleFlows
      \<lparr>cl_Client = c, CleanupInterval = i, cl_Flows = NewFlows app fs sh\<rparr>) s)) = events s @ es \<and>
    (\<forall>e \<in> set es. spares (pod_UID ` set pods) e)"
proof (cases "pods = []")
  case True
  with assms(2) show ?thesis by (simp add: cleanupStaleFlows_def)
next
  case False
  from flows_api.cleanup_pass [OF NewFlows_api [OF assms(1)], of c i fs sh s] assms(2) False
  obtain es r' where es: "events (snd (run_state (cleanupStaleFlows
      \<lparr>cl_Client = c, CleanupInterval = i, cl_Flows = NewFlows app fs sh\<rparr>) s)) = events s @ es"
    "cleanup_outcome (mark_existing Map.empty pods) r' es"
    by (auto simp: pass_outcome_simps)
  have "spares (pod_UID ` set pods) e" if "e \<in> set es" for e
    by (rule cleanup_outcome_spares [OF es(2) that]) (simp add: mark_existing_lookup)
  with es(1) show ?thesis by blast
qed

end
