(* ===== verification/Ovs_Effects.thy ===== *)
theory Ovs_Effects
  imports Flow_Controller Stale_Cleaner
begin

text \<open>
  What the commands of \<^verbatim>\<open>flows.go\<close> do to Open vSwitch. The other theories show which commands are run;
  here a switch is a state with bridges, rules and tags, the effect of the eight commands that
  pods need is the contract of a locale, and adding, deletion and cleanup are shown to refine
  operations on that state: the rules of a pod are added, those of a deleted pod or of the pods that are
  gone are removed, and other rules are touched only where Open vSwitch replaces a rule by one with the
  same match and priority.
\<close>

section \<open>The switch\<close>

text \<open>
  Per bridge the rules with a given cookie, and the external ids as they are printed, in order; the
  bridge of a port, and the port with which the interface of a container is connected.
\<close>

record ovs =
  ovs_bridges :: "string list"
  ovs_rules :: "string \<Rightarrow> 64 word \<Rightarrow> string set"
  ovs_tags :: "string \<Rightarrow> (string \<times> string) list"
  ovs_port_br :: "string \<Rightarrow> string option"
  ovs_cont_port :: "string \<Rightarrow> string \<Rightarrow> string option"

definition plain_word :: "string \<Rightarrow> bool" where
  "plain_word s \<longleftrightarrow> s \<noteq> [] \<and> CHR '' '' \<notin> set s \<and> CHR ''='' \<notin> set s \<and> CHR 0x0A \<notin> set s"

definition ovs_wf :: "ovs \<Rightarrow> bool" where
  "ovs_wf v \<longleftrightarrow> ovs_bridges v \<noteq> [] \<and> (\<forall>b \<in> set (ovs_bridges v). plain_word b) \<and>
     (\<forall>b k x. (k, x) \<in> set (ovs_tags v b) \<longrightarrow> plain_word k \<and> CHR 0x0A \<notin> set x)"

definition tag_of :: "ovs \<Rightarrow> string \<Rightarrow> string \<Rightarrow> string option" where
  "tag_of v b k = map_of (ovs_tags v b) k"

abbreviation marked :: "ovs \<Rightarrow> string \<Rightarrow> string \<Rightarrow> bool" where
  "marked v p b \<equiv> tag_of v b p = Some RailPodID"

definition drop_rules :: "string \<Rightarrow> 64 word \<Rightarrow> ovs \<Rightarrow> ovs" where
  "drop_rules b c v = v\<lparr>ovs_rules := (ovs_rules v)(b := (ovs_rules v b)(c := {}))\<rparr>"

definition drop_tag :: "string \<Rightarrow> string \<Rightarrow> ovs \<Rightarrow> ovs" where
  "drop_tag b k v = v\<lparr>ovs_tags := (ovs_tags v)(b := filter (\<lambda>kv. fst kv \<noteq> k) (ovs_tags v b))\<rparr>"

text \<open>
  Adding a rule: of two rules with the same table, match and priority a table holds only one, so the new
  rule replaces one that is there, whatever its cookie. \<open>same\<close> says which rules these are.
\<close>

definition put_rule :: "(string \<Rightarrow> string \<Rightarrow> bool) \<Rightarrow> string \<Rightarrow> 64 word \<Rightarrow> string \<Rightarrow> ovs \<Rightarrow> ovs" where
  "put_rule same b c f v = v\<lparr>ovs_rules := (ovs_rules v)(b := (\<lambda>c'.
     {g \<in> ovs_rules v b c'. \<not> same f g} \<union> (if c' = c then {f} else {})))\<rparr>"

text \<open>The cookie that a rule is added with: its field \<open>cookie=0x...\<close>.\<close>

definition flow_cookie :: "string \<Rightarrow> 64 word option" where
  "flow_cookie f = map_option (\<lambda>x. of_nat (parse_base 16 (drop 9 x)))
     (find (\<lambda>x. take 9 x = ''cookie=0x'') (Split f CHR '',''))"

text \<open>The fields of a rule that identify it: table, priority and match, without the cookie and the actions.\<close>

definition flow_fields :: "string \<Rightarrow> string set" where
  "flow_fields f = set (filter (\<lambda>x. take 7 x \<noteq> ''cookie='')
     (takeWhile (\<lambda>x. take 8 x \<noteq> ''actions='') (Split f CHR '','')))"

section \<open>The contract of the switch\<close>

text \<open>
  Which rules have the same match and priority is up to Open vSwitch, since fields can be written in
  several ways (\<open>same\<close>); rules with the same fields are such rules.
\<close>

locale ovs_switch =
  fixes sh :: "'w shell"
    and view :: "'w \<Rightarrow> ovs"
    and same :: "string \<Rightarrow> string \<Rightarrow> bool"
  assumes list_br: "answers sh list_br_cmd w out w' \<Longrightarrow>
      view w' = view w \<and> out = Join CHR 0x0A (ovs_bridges (view w))"
    and get_id: "plain_word b \<Longrightarrow> plain_word k \<Longrightarrow> answers sh (get_external_id_cmd b k) w out w' \<Longrightarrow>
      view w' = view w \<and> out = (case tag_of (view w) b k of Some x \<Rightarrow> x | None \<Rightarrow> [])"
    and get_ids: "plain_word b \<Longrightarrow> answers sh (get_external_ids_cmd b) w out w' \<Longrightarrow>
      view w' = view w \<and> out = print_tags (ovs_tags (view w) b)"
    and del_flows: "plain_word b \<Longrightarrow> answers sh (del_flows_cmd b c) w out w' \<Longrightarrow>
      view w' = drop_rules b c (view w)"
    and remove_id: "plain_word b \<Longrightarrow> plain_word k \<Longrightarrow> answers sh (remove_external_id_cmd b k) w out w' \<Longrightarrow>
      view w' = drop_tag b k (view w)"
    and add_flow: "plain_word b \<Longrightarrow> CHR '' '' \<notin> set f \<Longrightarrow> flow_cookie f = Some c \<Longrightarrow>
      answers sh (add_flow_cmd b f) w out w' \<Longrightarrow> view w' = put_rule same b c f (view w)"
    and same_fields: "flow_fields f = flow_fields g \<Longrightarrow> same f g"
    and same_sym: "same f g \<Longrightarrow> same g f"
    and same_trans: "same f g \<Longrightarrow> same g h \<Longrightarrow> same f h"
    and find_port: "plain_word i \<Longrightarrow> plain_word u \<Longrightarrow> answers sh (iface_rep_cmd i u) w out w' \<Longrightarrow>
      view w' = view w \<and> out = (case ovs_cont_port (view w) i u of Some p \<Rightarrow> p | None \<Rightarrow> [])"
    and iface_to_br: "plain_word p \<Longrightarrow> answers sh (iface_to_br_cmd p) w out w' \<Longrightarrow>
      view w' = view w \<and> ovs_port_br (view w) p = Some out"
begin

lemma cleanBridgeFlows_effect:
  assumes "plain_word b" "plain_word k" "run_state (cleanBridgeFlows sh b k c) s = (None, s')"
  shows "view (env s') = drop_tag b k (drop_rules b c (view (env s)))"
proof -
  from assms(3) obtain o1 o2 t where 1: "run_state (Execute sh (del_flows_cmd b c)) s = (Inr o1, t)"
    and 2: "run_state (Execute sh (remove_external_id_cmd b k)) t = (Inr o2, s')"
    by (auto simp: cleanBridgeFlows_def split: prod.splits sum.splits)
  show ?thesis
    using del_flows [OF assms(1) Execute_answers [OF 1]] remove_id [OF assms(1,2) Execute_answers [OF 2]] by simp
qed

end

section \<open>Deleting the rules of a pod\<close>

text \<open>The specification: on every bridge of \<open>B\<close> that is marked for pod \<open>p\<close>, its rules and its tag go.\<close>

definition forget_on :: "string set \<Rightarrow> string \<Rightarrow> 64 word \<Rightarrow> ovs \<Rightarrow> ovs" where
  "forget_on B p c v = v\<lparr>
     ovs_rules := (\<lambda>b. if b \<in> B \<and> marked v p b then (ovs_rules v b)(c := {}) else ovs_rules v b),
     ovs_tags := (\<lambda>b. if b \<in> B \<and> marked v p b then filter (\<lambda>kv. fst kv \<noteq> p) (ovs_tags v b) else ovs_tags v b)\<rparr>"

lemma map_of_dropped: "map_of (filter (\<lambda>kv. fst kv \<noteq> p) xs) p = None"
  by (induction xs) auto

lemma forget_on_empty [simp]: "forget_on {} p c v = v"
  by (simp add: forget_on_def)

lemma forget_on_one: "forget_on {b} p c v = (if marked v p b then drop_tag b p (drop_rules b c v) else v)"
  by (auto simp: forget_on_def drop_tag_def drop_rules_def fun_eq_iff intro!: ovs.equality)

lemma marked_forget_on: "marked (forget_on B p c v) p b \<longleftrightarrow> b \<notin> B \<and> marked v p b"
  by (auto simp: forget_on_def tag_of_def map_of_dropped)

lemma forget_on_insert: "forget_on B p c (forget_on {b} p c v) = forget_on (insert b B) p c v"
proof -
  have "marked (forget_on {b} p c v) p x \<longleftrightarrow> x \<noteq> b \<and> marked v p x" for x
    by (simp add: marked_forget_on)
  then show ?thesis
    by (subst forget_on_def) (auto simp: forget_on_def fun_eq_iff intro!: ovs.equality)
qed

context ovs_switch
begin

lemma get_mark:
  assumes "plain_word b" "plain_word k" "run_state (Execute sh (get_external_id_cmd b k)) s = (Inr out, t)"
  shows "view (env t) = view (env s) \<and> (out = RailPodID \<longleftrightarrow> marked (view (env s)) k b)"
  using get_id [OF assms(1,2) Execute_answers [OF assms(3)]] by (auto simp: RailPodID_def split: option.splits)

lemma delete_pod_flows_None:
  assumes "multierr_law app" "run_state (delete_pod_flows app sh c p bs errs) s = (None, s')"
  shows "errs = None"
  using trace_run [OF delete_pod_flows_pass [OF assms(1)], of sh c p bs errs s] assms(2) by (auto simp: pass_def)

lemma delete_pod_flows_effect:
  assumes law: "multierr_law app" and p: "plain_word p"
  shows "run_state (delete_pod_flows app sh c p bs errs) s = (None, s') \<Longrightarrow> \<forall>b \<in> set bs. plain_word b \<Longrightarrow>
    view (env s') = forget_on (set bs) p c (view (env s))"
proof (induction bs arbitrary: errs s)
  case (Cons b bs)
  obtain r t where get: "run_state (Execute sh (get_external_id_cmd b p)) s = (r, t)" by fastforce
  have b: "plain_word b" using Cons.prems(2) by simp
  show ?case
  proof (cases r)
    case (Inl e)
    with Cons.prems(1) get have "run_state (delete_pod_flows app sh c p bs
        (app errs (errorf_v (''failed to get external id for bridge '' @ b) e))) t = (None, s')" by simp
    from delete_pod_flows_None [OF law this] law show ?thesis by simp
  next
    case (Inr out)
    have g: "view (env t) = view (env s)" "out = RailPodID \<longleftrightarrow> marked (view (env s)) p b"
      using get_mark [OF b p get [unfolded Inr]] by auto
    have "\<exists>u errs'. run_state (delete_pod_flows app sh c p bs errs') u = (None, s') \<and>
        view (env u) = forget_on {b} p c (view (env s))"
    proof (cases "out = RailPodID")
      case False
      with Cons.prems(1) get Inr g show ?thesis by (auto simp: forget_on_one)
    next
      case True
      obtain e u where clean: "run_state (cleanBridgeFlows sh b p c) t = (e, u)" by fastforce
      have "e = None"
        using Cons.prems(1) get Inr True clean law
        by (cases e) (auto dest!: delete_pod_flows_None [OF law])
      with clean g True cleanBridgeFlows_effect [OF b p] have "view (env u) = forget_on {b} p c (view (env s))"
        by (simp add: forget_on_one)
      then show ?thesis using Cons.prems(1) get Inr True clean \<open>e = None\<close> by auto
    qed
    with Cons show ?thesis by (auto simp: forget_on_insert)
  qed
qed simp

lemma listed_bridges:
  assumes "run_state (Execute sh list_br_cmd) s = (Inr out, t)" "ovs_wf (view (env s))"
  shows "view (env t) = view (env s) \<and> Split out CHR 0x0A = ovs_bridges (view (env s))"
  using list_br [OF Execute_answers [OF assms(1)]] assms(2)
  by (auto simp: ovs_wf_def plain_word_def intro!: Split_Join)

lemma DeletePodRailFlows_effect:
  assumes "multierr_law app" "plain_word p" "ovs_wf (view (env s))"
    and "run_state (DeletePodRailFlows app sh c p) s = (None, s')"
  shows "view (env s') = forget_on (set (ovs_bridges (view (env s)))) p c (view (env s))"
proof -
  from assms(4) obtain out t where l: "run_state (Execute sh list_br_cmd) s = (Inr out, t)"
    and d: "run_state (delete_pod_flows app sh c p (Split out CHR 0x0A) None) t = (None, s')"
    by (auto simp: DeletePodRailFlows_def split: prod.splits sum.splits)
  note b = listed_bridges [OF l assms(3)]
  from delete_pod_flows_effect [OF assms(1,2) d] b assms(3) show ?thesis by (simp add: ovs_wf_def)
qed

end

section \<open>Removing the rules of pods that are gone\<close>

text \<open>The pods that have a mark of the rail CNI on bridge \<open>b\<close> and do not exist.\<close>

definition gone_pods :: "(string \<rightharpoonup> bool) \<Rightarrow> ovs \<Rightarrow> string \<Rightarrow> string set" where
  "gone_pods existing v b = {k. \<exists>x. (k, x) \<in> set (ovs_tags v b) \<and> rail_mark x \<and> existing k \<noteq> Some True}"

text \<open>The specification: on every bridge of \<open>B\<close>, the rules and tags of these pods go.\<close>

definition purge_on :: "string set \<Rightarrow> (string \<rightharpoonup> bool) \<Rightarrow> ovs \<Rightarrow> ovs" where
  "purge_on B existing v = v\<lparr>
     ovs_rules := (\<lambda>b c. if b \<in> B \<and> c \<in> GenerateUint64FromString ` gone_pods existing v b then {} else ovs_rules v b c),
     ovs_tags := (\<lambda>b. if b \<in> B then filter (\<lambda>kv. fst kv \<notin> gone_pods existing v b) (ovs_tags v b) else ovs_tags v b)\<rparr>"

definition clean_on :: "string \<Rightarrow> (string \<times> 64 word) list \<Rightarrow> ovs \<Rightarrow> ovs" where
  "clean_on b ps v = v\<lparr>
     ovs_rules := (ovs_rules v)(b := (\<lambda>c. if c \<in> snd ` set ps then {} else ovs_rules v b c)),
     ovs_tags := (ovs_tags v)(b := filter (\<lambda>kv. fst kv \<notin> fst ` set ps) (ovs_tags v b))\<rparr>"

lemma clean_on_Nil [simp]: "clean_on b [] v = v"
  by (simp add: clean_on_def)

lemma clean_on_Cons: "clean_on b ps (drop_tag b p (drop_rules b c v)) = clean_on b ((p, c) # ps) v"
  by (auto simp: clean_on_def drop_tag_def drop_rules_def fun_eq_iff intro!: ovs.equality intro: filter_cong)

lemma purge_on_empty [simp]: "purge_on {} existing v = v"
  by (simp add: purge_on_def)

lemma gone_pods_purged: "gone_pods existing (purge_on {b} existing v) x = (if x = b then {} else gone_pods existing v x)"
  by (auto simp: gone_pods_def purge_on_def)

lemma purge_on_insert: "purge_on B existing (purge_on {b} existing v) = purge_on (insert b B) existing v"
  unfolding purge_on_def [of B] gone_pods_purged
  by (auto simp: purge_on_def fun_eq_iff intro!: ovs.equality)

lemma ovs_wf_purge: "ovs_wf v \<Longrightarrow> ovs_wf (purge_on B existing v)"
  by (auto simp: ovs_wf_def purge_on_def)

lemma stale_pods_printed:
  assumes "\<forall>k x. (k, x) \<in> set kvs \<longrightarrow> plain_word k \<and> CHR 0x0A \<notin> set x"
  shows "stale_pods existing (Split (print_tags kvs) CHR 0x0A) =
    map (\<lambda>kv. (fst kv, GenerateUint64FromString (fst kv)))
      (filter (\<lambda>kv. rail_mark (snd kv) \<and> existing (fst kv) \<noteq> Some True) kvs)"
proof (cases "kvs = []")
  case True
  then show ?thesis by (simp add: print_tags_def RailPodID_def)
next
  case False
  have "\<forall>kv \<in> set kvs. plain_tag kv" using assms by (auto simp: plain_tag_def plain_word_def)
  from Split_print_tags [OF False this] stale_pods_tags [OF this] show ?thesis by simp
qed

lemma clean_on_stale:
  assumes "ovs_wf v"
  shows "clean_on b (stale_pods existing (Split (print_tags (ovs_tags v b)) CHR 0x0A)) v = purge_on {b} existing v"
proof -
  let ?ps = "stale_pods existing (Split (print_tags (ovs_tags v b)) CHR 0x0A)"
  have ps: "?ps = map (\<lambda>kv. (fst kv, GenerateUint64FromString (fst kv)))
      (filter (\<lambda>kv. rail_mark (snd kv) \<and> existing (fst kv) \<noteq> Some True) (ovs_tags v b))"
    using assms by (intro stale_pods_printed) (auto simp: ovs_wf_def)
  have "fst ` set ?ps = gone_pods existing v b" "snd ` set ?ps = GenerateUint64FromString ` gone_pods existing v b"
    unfolding ps by (force simp: gone_pods_def)+
  then show ?thesis by (auto simp: clean_on_def purge_on_def fun_eq_iff intro!: ovs.equality)
qed

context ovs_switch
begin

lemma clean_stale_pods_None:
  assumes "multierr_law app" "run_state (clean_stale_pods app sh b ps errs) s = (None, s')"
  shows "errs = None"
  using trace_run [OF clean_stale_pods_pass [OF assms(1)], of sh b ps errs s] assms(2) by (auto simp: pass_def)

lemma cleanup_bridges_None:
  assumes "multierr_law app" "run_state (cleanup_bridges app sh existing bs errs) s = (None, s')"
  shows "errs = None"
  using trace_run [OF cleanup_bridges_pass [OF assms(1)], of sh existing bs errs s] assms(2) by (auto simp: pass_def)

lemma clean_stale_pods_effect:
  assumes law: "multierr_law app" and b: "plain_word b"
  shows "run_state (clean_stale_pods app sh b ps errs) s = (None, s') \<Longrightarrow> \<forall>p \<in> set ps. plain_word (fst p) \<Longrightarrow>
    view (env s') = clean_on b ps (view (env s))"
proof (induction ps arbitrary: errs s)
  case (Cons q ps)
  obtain p c where q: "q = (p, c)" by (cases q)
  obtain e u where clean: "run_state (cleanBridgeFlows sh b p c) s = (e, u)" by fastforce
  have "e = None"
    using Cons.prems(1) clean law by (cases e) (auto simp: q dest!: clean_stale_pods_None [OF law])
  with clean cleanBridgeFlows_effect [OF b] Cons.prems(2)
  have "view (env u) = drop_tag b p (drop_rules b c (view (env s)))" by (simp add: q)
  moreover have "view (env s') = clean_on b ps (view (env u))"
    using Cons.prems clean \<open>e = None\<close> by (intro Cons.IH) (auto simp: q)
  ultimately show ?case by (simp add: q clean_on_Cons)
qed simp

lemma cleanup_bridges_effect:
  assumes law: "multierr_law app"
  shows "run_state (cleanup_bridges app sh existing bs errs) s = (None, s') \<Longrightarrow> \<forall>b \<in> set bs. plain_word b \<Longrightarrow>
    ovs_wf (view (env s)) \<Longrightarrow> view (env s') = purge_on (set bs) existing (view (env s))"
proof (induction bs arbitrary: errs s)
  case (Cons b bs)
  have b: "plain_word b" using Cons.prems(2) by simp
  obtain r t where get: "run_state (Execute sh (get_external_ids_cmd b)) s = (r, t)" by fastforce
  show ?case
  proof (cases r)
    case (Inl e)
    with Cons.prems(1) get have "\<exists>e'. run_state (cleanup_bridges app sh existing bs (app errs e')) t = (None, s')"
      by auto
    with cleanup_bridges_None [OF law] law show ?thesis by fastforce
  next
    case (Inr ids)
    from get_ids [OF b Execute_answers [OF get [unfolded Inr]]]
    have g: "view (env t) = view (env s)" "ids = print_tags (ovs_tags (view (env s)) b)" by auto
    let ?ps = "stale_pods existing (Split ids CHR 0x0A)"
    obtain errs' u where clean: "run_state (clean_stale_pods app sh b ?ps errs) t = (errs', u)" by fastforce
    with Cons.prems(1) get Inr have rest: "run_state (cleanup_bridges app sh existing bs errs') u = (None, s')" by simp
    have "\<forall>p \<in> set ?ps. plain_word (fst p)"
      using Cons.prems(3) stale_pods_printed [of "ovs_tags (view (env s)) b" existing] unfolding g(2) ovs_wf_def
      by auto
    with clean_stale_pods_effect [OF law b] clean cleanup_bridges_None [OF law rest]
    have "view (env u) = purge_on {b} existing (view (env s))"
      using clean_on_stale [OF Cons.prems(3), of b existing] by (simp add: g)
    moreover from this Cons.prems have "view (env s') = purge_on (set bs) existing (view (env u))"
      by (intro Cons.IH [OF rest]) (auto intro: ovs_wf_purge)
    ultimately show ?thesis by (simp add: purge_on_insert)
  qed
qed simp

lemma CleanupStaleFlows_effect:
  assumes "multierr_law app" "ovs_wf (view (env s))"
    and "run_state (CleanupStaleFlowsForBridges app sh existing) s = (None, s')"
  shows "view (env s') = purge_on (set (ovs_bridges (view (env s)))) existing (view (env s))"
proof -
  from assms(3) obtain out t where l: "run_state (Execute sh list_br_cmd) s = (Inr out, t)"
    and d: "run_state (cleanup_bridges app sh existing (Split out CHR 0x0A) None) t = (None, s')"
    by (auto simp: CleanupStaleFlowsForBridges_def split: prod.splits sum.splits)
  note b = listed_bridges [OF l assms(2)]
  from cleanup_bridges_effect [OF assms(1) d] b assms(2) show ?thesis by (simp add: ovs_wf_def)
qed

end

section \<open>Adding the rules of a pod\<close>

lemma fmt_x_chars: "x \<in> set (fmt_x c) \<Longrightarrow> x \<noteq> CHR '' '' \<and> x \<noteq> CHR '','' \<and> x \<noteq> CHR ''/''"
proof -
  assume "x \<in> set (fmt_x c)"
  then obtain d where "d < 16" "x = digit_char d" using fmt_base_digits [of 16] by (auto simp: fmt_x_def)
  then have "x \<in> set hexdigits" unfolding digit_char_def
    by (metis hexdigits_props(2) nth_mem)
  then show ?thesis by (auto simp: hexdigits_def)
qed

lemma fmt_x_no_sep [simp]: "CHR '' '' \<notin> set (fmt_x c)" "CHR '','' \<notin> set (fmt_x c)"
  using fmt_x_chars by blast+

lemma parse_fmt_x [simp]: "of_nat (parse_base 16 (fmt_x c)) = c"
  by (simp add: fmt_x_def parse_fmt_base)

lemma find_append: "find P xs = None \<Longrightarrow> find P (xs @ ys) = find P ys"
  by (induction xs) (auto split: if_splits)

lemma flow_cookie_at:
  assumes "find (\<lambda>x. take 9 x = ''cookie=0x'') (Split pre CHR '','') = None"
  shows "flow_cookie (pre @ CHR '','' # ''cookie=0x'' @ fmt_x c @ CHR '','' # post) = Some c"
proof -
  have "Split (''cookie=0x'' @ fmt_x c @ CHR '','' # post) CHR '','' = (''cookie=0x'' @ fmt_x c) # Split post CHR '',''"
    using Split_append_sep [of "CHR '',''" "''cookie=0x'' @ fmt_x c" post] by simp
  with assms show ?thesis
    by (simp add: flow_cookie_def Split_sep_append find_append del: append_Cons)
qed

lemma pod_flow_cookies:
  "flow_cookie (pod_arp_flow c ip vf) = Some c" "flow_cookie (pod_ip_flow c ip vf) = Some c"
  "flow_cookie (pod_out_flow c vf) = Some c"
proof -
  show "flow_cookie (pod_arp_flow c ip vf) = Some c"
    using flow_cookie_at [of "''table=0''" c "''arp,arp_tpa='' @ ip @ '',actions=output:'' @ vf"]
    by (simp add: pod_arp_flow_def)
  show "flow_cookie (pod_ip_flow c ip vf) = Some c"
    using flow_cookie_at [of "''table=0''" c "''ip,nw_dst='' @ ip @ '',actions=output:'' @ vf"]
    by (simp add: pod_ip_flow_def)
  have "flow_cookie (''table=0,priority='' @ fmt_d 16384 @ '',cookie=0x'' @ fmt_x c @
      '',ip,in_port='' @ vf @ '',actions=resubmit(,1)'') = Some c"
    using flow_cookie_at [of "''table=0,priority=16384''" c "''ip,in_port='' @ vf @ '',actions=resubmit(,1)''"]
    by (simp add: fmt_d_def fmt_base.simps digit_char_def hexdigits_def)
  then show "flow_cookie (pod_out_flow c vf) = Some c" by (simp add: pod_out_flow_def)
qed

lemma pod_flow_plain:
  assumes "CHR '' '' \<notin> set ip" "CHR '' '' \<notin> set vf"
  shows "CHR '' '' \<notin> set (pod_arp_flow c ip vf)" "CHR '' '' \<notin> set (pod_ip_flow c ip vf)"
    "CHR '' '' \<notin> set (pod_out_flow c vf)"
  using assms by (auto simp: pod_arp_flow_def pod_ip_flow_def pod_out_flow_def fmt_d_def fmt_base.simps
      digit_char_def hexdigits_def)

text \<open>The rule \<open>f\<close> is there with cookie \<open>c\<close>, possibly with other actions.\<close>

definition has_rule :: "(string \<Rightarrow> string \<Rightarrow> bool) \<Rightarrow> ovs \<Rightarrow> string \<Rightarrow> 64 word \<Rightarrow> string \<Rightarrow> bool" where
  "has_rule same v b c f \<longleftrightarrow> (\<exists>g \<in> ovs_rules v b c. same f g)"

text \<open>
  A change of the switch for pod \<open>p\<close> with cookie \<open>c\<close> that adds the rules \<open>F b\<close> to the bridges \<open>b\<close> that are
  marked for it: rules of other cookies go only where one of these rules replaces them.
\<close>

definition pod_change :: "(string \<Rightarrow> string \<Rightarrow> bool) \<Rightarrow> string \<Rightarrow> 64 word \<Rightarrow> (string \<Rightarrow> string set) \<Rightarrow> ovs \<Rightarrow> ovs \<Rightarrow> bool" where
  "pod_change same p c F v v' \<longleftrightarrow> ovs_bridges v' = ovs_bridges v \<and> ovs_tags v' = ovs_tags v \<and>
     ovs_port_br v' = ovs_port_br v \<and> ovs_cont_port v' = ovs_cont_port v \<and>
     (\<forall>b. \<not> marked v p b \<longrightarrow> ovs_rules v' b = ovs_rules v b) \<and>
     (\<forall>b c'. c' \<noteq> c \<longrightarrow> ovs_rules v' b c' \<subseteq> ovs_rules v b c' \<and>
        (\<forall>f \<in> ovs_rules v b c'. f \<in> ovs_rules v' b c' \<or> (\<exists>g \<in> F b. same g f))) \<and>
     (\<forall>b f. has_rule same v b c f \<or> marked v p b \<and> f \<in> F b \<longrightarrow> has_rule same v' b c f)"

lemma pod_change_refl [simp]: "pod_change same p c (\<lambda>b. {}) v v"
  by (simp add: pod_change_def)

lemma pod_change_same:
  assumes "pod_change same p c F v v'"
  shows "ovs_bridges v' = ovs_bridges v" "ovs_tags v' = ovs_tags v" "ovs_port_br v' = ovs_port_br v"
    "ovs_cont_port v' = ovs_cont_port v" "tag_of v' = tag_of v"
  using assms by (auto simp: pod_change_def tag_of_def fun_eq_iff)

lemma pod_change_trans:
  assumes "pod_change same p c F u v" "pod_change same p c G v w"
  shows "pod_change same p c (\<lambda>b. F b \<union> G b) u w"
proof -
  note t = pod_change_same [OF assms(1)]
  have "ovs_rules w b c' \<subseteq> ovs_rules u b c' \<and>
      (\<forall>f \<in> ovs_rules u b c'. f \<in> ovs_rules w b c' \<or> (\<exists>g \<in> F b \<union> G b. same g f))" if "c' \<noteq> c" for b c'
    using assms that unfolding pod_change_def by (meson UnCI subset_trans)
  moreover have "has_rule same w b c f" if "has_rule same u b c f \<or> marked u p b \<and> f \<in> F b \<union> G b" for b f
    using assms that t(5) unfolding pod_change_def by (metis UnE)
  ultimately show ?thesis
    using assms t unfolding pod_change_def by simp
qed

lemma pod_change_mono:
  assumes "pod_change same p c F v v'" "\<And>b. marked v p b \<Longrightarrow> F b = G b"
  shows "pod_change same p c G v v'"
proof -
  have "f \<in> ovs_rules v' b c' \<or> (\<exists>g \<in> G b. same g f)" if "c' \<noteq> c" "f \<in> ovs_rules v b c'" for b c' f
  proof (cases "marked v p b")
    case True
    from assms(1) that have "f \<in> ovs_rules v' b c' \<or> (\<exists>g \<in> F b. same g f)" unfolding pod_change_def by blast
    with assms(2) [OF True] show ?thesis by simp
  next
    case False
    with assms(1) that show ?thesis by (simp add: pod_change_def)
  qed
  with assms show ?thesis unfolding pod_change_def by metis
qed

text \<open>The rules of one interface, on the bridge of its port.\<close>

definition pod_flows :: "64 word \<Rightarrow> string \<Rightarrow> string \<Rightarrow> string set" where
  "pod_flows c ip vf = {pod_arp_flow c ip vf, pod_ip_flow c ip vf, pod_out_flow c vf}"

definition iface_flows :: "ovs \<Rightarrow> string \<Rightarrow> 64 word \<Rightarrow> NetworkStatus \<Rightarrow> string \<Rightarrow> string set" where
  "iface_flows v uid c ns b =
     (case ovs_cont_port v (nstat_Interface ns) uid of
        None \<Rightarrow> {}
      | Some vf \<Rightarrow> if ovs_port_br v vf = Some b then pod_flows c (hd (nstat_IPs ns)) vf else {})"

definition ifaces_flows :: "ovs \<Rightarrow> string \<Rightarrow> 64 word \<Rightarrow> NetworkStatus list \<Rightarrow> string \<Rightarrow> string set" where
  "ifaces_flows v uid c nss b = (\<Union>ns \<in> set nss. iface_flows v uid c ns b)"

lemma ifaces_flows_simps [simp]:
  "ifaces_flows v uid c [] = (\<lambda>b. {})"
  "ifaces_flows v uid c (ns # nss) = (\<lambda>b. iface_flows v uid c ns b \<union> ifaces_flows v uid c nss b)"
  by (simp_all add: ifaces_flows_def fun_eq_iff)

lemma ifaces_flows_change:
  assumes "pod_change same p c F v v'"
  shows "ifaces_flows v' uid d nss = ifaces_flows v uid d nss"
  by (simp only: fun_eq_iff ifaces_flows_def iface_flows_def pod_change_same(3,4) [OF assms]) simp

text \<open>Ports are connected to bridges that exist, and have names that are words.\<close>

definition ports_wf :: "ovs \<Rightarrow> bool" where
  "ports_wf v \<longleftrightarrow> (\<forall>p b. ovs_port_br v p = Some b \<longrightarrow> b \<in> set (ovs_bridges v)) \<and>
     (\<forall>i u p. ovs_cont_port v i u = Some p \<longrightarrow> plain_word p)"

text \<open>What is needed of a pod's interface: it has a name, a port, and an address.\<close>

definition iface_wf :: "ovs \<Rightarrow> string \<Rightarrow> NetworkStatus \<Rightarrow> bool" where
  "iface_wf v uid ns \<longleftrightarrow> plain_word (nstat_Interface ns) \<and> ovs_cont_port v (nstat_Interface ns) uid \<noteq> None \<and>
     nstat_IPs ns \<noteq> [] \<and> CHR '' '' \<notin> set (hd (nstat_IPs ns))"

lemma pod_change_wf:
  "pod_change same p c F v v' \<Longrightarrow> (ports_wf v' \<longleftrightarrow> ports_wf v) \<and> (ovs_wf v' \<longleftrightarrow> ovs_wf v) \<and> iface_wf v' = iface_wf v"
  by (auto simp: pod_change_def ports_wf_def ovs_wf_def iface_wf_def fun_eq_iff)

lemma NewFlows_calls:
  "api_IsBridgeManagedByRailCNI (NewFlows app fs sh) = IsBridgeManagedByRailCNI sh"
  "api_AddPodRailFlows (NewFlows app fs sh) = AddPodRailFlows sh"
  "api_DeletePodRailFlows (NewFlows app fs sh) = DeletePodRailFlows app sh"
  "api_CleanupStaleFlowsForBridges (NewFlows app fs sh) = CleanupStaleFlowsForBridges app sh"
  by (simp_all add: NewFlows_def)

context ovs_switch
begin

lemma same_refl: "same f f"
  by (rule same_fields) (rule refl)

lemma pod_change_put:
  assumes "marked v p b"
  shows "pod_change same p c ((\<lambda>_. {})(b := {f})) v (put_rule same b c f v)"
proof -
  have "has_rule same (put_rule same b c f v) x c g" if "has_rule same v x c g" for x g
  proof -
    from that obtain h where h: "h \<in> ovs_rules v x c" "same g h" by (auto simp: has_rule_def)
    show ?thesis
    proof (cases "x = b \<and> same f h")
      case True
      then have "same g f" using h(2) same_sym same_trans by blast
      with True show ?thesis by (auto simp: has_rule_def put_rule_def)
    next
      case False
      with h show ?thesis by (auto simp: has_rule_def put_rule_def)
    qed
  qed
  moreover have "has_rule same (put_rule same b c f v) b c f"
    using same_refl by (auto simp: has_rule_def put_rule_def)
  ultimately show ?thesis
    using assms by (auto simp: pod_change_def put_rule_def)
qed

lemma run_add_flow:
  assumes "plain_word b" "CHR '' '' \<notin> set f" "flow_cookie f = Some c" "marked (view (env s)) p b"
    and "run_state (Execute sh (add_flow_cmd b f)) s = (Inr out, t)"
  shows "pod_change same p c ((\<lambda>_. {})(b := {f})) (view (env s)) (view (env t))"
  using add_flow [OF assms(1-3) Execute_answers [OF assms(5)]] pod_change_put [OF assms(4)] by simp

lemma AddPodRailFlows_effect:
  assumes "plain_word b" "CHR '' '' \<notin> set ip" "CHR '' '' \<notin> set vf" "marked (view (env s)) p b"
    and "run_state (AddPodRailFlows sh c vf b ip) s = (None, s')"
  shows "pod_change same p c ((\<lambda>_. {})(b := pod_flows c ip vf)) (view (env s)) (view (env s'))"
proof -
  from assms(5) obtain o1 o2 o3 t u where
    1: "run_state (Execute sh (add_flow_cmd b (pod_arp_flow c ip vf))) s = (Inr o1, t)" and
    2: "run_state (Execute sh (add_flow_cmd b (pod_ip_flow c ip vf))) t = (Inr o2, u)" and
    3: "run_state (Execute sh (add_flow_cmd b (pod_out_flow c vf))) u = (Inr o3, s')"
    by (auto simp: AddPodRailFlows_def split: prod.splits sum.splits)
  note sp = pod_flow_plain [OF assms(2,3)]
  note p1 = run_add_flow [OF assms(1) sp(1) pod_flow_cookies(1) assms(4) 1]
  have m2: "marked (view (env t)) p b" using assms(4) pod_change_same(5) [OF p1] by simp
  note p2 = run_add_flow [OF assms(1) sp(2) pod_flow_cookies(2) m2 2]
  have m3: "marked (view (env u)) p b" using m2 pod_change_same(5) [OF p2] by simp
  note p3 = run_add_flow [OF assms(1) sp(3) pod_flow_cookies(3) m3 3]
  show ?thesis
    by (rule pod_change_mono [OF pod_change_trans [OF p1 pod_change_trans [OF p2 p3]]]) (auto simp: pod_flows_def)
qed

lemma handle_pod_flows_None:
  assumes "multierr_law app" "\<forall>ns \<in> set nss. nstat_IPs ns \<noteq> []"
    and "run_state (handle_pod_flows app sh (NewFlows app fs sh) c uid nss errs) s = (Returned None, s')"
  shows "errs = None"
proof -
  have "trace_spec (handle_pod_flows app sh (NewFlows app fs sh) c uid nss errs) (pod_pass c uid nss errs)"
    by (rule flows_api.handle_pod_flows_pass [OF NewFlows_api [OF assms(1)] assms(1,2)])
  from trace_run [OF this, of s] assms(3) show ?thesis by (auto simp: pod_pass_def pass_def)
qed

lemma managed_effect:
  assumes "plain_word b" "plain_word uid" "run_state (IsBridgeManagedByRailCNI sh b uid) s = (Inr m, t)"
  shows "view (env t) = view (env s) \<and> m = marked (view (env s)) uid b"
proof -
  from assms(3) obtain out where "run_state (Execute sh (get_external_id_cmd b uid)) s = (Inr out, t)" "m = (out = RailPodID)"
    by (auto simp: IsBridgeManagedByRailCNI_def split: prod.splits sum.splits)
  with get_mark [OF assms(1,2)] show ?thesis by blast
qed

text \<open>One interface: what a run of the loop over \<open>ns # nss\<close> without errors has done for \<open>ns\<close>.\<close>

lemma handle_iface_effect:
  assumes law: "multierr_law app" and uid: "plain_word uid" and wf: "ovs_wf (view (env s))" "ports_wf (view (env s))"
    and ns: "iface_wf (view (env s)) uid ns" and ips: "\<forall>n \<in> set nss. nstat_IPs n \<noteq> []"
    and run: "run_state (handle_pod_flows app sh (NewFlows app fs sh) c uid (ns # nss) errs) s = (Returned None, s')"
  obtains u where "run_state (handle_pod_flows app sh (NewFlows app fs sh) c uid nss None) u = (Returned None, s')"
    "pod_change same uid c (iface_flows (view (env s)) uid c ns) (view (env s)) (view (env u))"
proof -
  note none = handle_pod_flows_None [OF law ips]
  have errs: "errs = None" using handle_pod_flows_None [OF law _ run] ips ns by (simp add: iface_wf_def)
  obtain r1 t1 where 1: "run_state (Execute sh (iface_rep_cmd (nstat_Interface ns) uid)) s = (r1, t1)" by fastforce
  from run 1 none law obtain rep where r1: "r1 = Inr rep"
    by (cases r1) (auto simp: getIfaceRep_def dest!: none)
  have "view (env t1) = view (env s)" "ovs_cont_port (view (env s)) (nstat_Interface ns) uid = Some rep"
    using find_port [OF _ uid Execute_answers [OF 1 [unfolded r1]]] ns by (auto simp: iface_wf_def)
  note v1 = this
  have rep: "plain_word rep" using wf(2) v1(2) by (auto simp: ports_wf_def)
  obtain r2 t2 where 2: "run_state (Execute sh (iface_to_br_cmd rep)) t1 = (r2, t2)" by fastforce
  from run 1 2 r1 law obtain b where r2: "r2 = Inr b"
    by (cases r2) (auto simp: getIfaceRep_def repToBridge_exec dest!: none)
  have v2: "view (env t2) = view (env s)" "ovs_port_br (view (env s)) rep = Some b"
    using iface_to_br [OF rep Execute_answers [OF 2 [unfolded r2]]] v1 by auto
  have b: "plain_word b" using wf v2(2) unfolding ovs_wf_def ports_wf_def by blast
  obtain r3 t3 where 3: "run_state (IsBridgeManagedByRailCNI sh b uid) t2 = (r3, t3)" by fastforce
  from run 1 2 3 r1 r2 law obtain m where r3: "r3 = Inr m"
    by (cases r3) (auto simp: getIfaceRep_def repToBridge_exec NewFlows_calls dest!: none)
  have v3: "view (env t3) = view (env s)" "m = marked (view (env s)) uid b"
    using managed_effect [OF b uid 3 [unfolded r3]] v2 by auto
  note step = run 1 2 3 r1 r2 r3 errs
  show ?thesis
  proof (cases m)
    case False
    with step have "run_state (handle_pod_flows app sh (NewFlows app fs sh) c uid nss None) t3 = (Returned None, s')"
      by (simp add: getIfaceRep_def repToBridge_exec NewFlows_calls)
    moreover have "pod_change same uid c (iface_flows (view (env s)) uid c ns) (view (env s)) (view (env s))"
      by (rule pod_change_mono [OF pod_change_refl]) (use v1 v2 v3 False in \<open>auto simp: iface_flows_def\<close>)
    ultimately show ?thesis using that v3 by metis
  next
    case True
    from ns obtain ip rest where ip: "nstat_IPs ns = ip # rest" "CHR '' '' \<notin> set ip"
      by (cases "nstat_IPs ns") (auto simp: iface_wf_def)
    obtain e t4 where 4: "run_state (AddPodRailFlows sh c rep b ip) t3 = (e, t4)" by fastforce
    have e: "e = None"
      using step True ip 4 law
      by (cases e) (auto simp: getIfaceRep_def repToBridge_exec NewFlows_calls dest!: none)
    have "run_state (handle_pod_flows app sh (NewFlows app fs sh) c uid nss None) t4 = (Returned None, s')"
      using step True ip 4 e by (simp add: getIfaceRep_def repToBridge_exec NewFlows_calls)
    moreover have "pod_change same uid c ((\<lambda>_. {})(b := pod_flows c ip rep)) (view (env s)) (view (env t4))"
      using AddPodRailFlows_effect [OF b ip(2) _ _ 4 [unfolded e]] rep True v3 by (auto simp: plain_word_def)
    moreover have "(\<lambda>_. {})(b := pod_flows c ip rep) = iface_flows (view (env s)) uid c ns"
      using v1 v2 ip by (auto simp: iface_flows_def fun_eq_iff)
    ultimately show ?thesis using that by metis
  qed
qed

lemma handle_pod_flows_effect:
  assumes law: "multierr_law app" and uid: "plain_word uid"
  shows "run_state (handle_pod_flows app sh (NewFlows app fs sh) c uid nss errs) s = (Returned None, s') \<Longrightarrow>
    ovs_wf (view (env s)) \<Longrightarrow> ports_wf (view (env s)) \<Longrightarrow> \<forall>ns \<in> set nss. iface_wf (view (env s)) uid ns \<Longrightarrow>
    pod_change same uid c (ifaces_flows (view (env s)) uid c nss) (view (env s)) (view (env s'))"
proof (induction nss arbitrary: errs s)
  case (Cons ns nss)
  have "\<forall>n \<in> set nss. nstat_IPs n \<noteq> []" "iface_wf (view (env s)) uid ns"
    using Cons.prems(4) by (auto simp: iface_wf_def)
  from handle_iface_effect [OF law uid Cons.prems(2,3) this(2,1) Cons.prems(1)]
  obtain u where u: "run_state (handle_pod_flows app sh (NewFlows app fs sh) c uid nss None) u = (Returned None, s')"
    "pod_change same uid c (iface_flows (view (env s)) uid c ns) (view (env s)) (view (env u))" .
  from pod_change_wf [OF u(2)] Cons.prems
  have "pod_change same uid c (ifaces_flows (view (env u)) uid c nss) (view (env u)) (view (env s'))"
    by (intro Cons.IH [OF u(1)]) auto
  with pod_change_trans [OF u(2)] ifaces_flows_change [OF u(2)] show ?case by simp
qed simp

lemma handlePodFlows_effect:
  assumes "multierr_law app" "plain_word (pod_UID pod)" "ovs_wf (view (env s))" "ports_wf (view (env s))"
    and "\<forall>ns \<in> set nss. iface_wf (view (env s)) (pod_UID pod) ns"
    and "run_state (handlePodFlows app sh (NewFlows app fs sh) pod nss) s = (Returned None, s')"
    and "c = GenerateUint64FromString (pod_UID pod)"
  shows "pod_change same (pod_UID pod) c (ifaces_flows (view (env s)) (pod_UID pod) c nss) (view (env s)) (view (env s'))"
  using handle_pod_flows_effect [OF assms(1,2) assms(6) [unfolded handlePodFlows_def] assms(3-5)] assms(7) by simp

end

section \<open>A switch that keeps the contract\<close>

text \<open>It takes the words of a command line apart and does what they say.\<close>

definition reply :: "string \<Rightarrow> ovs \<Rightarrow> sh_outcome \<times> ovs" where
  "reply out v = (\<lparr>sh_out = out @ newline, sh_err = None, sh_deadline = False\<rparr>, v)"

definition refuse :: "ovs \<Rightarrow> sh_outcome \<times> ovs" where
  "refuse v = (\<lparr>sh_out = [], sh_err = Some ''exit status 1'', sh_deadline = False\<rparr>, v)"

definition vsctl :: "string list \<Rightarrow> ovs \<Rightarrow> sh_outcome \<times> ovs" where
  "vsctl ws v =
     (if ws = [''list-br''] then reply (Join CHR 0x0A (ovs_bridges v)) v
      else if length ws = 2 \<and> hd ws = ''br-get-external-id'' then reply (print_tags (ovs_tags v (ws ! 1))) v
      else if length ws = 3 \<and> hd ws = ''br-get-external-id'' then
        reply (case tag_of v (ws ! 1) (ws ! 2) of Some x \<Rightarrow> x | None \<Rightarrow> []) v
      else if length ws = 5 \<and> hd ws = ''remove'' then reply [] (drop_tag (ws ! 2) (ws ! 4) v)
      else if length ws = 2 \<and> hd ws = ''iface-to-br'' then
        (case ovs_port_br v (ws ! 1) of Some b \<Rightarrow> reply b v | None \<Rightarrow> refuse v)
      else if length ws = 6 \<and> hd ws = ''--no-heading'' then
        reply (case ovs_cont_port v (drop 23 (ws ! 4)) (drop 24 (ws ! 5)) of Some p \<Rightarrow> p | None \<Rightarrow> []) v
      else refuse v)"

definition ofctl :: "string list \<Rightarrow> ovs \<Rightarrow> sh_outcome \<times> ovs" where
  "ofctl ws v =
     (if length ws = 3 \<and> hd ws = ''del-flows'' then
        reply [] (v\<lparr>ovs_rules := (ovs_rules v)(ws ! 1 := (\<lambda>c. if ws ! 2 = ''cookie=0x'' @ fmt_x c @ ''/-1'' then {} else ovs_rules v (ws ! 1) c))\<rparr>)
      else if length ws = 3 \<and> hd ws = ''add-flow'' then
        (case flow_cookie (butlast (tl (ws ! 2))) of
           Some c \<Rightarrow> reply [] (put_rule (\<lambda>f g. flow_fields f = flow_fields g) (ws ! 1) c (butlast (tl (ws ! 2))) v)
         | None \<Rightarrow> refuse v)
      else refuse v)"

definition ovs_sim :: "ovs shell" where
  "ovs_sim cmd v =
     (case Split cmd CHR '' '' of
        [] \<Rightarrow> refuse v
      | tool # ws \<Rightarrow> if tool = ''ovs-vsctl'' then vsctl ws v else if tool = ''ovs-ofctl'' then ofctl ws v else refuse v)"

lemma command_words:
  assumes "CHR '' '' \<notin> set a" "CHR '' '' \<notin> set b"
  shows "Split list_br_cmd CHR '' '' = [''ovs-vsctl'', ''list-br'']"
    "Split (get_external_id_cmd a b) CHR '' '' = [''ovs-vsctl'', ''br-get-external-id'', a, b]"
    "Split (get_external_ids_cmd a) CHR '' '' = [''ovs-vsctl'', ''br-get-external-id'', a]"
    "Split (remove_external_id_cmd a b) CHR '' '' = [''ovs-vsctl'', ''remove'', ''bridge'', a, ''external_ids'', b]"
    "Split (iface_to_br_cmd a) CHR '' '' = [''ovs-vsctl'', ''iface-to-br'', a]"
    "Split (del_flows_cmd a c) CHR '' '' = [''ovs-ofctl'', ''del-flows'', a, ''cookie=0x'' @ fmt_x c @ ''/-1'']"
  using assms
  by (simp_all add: list_br_cmd_def get_external_id_cmd_def get_external_ids_cmd_def remove_external_id_cmd_def
      iface_to_br_cmd_def del_flows_cmd_def Split_append_sep Split_no_sep)

lemma add_flow_words:
  assumes "CHR '' '' \<notin> set b" "CHR '' '' \<notin> set f"
  shows "Split (add_flow_cmd b f) CHR '' '' = [''ovs-ofctl'', ''add-flow'', b, CHR 0x22 # f @ [CHR 0x22]]"
  using assms by (simp add: add_flow_cmd_def Split_append_sep Split_no_sep)

lemma iface_rep_words:
  assumes "CHR '' '' \<notin> set i" "CHR '' '' \<notin> set u"
  shows "Split (iface_rep_cmd i u) CHR '' '' = [''ovs-vsctl'', ''--no-heading'', ''--columns=name'', ''find'', ''Port'',
    ''external_ids:contIface='' @ i, ''external_ids:contPodUid='' @ u]"
  using assms by (simp add: iface_rep_cmd_def Split_append_sep Split_no_sep)

lemma plain_no_space: "plain_word s \<Longrightarrow> CHR '' '' \<notin> set s"
  by (simp add: plain_word_def)

text \<open>What the switch does for each command of the program.\<close>

lemma sim_list_br: "ovs_sim list_br_cmd v = reply (Join CHR 0x0A (ovs_bridges v)) v"
  using command_words(1) [of "[]" "[]"] by (simp add: ovs_sim_def vsctl_def)

lemma sim_get_id:
  "plain_word b \<Longrightarrow> plain_word k \<Longrightarrow>
   ovs_sim (get_external_id_cmd b k) v = reply (case tag_of v b k of Some x \<Rightarrow> x | None \<Rightarrow> []) v"
  using command_words(2) [OF plain_no_space plain_no_space] by (simp add: ovs_sim_def vsctl_def)

lemma sim_get_ids: "plain_word b \<Longrightarrow> ovs_sim (get_external_ids_cmd b) v = reply (print_tags (ovs_tags v b)) v"
  using command_words(3) [OF plain_no_space plain_no_space] by (simp add: ovs_sim_def vsctl_def)

lemma sim_del_flows: "plain_word b \<Longrightarrow> ovs_sim (del_flows_cmd b c) v = reply [] (drop_rules b c v)"
proof -
  assume b: "plain_word b"
  have "(\<lambda>c'. if fmt_x c = fmt_x c' then {} else ovs_rules v b c') = (ovs_rules v b)(c := {})"
    by (auto simp: fun_eq_iff)
  with command_words(6) [OF plain_no_space plain_no_space, OF b b, of c] show ?thesis
    by (simp add: ovs_sim_def ofctl_def drop_rules_def cong: if_cong)
qed

lemma sim_remove_id:
  "plain_word b \<Longrightarrow> plain_word k \<Longrightarrow> ovs_sim (remove_external_id_cmd b k) v = reply [] (drop_tag b k v)"
  using command_words(4) [OF plain_no_space plain_no_space] by (simp add: ovs_sim_def vsctl_def)

lemma sim_add_flow:
  "plain_word b \<Longrightarrow> CHR '' '' \<notin> set f \<Longrightarrow> flow_cookie f = Some c \<Longrightarrow>
   ovs_sim (add_flow_cmd b f) v = reply [] (put_rule (\<lambda>f g. flow_fields f = flow_fields g) b c f v)"
  using add_flow_words [OF plain_no_space] by (simp add: ovs_sim_def ofctl_def)

lemma sim_iface_rep:
  "plain_word i \<Longrightarrow> plain_word u \<Longrightarrow>
   ovs_sim (iface_rep_cmd i u) v = reply (case ovs_cont_port v i u of Some p \<Rightarrow> p | None \<Rightarrow> []) v"
  using iface_rep_words [OF plain_no_space plain_no_space] by (simp add: ovs_sim_def vsctl_def)

lemma sim_iface_to_br:
  "plain_word p \<Longrightarrow>
   ovs_sim (iface_to_br_cmd p) v = (case ovs_port_br v p of Some b \<Rightarrow> reply b v | None \<Rightarrow> refuse v)"
  using command_words(5) [OF plain_no_space plain_no_space] by (simp add: ovs_sim_def vsctl_def)

lemmas sim_commands = sim_list_br sim_get_id sim_get_ids sim_del_flows sim_remove_id sim_add_flow sim_iface_rep sim_iface_to_br

lemma answers_reply [simp]: "sh c w = reply out v \<Longrightarrow> answers sh c w out' w' \<longleftrightarrow> out' = out \<and> w' = v"
  by (auto simp: answers_def reply_def)

lemma answers_refuse [simp]: "sh c w = refuse v \<Longrightarrow> \<not> answers sh c w out' w'"
  by (auto simp: answers_def refuse_def)

lemma run_reply:
  "ovs_sim c (env s) = reply out v \<Longrightarrow>
   run_state (Execute ovs_sim c) s = (Inr out, s\<lparr>env := v, events := events s @ [Cmd c (Inr out)]\<rparr>)"
  by (simp add: Execute_def reply_def)

interpretation simovs: ovs_switch ovs_sim "\<lambda>v. v" "\<lambda>f g. flow_fields f = flow_fields g"
proof unfold_locales
  fix p out and w w' :: ovs
  assume "plain_word p" "answers ovs_sim (iface_to_br_cmd p) w out w'"
  then show "w' = w \<and> ovs_port_br w p = Some out"
    using sim_iface_to_br [of p w] by (cases "ovs_port_br w p") auto
qed (simp_all add: sim_commands)

section \<open>Properties\<close>

text \<open>
  Property C14. The life of a pod on the switch, when its rules were added without error and later deleted
  without error. In between, every bridge that is marked for the pod has, with the pod's cookie, a rule with
  the match and priority of each of the three rules of every interface whose port is on that bridge. Afterwards no bridge is marked for the pod,
  and on the bridges that were, the rules with its cookie are gone. No other rule has come; and
  another rule is gone only if its bridge was marked for the pod and Open vSwitch has replaced it by one
  of the pod's rules because both have the same match and priority, as when the pod reuses an address.
\<close>

theorem pod_rules_come_and_go:
  assumes "ovs_switch sh view same" "multierr_law app" "plain_word (pod_UID pod)"
    and "ovs_wf (view (env s))" "ports_wf (view (env s))"
    and "\<forall>ns \<in> set nss. iface_wf (view (env s)) (pod_UID pod) ns"
    and "run_state (handlePodFlows app sh (NewFlows app fs sh) pod nss) s = (Returned None, s1)"
    and "run_state (DeletePodRailFlows app sh c (pod_UID pod)) s1 = (None, s2)"
    and "c = GenerateUint64FromString (pod_UID pod)"
    and "v = view (env s)" "v1 = view (env s1)" "v2 = view (env s2)" "F = ifaces_flows v (pod_UID pod) c nss"
  shows "(\<forall>b. marked v (pod_UID pod) b \<longrightarrow> (\<forall>f \<in> F b. has_rule same v1 b c f)) \<and>
    (\<forall>b \<in> set (ovs_bridges v). \<not> marked v2 (pod_UID pod) b \<and> (marked v (pod_UID pod) b \<longrightarrow> ovs_rules v2 b c = {})) \<and>
    (\<forall>b. \<not> marked v (pod_UID pod) b \<longrightarrow> ovs_rules v2 b = ovs_rules v b) \<and>
    (\<forall>b c'. c' \<noteq> c \<longrightarrow> ovs_rules v2 b c' \<subseteq> ovs_rules v b c' \<and>
       (\<forall>f \<in> ovs_rules v b c'. f \<in> ovs_rules v2 b c' \<or> (\<exists>g \<in> F b. same g f)))"
proof -
  let ?u = "pod_UID pod"
  have add: "pod_change same ?u c F v v1"
    using ovs_switch.handlePodFlows_effect [OF assms(1-7) assms(9)] by (simp only: assms(10,11,13))
  have wf1: "ovs_wf (view (env s1))" using pod_change_wf [OF add] assms(4) by (simp add: assms(10,11))
  have del: "v2 = forget_on (set (ovs_bridges v1)) ?u c v1"
    using ovs_switch.DeletePodRailFlows_effect [OF assms(1-3) wf1 assms(8)] by (simp only: assms(11,12))
  note t = pod_change_same(1,5) [OF add]
  have "\<not> marked v2 ?u b \<and> (marked v ?u b \<longrightarrow> ovs_rules v2 b c = {})" if "b \<in> set (ovs_bridges v)" for b
    using that t unfolding del marked_forget_on by (simp add: forget_on_def)
  moreover have "ovs_rules v2 b = ovs_rules v b" if "\<not> marked v ?u b" for b
    using that t add by (simp add: del forget_on_def pod_change_def)
  moreover have "ovs_rules v2 b c' = ovs_rules v1 b c'" if "c' \<noteq> c" for b c'
    using that by (simp add: del forget_on_def)
  ultimately show ?thesis using add unfolding pod_change_def by simp
qed

text \<open>A switch with one bridge, marked for the pod \<open>uid\<close>, whose interface has a port on it.\<close>

definition demo_switch :: ovs where
  "demo_switch = \<lparr>ovs_bridges = [''br0''], ovs_rules = (\<lambda>_ _. {}), ovs_tags = (\<lambda>_. [(''uid'', RailPodID)]),
     ovs_port_br = (\<lambda>_. Some ''br0''), ovs_cont_port = (\<lambda>_ _. Some ''p0'')\<rparr>"

lemma demo_switch_wf: "ovs_wf demo_switch" "ports_wf demo_switch" "iface_wf demo_switch ''uid'' (demo_net [''10.0.0.1''])"
  by (auto simp: demo_switch_def ovs_wf_def ports_wf_def iface_wf_def demo_net_def plain_word_def RailPodID_def)

text \<open>The concrete switch answers every command, so the two passes end without error on it.\<close>

lemma sim_clean: "plain_word b \<Longrightarrow> plain_word k \<Longrightarrow> fst (run_state (cleanBridgeFlows ovs_sim b k c) s) = None"
  by (simp add: cleanBridgeFlows_def run_reply [OF sim_del_flows] run_reply [OF sim_remove_id] del: fun_upd_apply)

lemma sim_delete:
  assumes "plain_word k"
  shows "\<forall>b \<in> set bs. plain_word b \<Longrightarrow> fst (run_state (delete_pod_flows app ovs_sim c k bs None) s) = None"
proof (induction bs arbitrary: s)
  case (Cons b bs)
  from sim_clean [of b k c] Cons.prems assms have clean: "fst (run_state (cleanBridgeFlows ovs_sim b k c) t) = None" for t
    by simp
  from Cons assms show ?case
    by (auto simp: run_reply [OF sim_get_id] split: prod.splits) (metis clean fst_conv option.simps(4))
qed simp

lemma sim_DeletePodRailFlows:
  assumes "plain_word k" "ovs_wf (env s)"
  shows "fst (run_state (DeletePodRailFlows app ovs_sim c k) s) = None"
proof -
  have "Split (Join CHR 0x0A (ovs_bridges (env s))) CHR 0x0A = ovs_bridges (env s)"
    using assms(2) by (intro Split_Join) (auto simp: ovs_wf_def plain_word_def)
  then show ?thesis
    using sim_delete [OF assms(1), of "ovs_bridges (env s)"] assms(2)
    by (simp add: DeletePodRailFlows_def run_reply [OF sim_list_br] ovs_wf_def)
qed

lemma sim_AddPodRailFlows:
  assumes "plain_word b" "CHR '' '' \<notin> set ip" "CHR '' '' \<notin> set vf"
  shows "fst (run_state (AddPodRailFlows ovs_sim c vf b ip) s) = None"
  using assms
  by (simp add: AddPodRailFlows_def run_reply [OF sim_add_flow [OF _ pod_flow_plain(1) pod_flow_cookies(1)]]
      run_reply [OF sim_add_flow [OF _ pod_flow_plain(2) pod_flow_cookies(2)]]
      run_reply [OF sim_add_flow [OF _ pod_flow_plain(3) pod_flow_cookies(3)]] del: fun_upd_apply)

lemma demo_pod_added:
  "fst (run_state (handlePodFlows first_error ovs_sim (NewFlows first_error demo_sysfs ovs_sim) demo_pod
     [demo_net [''10.0.0.1'']]) \<lparr>events = [], env = demo_switch\<rparr>) = Returned None"
proof -
  have w: "plain_word ''net1''" "plain_word ''uid''" "plain_word ''p0''" "plain_word ''br0''"
    by (simp_all add: plain_word_def)
  have d: "ovs_cont_port demo_switch i u = Some ''p0''" "ovs_port_br demo_switch p = Some ''br0''"
    "tag_of demo_switch b ''uid'' = Some RailPodID" for i u p b
    by (simp_all add: demo_switch_def tag_of_def)
  have add: "fst (run_state (AddPodRailFlows ovs_sim c ''p0'' ''br0'' ''10.0.0.1'') s) = None" for c s
    by (rule sim_AddPodRailFlows) (simp_all add: plain_word_def)
  have port: "run_state (Execute ovs_sim (iface_to_br_cmd ''p0'')) s =
      (Inr ''br0'', s\<lparr>events := events s @ [Cmd (iface_to_br_cmd ''p0'') (Inr ''br0'')]\<rparr>)" if "env s = demo_switch" for s
    using run_reply [of "iface_to_br_cmd ''p0''" s "''br0''" demo_switch] that by (simp add: sim_iface_to_br [OF w(3)] d)
  show ?thesis
    unfolding handlePodFlows_def demo_pod_def demo_net_def
    by (simp add: getIfaceRep_def repToBridge_exec NewFlows_calls IsBridgeManagedByRailCNI_def
        run_reply [OF sim_iface_rep [OF w(1,2)]] port run_reply [OF sim_get_id [OF w(4,2)]] d del: fun_upd_apply
        split: prod.splits option.splits) (metis add fst_conv option.distinct(1))
qed

theorem pod_rules_come_and_go_witness:
  "let s1 = snd (run_state (handlePodFlows first_error ovs_sim (NewFlows first_error demo_sysfs ovs_sim) demo_pod
       [demo_net [''10.0.0.1'']]) \<lparr>events = [], env = demo_switch\<rparr>);
     s2 = snd (run_state (DeletePodRailFlows first_error ovs_sim (GenerateUint64FromString ''uid'') ''uid'') s1) in
   has_rule (\<lambda>f g. flow_fields f = flow_fields g) (env s1) ''br0'' (GenerateUint64FromString ''uid'')
     (pod_out_flow (GenerateUint64FromString ''uid'') ''p0'') \<and>
   ovs_rules (env s2) ''br0'' (GenerateUint64FromString ''uid'') = {} \<and> \<not> marked (env s2) ''uid'' ''br0''"
proof -
  let ?run = "run_state (handlePodFlows first_error ovs_sim (NewFlows first_error demo_sysfs ovs_sim) demo_pod
       [demo_net [''10.0.0.1'']]) \<lparr>events = [], env = demo_switch\<rparr>"
  have uid: "pod_UID demo_pod = ''uid''" and p: "plain_word ''uid''" by (simp_all add: demo_pod_def plain_word_def)
  obtain s1 where r1: "?run = (Returned None, s1)" using demo_pod_added by (metis prod.collapse)
  have ok: "\<forall>ns \<in> set [demo_net [''10.0.0.1'']]. iface_wf demo_switch (pod_UID demo_pod) ns"
    using demo_switch_wf(3) uid by simp
  let ?c = "GenerateUint64FromString ''uid''" and ?F = "ifaces_flows demo_switch ''uid'' (GenerateUint64FromString ''uid'') [demo_net [''10.0.0.1'']]"
  from simovs.handlePodFlows_effect [OF first_error_law _ _ _ _ r1] p demo_switch_wf ok
  have "pod_change (\<lambda>f g. flow_fields f = flow_fields g) ''uid'' ?c ?F demo_switch (env s1)" by (simp add: uid)
  then have wf: "ovs_wf (env s1)" using pod_change_wf demo_switch_wf by blast
  obtain s2 where r2: "run_state (DeletePodRailFlows first_error ovs_sim (GenerateUint64FromString ''uid'') ''uid'') s1 = (None, s2)"
    using sim_DeletePodRailFlows [OF p wf] by (metis prod.collapse)
  have tag: "marked demo_switch ''uid'' ''br0''" "''br0'' \<in> set (ovs_bridges demo_switch)"
    by (simp_all add: demo_switch_def tag_of_def)
  have F: "?F ''br0'' = pod_flows ?c ''10.0.0.1'' ''p0''"
    by (simp add: iface_flows_def demo_switch_def demo_net_def)
  have "(\<forall>b. marked demo_switch ''uid'' b \<longrightarrow> (\<forall>f \<in> ?F b. has_rule (\<lambda>f g. flow_fields f = flow_fields g) (env s1) b ?c f)) \<and>
      (\<forall>b \<in> set (ovs_bridges demo_switch). \<not> marked (env s2) ''uid'' b \<and> (marked demo_switch ''uid'' b \<longrightarrow> ovs_rules (env s2) b ?c = {}))"
    using pod_rules_come_and_go [OF simovs.ovs_switch_axioms first_error_law _ _ _ _ r1, unfolded uid,
      OF p _ _ _ r2 refl refl refl refl refl] demo_switch_wf ok [unfolded uid] by (simp del: ifaces_flows_simps)
  with tag F have "has_rule (\<lambda>f g. flow_fields f = flow_fields g) (env s1) ''br0'' ?c (pod_out_flow ?c ''p0'')"
    "ovs_rules (env s2) ''br0'' ?c = {} \<and> \<not> marked (env s2) ''uid'' ''br0''"
    unfolding pod_flows_def by blast+
  with r2 show ?thesis unfolding Let_def r1 snd_conv by simp
qed

text \<open>
  Property C15. A pass of the stale-flow cleaner that ends without error and for which at least one pod is
  listed has this effect on the switch: on every bridge, for every pod that is marked there and is not among
  the pods listed, the rules with its cookie and its tag are gone; rules whose cookie belongs to no such
  pod and all other tags are untouched, on every bridge. (When no pod is listed the pass ends without error
  and cleans nothing. The list of the pods is read from the API server, which leaves the switch alone.)
\<close>

theorem cleaner_purges_switch:
  assumes "ovs_switch sh view same" "multierr_law app" "ovs_wf (view (env s))"
    and "list_Pods cl (env s) = (Inr pods, w1)" "view w1 = view (env s)" "pods \<noteq> []"
    and "run_state (cleanupStaleFlows \<lparr>cl_Client = cl, CleanupInterval = i, cl_Flows = NewFlows app fs sh\<rparr>) s = (None, s')"
    and "v = view (env s)" "v' = view (env s')"
    and "G = (\<lambda>b. {k. \<exists>x. (k, x) \<in> set (ovs_tags v b) \<and> rail_mark x \<and> k \<notin> pod_UID ` set pods})"
  shows "(\<forall>b \<in> set (ovs_bridges v). \<forall>k \<in> G b. ovs_rules v' b (GenerateUint64FromString k) = {} \<and> tag_of v' b k = None) \<and>
    (\<forall>b c. c \<notin> GenerateUint64FromString ` G b \<longrightarrow> ovs_rules v' b c = ovs_rules v b c) \<and>
    (\<forall>b k. k \<notin> G b \<longrightarrow> tag_of v' b k = tag_of v b k) \<and>
    (\<forall>b. b \<notin> set (ovs_bridges v) \<longrightarrow> ovs_rules v' b = ovs_rules v b \<and> ovs_tags v' b = ovs_tags v b)"
proof -
  define m where "m = CleanupStaleFlowsForBridges app sh (mark_existing Map.empty pods)"
  obtain e where "run_state m (s\<lparr>env := w1\<rparr>) = (e, s')" "e = None"
    using assms(4,6,7) by (cases "run_state m (s\<lparr>env := w1\<rparr>)")
      (auto simp: cleanupStaleFlows_def m_def NewFlows_calls split: option.splits)
  then have "v' = purge_on (set (ovs_bridges v)) (mark_existing Map.empty pods) v"
    using ovs_switch.CleanupStaleFlows_effect [OF assms(1,2), of "s\<lparr>env := w1\<rparr>"] assms(3,5,8,9) by (simp add: m_def)
  moreover have "gone_pods (mark_existing Map.empty pods) v b = G b" for b
    by (auto simp: gone_pods_def assms(10) mark_existing_lookup)
  ultimately have v': "ovs_rules v' b = (\<lambda>c. if b \<in> set (ovs_bridges v) \<and> c \<in> GenerateUint64FromString ` G b then {} else ovs_rules v b c)"
    "ovs_tags v' b = (if b \<in> set (ovs_bridges v) then filter (\<lambda>kv. fst kv \<notin> G b) (ovs_tags v b) else ovs_tags v b)" for b
    by (simp_all add: purge_on_def)
  have dropped: "map_of (filter (\<lambda>kv. fst kv \<notin> K) xs) k = (if k \<in> K then None else map_of xs k)" for K k and xs :: "(string \<times> string) list"
    by (induction xs) auto
  show ?thesis by (simp add: v' tag_of_def dropped)
qed

lemma sim_clean_stale:
  assumes "plain_word b"
  shows "\<forall>p \<in> set ps. plain_word (fst p) \<Longrightarrow> fst (run_state (clean_stale_pods app ovs_sim b ps None) s) = None"
proof (induction ps arbitrary: s)
  case (Cons q ps)
  obtain k c where q: "q = (k, c)" by (cases q)
  with sim_clean [OF assms, of k c] Cons.prems have clean: "fst (run_state (cleanBridgeFlows ovs_sim b k c) t) = None" for t
    by simp
  from Cons show ?case by (auto simp: q split: prod.splits) (metis clean fst_conv option.simps(4))
qed simp

lemma sim_cleanup:
  "\<forall>b \<in> set bs. plain_word b \<Longrightarrow> ovs_wf (env s) \<Longrightarrow>
   fst (run_state (cleanup_bridges first_error ovs_sim existing bs None) s) = None"
proof (induction bs arbitrary: s)
  case (Cons b bs)
  define ps where "ps = stale_pods existing (Split (print_tags (ovs_tags (env s) b)) CHR 0x0A)"
  define t where "t = s\<lparr>events := events s @ [Cmd (get_external_ids_cmd b) (Inr (print_tags (ovs_tags (env s) b)))]\<rparr>"
  have b: "plain_word b" using Cons.prems(1) by simp
  have get: "run_state (Execute ovs_sim (get_external_ids_cmd b)) s = (Inr (print_tags (ovs_tags (env s) b)), t)"
    using run_reply [OF sim_get_ids [OF b]] by (simp add: t_def)
  have ps: "\<forall>p \<in> set ps. plain_word (fst p)"
    using Cons.prems(2) stale_pods_printed [of "ovs_tags (env s) b" existing] unfolding ps_def ovs_wf_def by auto
  obtain u where u: "run_state (clean_stale_pods first_error ovs_sim b ps None) t = (None, u)"
    using sim_clean_stale [OF b ps] by (metis prod.collapse)
  have "env u = purge_on {b} existing (env s)"
    using simovs.clean_stale_pods_effect [OF first_error_law b u ps] clean_on_stale [OF Cons.prems(2)]
    by (simp add: t_def ps_def)
  then have "fst (run_state (cleanup_bridges first_error ovs_sim existing bs None) u) = None"
    using Cons ovs_wf_purge [OF Cons.prems(2), of "{b}" existing] by simp
  then show ?case using get u by (simp add: ps_def)
qed simp

theorem cleaner_purges_switch_witness:
  "let s' = snd (run_state (cleanupStaleFlows \<lparr>cl_Client = listing [cleaner_pod ''live''], CleanupInterval = 0,
       cl_Flows = NewFlows first_error demo_sysfs ovs_sim\<rparr>) \<lparr>events = [], env = demo_switch\<rparr>) in
   ovs_rules (env s') ''br0'' (GenerateUint64FromString ''uid'') = {} \<and> tag_of (env s') ''br0'' ''uid'' = None"
proof -
  let ?cl = "\<lparr>cl_Client = listing [cleaner_pod ''live''], CleanupInterval = 0, cl_Flows = NewFlows first_error demo_sysfs ovs_sim\<rparr>"
  let ?s = "\<lparr>events = [], env = demo_switch\<rparr>"
  have pods: "list_Pods (listing [cleaner_pod ''live''] :: ovs Client) demo_switch = (Inr [cleaner_pod ''live''], demo_switch)"
    by (simp add: listing_def)
  have "Split (Join CHR 0x0A (ovs_bridges demo_switch)) CHR 0x0A = ovs_bridges demo_switch"
    by (simp add: demo_switch_def)
  then have "fst (run_state (CleanupStaleFlowsForBridges first_error ovs_sim m) ?s) = None" for m
    using sim_cleanup [of "ovs_bridges demo_switch"] demo_switch_wf(1)
    by (simp add: CleanupStaleFlowsForBridges_def run_reply [OF sim_list_br] ovs_wf_def)
  then have "fst (run_state (cleanupStaleFlows ?cl) ?s) = None"
    by (auto simp: cleanupStaleFlows_def pods NewFlows_calls split: prod.splits option.splits) (metis fst_conv option.distinct(1))
  then obtain s' where run: "run_state (cleanupStaleFlows ?cl) ?s = (None, s')" by (metis prod.collapse)
  have live: "''uid'' \<notin> pod_UID ` set [cleaner_pod ''live'']" by (simp add: cleaner_pod_def)
  have "rail_mark RailPodID" by (simp add: rail_mark_def)
  with cleaner_purges_switch [OF simovs.ovs_switch_axioms first_error_law _ _ _ _ run refl refl refl, of "[cleaner_pod ''live'']" demo_switch]
    pods demo_switch_wf(1) live
  have "ovs_rules (env s') ''br0'' (GenerateUint64FromString ''uid'') = {} \<and> tag_of (env s') ''br0'' ''uid'' = None"
    by (simp add: demo_switch_def)
  then show ?thesis unfolding Let_def run snd_conv .
qed

end
