(* ===== verification/Status.thy ===== *)
theory Status
  imports Cluster
begin

text \<open>
  Status reporting of \<^verbatim>\<open>spectrumxrailpoolconfig_host_flows_controller.go\<close>: each agent writes the
  entry of its own node into the status of the custom resource and recomputes the overall status
  from the entries of all selected nodes. The Go code mutates the status of the object it was
  given; here the updated object is part of the result.
\<close>

section \<open>Aggregation\<close>

text \<open>The loop over the selected nodes; \<open>allSucceeded\<close> is its flag.\<close>

fun aggregate_nodes :: "int \<Rightarrow> (string \<Rightarrow> NodeState option) \<Rightarrow> Node list \<Rightarrow> bool \<Rightarrow> State" where
  "aggregate_nodes gen states [] allSucceeded =
     (if allSucceeded then SyncStatusSucceeded else SyncStatusInProgress)"
| "aggregate_nodes gen states (node # nodes) allSucceeded =
     (case states (node_Name node) of
        None \<Rightarrow> aggregate_nodes gen states nodes False
      | Some st \<Rightarrow>
          if ns_ObservedGeneration st \<noteq> gen then aggregate_nodes gen states nodes False
          else if ns_State st = SyncStatusFailed then SyncStatusFailed
          else if ns_State st = SyncStatusSucceeded then aggregate_nodes gen states nodes allSucceeded
          else aggregate_nodes gen states nodes False)"

definition aggregate :: "SpectrumXRailPoolConfig \<Rightarrow> Node list \<Rightarrow> State" where
  "aggregate rpc nodes =
     (if nodes = [] then SyncStatusInProgress
      else aggregate_nodes (Generation rpc)
             (index_by ns_Name (NodeStates (rpc_Status rpc)) Map.empty) nodes True)"

definition aggregateSyncStatus :: "'w HostReconciler \<Rightarrow> SpectrumXRailPoolConfig \<Rightarrow> ('w, State result) op" where
  "aggregateSyncStatus r rpc = do {
     nodeList \<leftarrow> observe (list_Nodes (kube r) (NodeSelector (rpc_Spec rpc)));
     case nodeList of
       Inl err \<Rightarrow> State_Monad.return (Inl (WrapError ''failed to list nodes for sync status aggregation: '' err []))
     | Inr nodes \<Rightarrow> State_Monad.return (Inr (aggregate rpc nodes))
   }"

section \<open>The status patch\<close>

text \<open>The object with the entry of the node written, and with the overall status on top of that.\<close>

definition with_node_state :: "SpectrumXRailPoolConfig \<Rightarrow> string \<Rightarrow> State \<Rightarrow> string \<Rightarrow> int \<Rightarrow> SpectrumXRailPoolConfig" where
  "with_node_state latest node newState message gen =
     latest\<lparr>rpc_Status := (rpc_Status latest)\<lparr>NodeStates :=
       put_node_state (NodeStates (rpc_Status latest)) node newState message gen\<rparr>\<rparr>"

definition with_sync_status :: "SpectrumXRailPoolConfig \<Rightarrow> State \<Rightarrow> int \<Rightarrow> SpectrumXRailPoolConfig" where
  "with_sync_status updated agg gen =
     updated\<lparr>rpc_Status := (rpc_Status updated)\<lparr>SyncStatus := agg, ObservedGeneration := gen\<rparr>\<rparr>"

definition status_unchanged :: "SpectrumXRailPoolConfig \<Rightarrow> string \<Rightarrow> State \<Rightarrow> string \<Rightarrow> int \<Rightarrow> State \<Rightarrow> bool" where
  "status_unchanged latest node newState message gen agg =
     (case node_state (NodeStates (rpc_Status latest)) node of
        None \<Rightarrow> False
      | Some current \<Rightarrow>
          ns_State current = newState \<and> ns_Message current = message \<and> ns_ObservedGeneration current = gen \<and>
          SyncStatus (rpc_Status latest) = agg \<and> ObservedGeneration (rpc_Status latest) = gen)"

definition generation_differs :: "int \<Rightarrow> int \<Rightarrow> string" where
  "generation_differs latest gen =
     ''latest generation '' @ fmt_d latest @ '' differs from reconcile generation '' @ fmt_d gen"

text \<open>The function that is retried: one read, one aggregation, and at most one patch.\<close>

definition sync_attempt :: "'w HostReconciler \<Rightarrow> int \<Rightarrow> State \<Rightarrow> string \<Rightarrow> 'w retried" where
  "sync_attempt r gen newState message rpc = do {
     got \<leftarrow> observe (get_RailPoolConfig (kube r) (rpc_Namespace rpc, rpc_Name rpc));
     case got of
       Inl err \<Rightarrow> State_Monad.return (Some err, rpc)
     | Inr latest \<Rightarrow>
         if Generation latest \<noteq> gen then
           State_Monad.return
             (Some (NewConflict (lib r) (rpc_Name rpc) (ErrorString (generation_differs (Generation latest) gen))), rpc)
         else do {
           first \<leftarrow> aggregateSyncStatus r latest;
           case first of
             Inl err \<Rightarrow> State_Monad.return (Some err, rpc)
           | Inr agg \<Rightarrow>
               if status_unchanged latest (nodeName r) newState message gen agg then
                 State_Monad.return (None, rpc\<lparr>rpc_Status := rpc_Status latest\<rparr>)
               else do {
                 second \<leftarrow> aggregateSyncStatus r (with_node_state latest (nodeName r) newState message gen);
                 case second of
                   Inl err \<Rightarrow> State_Monad.return (Some err, rpc)
                 | Inr agg' \<Rightarrow> do {
                     res \<leftarrow> status_call (kube r) latest
                       (with_sync_status (with_node_state latest (nodeName r) newState message gen) agg' gen);
                     case res of
                       Inl err \<Rightarrow> State_Monad.return (Some err, rpc)
                     | Inr server \<Rightarrow> State_Monad.return (None, rpc\<lparr>rpc_Status := rpc_Status server\<rparr>)
                   }
               }
         }
   }"

definition patchSyncStatusWithMessage ::
    "'w HostReconciler \<Rightarrow> SpectrumXRailPoolConfig \<Rightarrow> State \<Rightarrow> string \<Rightarrow> ('w, goerr option \<times> SpectrumXRailPoolConfig) op" where
  "patchSyncStatusWithMessage r rpc newState message =
     RetryOnConflict (lib r) (sync_attempt r (Generation rpc) newState message) rpc"

definition patchSyncStatus ::
    "'w HostReconciler \<Rightarrow> SpectrumXRailPoolConfig \<Rightarrow> State \<Rightarrow> ('w, goerr option \<times> SpectrumXRailPoolConfig) op" where
  "patchSyncStatus r rpc newState = patchSyncStatusWithMessage r rpc newState []"

definition localNodeMatchesSelector :: "'w HostReconciler \<Rightarrow> labels \<Rightarrow> ('w, bool result) op" where
  "localNodeMatchesSelector r nodeSelector = do {
     got \<leftarrow> observe (get_Node (kube r) (nodeName r));
     case got of
       Inl err \<Rightarrow> State_Monad.return (Inl (WrapError (''failed to get local node '' @ nodeName r @ '': '') err []))
     | Inr node \<Rightarrow> State_Monad.return (Inr (labels_Matches (lib r) nodeSelector (node_Labels node)))
   }"

definition localNodeStateSucceededForGeneration :: "'w HostReconciler \<Rightarrow> SpectrumXRailPoolConfig \<Rightarrow> bool" where
  "localNodeStateSucceededForGeneration r rpc =
     (case GetNodeState (NodeStates (rpc_Status rpc)) (nodeName r) of
        Inl _ \<Rightarrow> False
      | Inr i \<Rightarrow>
          ns_State (NodeStates (rpc_Status rpc) ! i) = SyncStatusSucceeded \<and>
          ns_ObservedGeneration (NodeStates (rpc_Status rpc) ! i) = Generation rpc)"

definition statusMessage :: "string \<Rightarrow> goerr \<Rightarrow> string" where
  "statusMessage msg err = (if msg = [] then Error err else msg @ '': '' @ Error err)"

text \<open>The state that a node's SR-IOV state is reported as.\<close>

definition reported_state :: "SriovNetworkNodeState \<Rightarrow> State" where
  "reported_state nst =
     (if nst_SyncStatus nst = SyncStatusSucceeded then
        (if nst_SpecInterfaces nst = [] then SyncStatusInProgress else SyncStatusSucceeded)
      else if nst_SyncStatus nst = SyncStatusFailed then SyncStatusFailed
      else SyncStatusInProgress)"

definition processNodeStatus ::
    "'w HostReconciler \<Rightarrow> SpectrumXRailPoolConfig \<Rightarrow> bool \<Rightarrow> ('w, goerr option \<times> SpectrumXRailPoolConfig) op" where
  "processNodeStatus r rpc localNodeSelected =
     (if \<not> localNodeSelected then State_Monad.return (None, rpc)
      else do {
        got \<leftarrow> observe (get_SriovNodeState (kube r) (rpc_Namespace rpc, nodeName r));
        case got of
          Inl err \<Rightarrow>
            if IsNotFound (lib r) err then patchSyncStatus r rpc SyncStatusInProgress
            else State_Monad.return
              (Some (WrapError (''failed to get SriovNetworkNodeState for node '' @ nodeName r @ '': '') err []), rpc)
        | Inr nst \<Rightarrow> patchSyncStatus r rpc (reported_state nst)
      })"

section \<open>The overall status as a specification\<close>

text \<open>Node \<open>n\<close> has reported state \<open>x\<close> for generation \<open>gen\<close>.\<close>

definition reports :: "int \<Rightarrow> (string \<Rightarrow> NodeState option) \<Rightarrow> State \<Rightarrow> string \<Rightarrow> bool" where
  "reports gen states x n \<longleftrightarrow>
     (\<exists>st. states n = Some st \<and> ns_ObservedGeneration st = gen \<and> ns_State st = x)"

text \<open>
  What the overall status says: \<open>Failed\<close> if a selected node failed, \<open>Succeeded\<close> if there are
  selected nodes and all succeeded, \<open>InProgress\<close> otherwise; only reports for the current
  generation count.
\<close>

definition sync_spec :: "int \<Rightarrow> (string \<Rightarrow> NodeState option) \<Rightarrow> string set \<Rightarrow> State" where
  "sync_spec gen states names =
     (if \<exists>n \<in> names. reports gen states SyncStatusFailed n then SyncStatusFailed
      else if names \<noteq> {} \<and> (\<forall>n \<in> names. reports gen states SyncStatusSucceeded n) then SyncStatusSucceeded
      else SyncStatusInProgress)"

lemma aggregate_nodes_spec:
  "aggregate_nodes gen states nodes b =
   (if \<exists>n \<in> set nodes. reports gen states SyncStatusFailed (node_Name n) then SyncStatusFailed
    else if b \<and> (\<forall>n \<in> set nodes. reports gen states SyncStatusSucceeded (node_Name n)) then SyncStatusSucceeded
    else SyncStatusInProgress)"
proof (induction nodes arbitrary: b)
  case (Cons node nodes)
  show ?case
  proof (cases "states (node_Name node)")
    case None
    then have "\<not> reports gen states x (node_Name node)" for x by (simp add: reports_def)
    with None Cons.IH show ?thesis by simp
  next
    case (Some st)
    then have "reports gen states x (node_Name node) \<longleftrightarrow> ns_ObservedGeneration st = gen \<and> ns_State st = x" for x
      by (simp add: reports_def)
    with Some Cons.IH show ?thesis by simp
  qed
qed simp

lemma aggregate_spec:
  "aggregate rpc nodes =
   sync_spec (Generation rpc) (index_by ns_Name (NodeStates (rpc_Status rpc)) Map.empty) (node_Name ` set nodes)"
  by (simp add: aggregate_def sync_spec_def aggregate_nodes_spec)

lemma aggregate_unique:
  assumes "unique_names (NodeStates (rpc_Status rpc))"
  shows "aggregate rpc nodes =
    sync_spec (Generation rpc) (node_state (NodeStates (rpc_Status rpc))) (node_Name ` set nodes)"
proof -
  have "index_by ns_Name (NodeStates (rpc_Status rpc)) Map.empty = node_state (NodeStates (rpc_Status rpc))"
    using index_by_node_state [OF assms] by blast
  then show ?thesis by (simp add: aggregate_spec)
qed

section \<open>What a status patch contains\<close>

text \<open>The object that the agent of \<open>node\<close> writes, over the object \<open>latest\<close> it read.\<close>

definition status_update :: "SpectrumXRailPoolConfig \<Rightarrow> string \<Rightarrow> State \<Rightarrow> string \<Rightarrow> Node list \<Rightarrow> SpectrumXRailPoolConfig" where
  "status_update latest node newState message nodes =
     (let updated = with_node_state latest node newState message (Generation latest)
      in with_sync_status updated (aggregate updated nodes) (Generation latest))"

lemma with_sync_status_simps [simp]:
  "NodeStates (rpc_Status (with_sync_status u a g)) = NodeStates (rpc_Status u)"
  "SyncStatus (rpc_Status (with_sync_status u a g)) = a"
  "ObservedGeneration (rpc_Status (with_sync_status u a g)) = g"
  "Generation (with_sync_status u a g) = Generation u"
  "rpc_Spec (with_sync_status u a g) = rpc_Spec u"
  by (simp_all add: with_sync_status_def)

lemma with_node_state_simps [simp]:
  "NodeStates (rpc_Status (with_node_state l n st msg g)) = put_node_state (NodeStates (rpc_Status l)) n st msg g"
  "Generation (with_node_state l n st msg g) = Generation l"
  "rpc_Spec (with_node_state l n st msg g) = rpc_Spec l"
  by (simp_all add: with_node_state_def)

lemma aggregate_cong:
  "Generation a = Generation b \<Longrightarrow> NodeStates (rpc_Status a) = NodeStates (rpc_Status b) \<Longrightarrow>
   aggregate a nodes = aggregate b nodes"
  by (simp add: aggregate_def)

lemma status_update_simps [simp]:
  "Generation (status_update l n st msg nodes) = Generation l"
  "rpc_Spec (status_update l n st msg nodes) = rpc_Spec l"
  "ObservedGeneration (rpc_Status (status_update l n st msg nodes)) = Generation l"
  "NodeStates (rpc_Status (status_update l n st msg nodes)) =
   put_node_state (NodeStates (rpc_Status l)) n st msg (Generation l)"
  by (simp_all add: status_update_def Let_def)

lemma status_update_aggregate:
  "SyncStatus (rpc_Status (status_update l n st msg nodes)) = aggregate (status_update l n st msg nodes) nodes"
  by (simp add: status_update_def Let_def aggregate_def)

lemma status_update_settled:
  "status_unchanged (status_update l n st msg nodes) n st msg (Generation l) (aggregate (status_update l n st msg nodes) nodes)"
  by (simp add: status_unchanged_def nstates.lookup_put_same status_update_aggregate)

text \<open>Every event of one attempt is the patch of such an object, based on a read of the same generation.\<close>

definition status_write :: "string \<Rightarrow> int \<Rightarrow> State \<Rightarrow> string \<Rightarrow> event \<Rightarrow> bool" where
  "status_write node gen newState message e \<longleftrightarrow>
     (\<exists>latest nodes err. Generation latest = gen \<and>
        e = Api (PatchStatus (status_update latest node newState message nodes)) err)"

lemma trace_aggregate:
  "trace_spec (aggregateSyncStatus r rpc) (\<lambda>a es. es = [] \<and> (\<forall>x. a = Inr x \<longrightarrow> (\<exists>nodes. x = aggregate rpc nodes)))"
  unfolding aggregateSyncStatus_def
  by (intro trace_bindI [OF trace_observe] trace_case_sum trace_returnI) auto

lemma emits_sync_attempt: "emits (status_write (nodeName r) gen newState message) (sync_attempt r gen newState message rpc)"
  unfolding emits_def sync_attempt_def
  by (intro trace_bindI [OF trace_observe] trace_case_sum trace_if trace_bindI [OF trace_aggregate]
      trace_bindI [OF trace_status_call] trace_returnI)
    (fastforce simp: status_write_def status_update_def Let_def)+

lemma patchSyncStatus_emits:
  "retry_law (lib r) \<Longrightarrow>
   emits (status_write (nodeName r) (Generation rpc) newState message) (patchSyncStatusWithMessage r rpc newState message)"
  unfolding patchSyncStatusWithMessage_def by (rule emits_RetryOnConflict [OF _ emits_sync_attempt])

text \<open>Of the object it is given, the call changes at most the status.\<close>

definition same_but_status :: "SpectrumXRailPoolConfig \<Rightarrow> SpectrumXRailPoolConfig \<Rightarrow> bool" where
  "same_but_status a b \<longleftrightarrow> (\<exists>st. b = a\<lparr>rpc_Status := st\<rparr>)"

lemma same_but_status_refl [simp]: "same_but_status a a"
  unfolding same_but_status_def by (rule exI [of _ "rpc_Status a"]) simp

lemma same_but_status_update [simp]: "same_but_status a (a\<lparr>rpc_Status := st\<rparr>)"
  by (auto simp: same_but_status_def)

lemma same_but_status_simps:
  "same_but_status a b \<Longrightarrow> Generation b = Generation a \<and> rpc_Spec b = rpc_Spec a \<and>
   rpc_Name b = rpc_Name a \<and> rpc_Namespace b = rpc_Namespace a"
  by (auto simp: same_but_status_def)

lemma trace_sync_attempt_object:
  "trace_spec (sync_attempt r gen newState message rpc) (\<lambda>x es. same_but_status rpc (snd x))"
  unfolding sync_attempt_def
  by (intro trace_bindI [OF trace_observe] trace_case_sum trace_if trace_bindI [OF trace_aggregate]
      trace_bindI [OF trace_status_call] trace_returnI) simp_all

lemma trace_patch_object:
  "retry_law (lib r) \<Longrightarrow>
   trace_spec (patchSyncStatusWithMessage r rpc newState message) (\<lambda>x es. same_but_status rpc (snd x))"
  unfolding patchSyncStatusWithMessage_def
  by (rule RetryOnConflict_result [OF _ trace_sync_attempt_object]) (auto simp: same_but_status_def)

lemma patch_settled:
  assumes "retry_law (lib r)"
    and "run_state (sync_attempt r (Generation rpc) newState message rpc) s = ((None, y), s')"
  shows "run_state (patchSyncStatusWithMessage r rpc newState message) s = ((None, y), s')"
  unfolding patchSyncStatusWithMessage_def
  using RetryOnConflict_settled [of "lib r" "sync_attempt r (Generation rpc) newState message" rpc s None y s'] assms
  by simp

text \<open>The reads of one attempt, in order: the object, and the nodes once or twice.\<close>

definition attempt_reads :: "'w HostReconciler \<Rightarrow> SpectrumXRailPoolConfig \<Rightarrow> 'w \<Rightarrow>
    SpectrumXRailPoolConfig \<Rightarrow> Node list \<Rightarrow> 'w \<Rightarrow> bool" where
  "attempt_reads r rpc w latest nodes w' \<longleftrightarrow>
     (\<exists>w1. get_RailPoolConfig (kube r) (rpc_Namespace rpc, rpc_Name rpc) w = (Inr latest, w1) \<and>
        Generation latest = Generation rpc \<and>
        list_Nodes (kube r) (NodeSelector (rpc_Spec latest)) w1 = (Inr nodes, w'))"

lemma run_aggregate:
  "list_Nodes (kube r) (NodeSelector (rpc_Spec rpc)) (env s) = (Inr nodes, w') \<Longrightarrow>
   run_state (aggregateSyncStatus r rpc) s = (Inr (aggregate rpc nodes), s\<lparr>env := w'\<rparr>)"
  by (simp add: aggregateSyncStatus_def)

lemma sync_attempt_unchanged:
  assumes "attempt_reads r rpc (env s) latest nodes w'"
    and "status_unchanged latest (nodeName r) newState message (Generation latest) (aggregate latest nodes)"
  shows "run_state (sync_attempt r (Generation rpc) newState message rpc) s =
    ((None, rpc\<lparr>rpc_Status := rpc_Status latest\<rparr>), s\<lparr>env := w'\<rparr>)"
  using assms by (auto simp: sync_attempt_def attempt_reads_def run_aggregate)

lemma sync_attempt_patches:
  assumes "attempt_reads r rpc (env s) latest nodes w1"
    and "\<not> status_unchanged latest (nodeName r) newState message (Generation latest) (aggregate latest nodes)"
    and "list_Nodes (kube r) (NodeSelector (rpc_Spec latest)) w1 = (Inr nodes2, w2)"
    and "u = status_update latest (nodeName r) newState message nodes2"
    and "patch_status (kube r) latest u w2 = (Inr server, w3)"
  shows "run_state (sync_attempt r (Generation rpc) newState message rpc) s =
    ((None, rpc\<lparr>rpc_Status := rpc_Status server\<rparr>), s\<lparr>env := w3, events := events s @ [Api (PatchStatus u) None]\<rparr>)"
  using assms
  by (auto simp: sync_attempt_def attempt_reads_def run_aggregate status_call_def status_update_def Let_def error_of_def)

lemma sync_attempt_other_generation:
  assumes "get_RailPoolConfig (kube r) (rpc_Namespace rpc, rpc_Name rpc) (env s) = (Inr latest, w')"
    and "Generation latest \<noteq> gen"
  shows "\<exists>e. run_state (sync_attempt r gen newState message rpc) s = ((Some e, rpc), s\<lparr>env := w'\<rparr>)"
  using assms by (auto simp: sync_attempt_def)

lemma retry_other_generation:
  assumes "\<And>w. \<exists>latest w'. get_RailPoolConfig (kube r) (rpc_Namespace rpc, rpc_Name rpc) w = (Inr latest, w') \<and>
      Generation latest \<noteq> gen"
  shows "\<exists>e w'. run_state (retry_loop conf n (sync_attempt r gen newState message) rpc) s = ((Some e, rpc), s\<lparr>env := w'\<rparr>)"
proof (induction n arbitrary: s)
  case 0
  from assms [of "env s"] sync_attempt_other_generation [of r rpc s] show ?case by simp metis
next
  case (Suc n)
  from assms [of "env s"] sync_attempt_other_generation [of r rpc s]
  obtain e w' where "run_state (sync_attempt r gen newState message rpc) s = ((Some e, rpc), s\<lparr>env := w'\<rparr>)" by metis
  moreover from Suc.IH [of "s\<lparr>env := w'\<rparr>"]
  obtain e2 w2 where "run_state (retry_loop conf n (sync_attempt r gen newState message) rpc) (s\<lparr>env := w'\<rparr>) =
      ((Some e2, rpc), s\<lparr>env := w2\<rparr>)" by auto
  ultimately show ?case by auto
qed

section \<open>Properties\<close>

text \<open>
  Property C17. The overall status is the one that the specification \<open>sync_spec\<close> gives for the
  listed nodes: \<open>Failed\<close> if one of them failed for the current generation, \<open>Succeeded\<close> if there
  are nodes and all succeeded for the current generation, \<open>InProgress\<close> otherwise. Neither the
  order of the nodes nor a report for an older generation has any influence.
\<close>

theorem aggregateSyncStatus_refines:
  assumes "list_Nodes (kube r) (NodeSelector (rpc_Spec rpc)) (env s) = (Inr nodes, w')"
    and "unique_names (NodeStates (rpc_Status rpc))"
  shows "run_state (aggregateSyncStatus r rpc) s =
    (Inr (sync_spec (Generation rpc) (node_state (NodeStates (rpc_Status rpc))) (node_Name ` set nodes)), s\<lparr>env := w'\<rparr>)"
  using run_aggregate [OF assms(1)] aggregate_unique [OF assms(2)] by simp

theorem aggregateSyncStatus_refines_witness:
  "fst (run_state (aggregateSyncStatus (demo (demo_rpc [] [])) (demo_rpc [] [])) demo_world) = Inr SyncStatusInProgress"
  using aggregateSyncStatus_refines [of "demo (demo_rpc [] [])" "demo_rpc [] []" demo_world "[demo_node ''node'']" "env demo_world"]
  by (simp add: demo_defs unique_names_def sync_spec_def reports_def)

text \<open>
  Whatever the API server answers and however often the call is retried, every status
  patch it sends is based on an object of the generation that is being reconciled; it says that
  generation is the observed one, has exactly the new state, message and generation in the entry
  of the agent's own node, and an overall status that is the aggregate of its own entries over
  some listing of the nodes.
\<close>

lemma status_patch_content:
  assumes "retry_law (lib r)"
  shows "emits (\<lambda>e. \<exists>u nodes err. e = Api (PatchStatus u) err \<and>
      Generation u = Generation rpc \<and> ObservedGeneration (rpc_Status u) = Generation rpc \<and>
      node_state (NodeStates (rpc_Status u)) (nodeName r) =
        Some \<lparr>ns_Name = nodeName r, ns_State = newState, ns_ObservedGeneration = Generation rpc, ns_Message = message\<rparr> \<and>
      SyncStatus (rpc_Status u) = aggregate u nodes)
    (patchSyncStatusWithMessage r rpc newState message)"
proof (rule emits_mono [OF patchSyncStatus_emits [OF assms]])
  fix e
  assume "status_write (nodeName r) (Generation rpc) newState message e"
  then obtain latest nodes err where "Generation latest = Generation rpc"
    "e = Api (PatchStatus (status_update latest (nodeName r) newState message nodes)) err"
    by (auto simp: status_write_def)
  then show "\<exists>u nodes err. e = Api (PatchStatus u) err \<and>
      Generation u = Generation rpc \<and> ObservedGeneration (rpc_Status u) = Generation rpc \<and>
      node_state (NodeStates (rpc_Status u)) (nodeName r) =
        Some \<lparr>ns_Name = nodeName r, ns_State = newState, ns_ObservedGeneration = Generation rpc, ns_Message = message\<rparr> \<and>
      SyncStatus (rpc_Status u) = aggregate u nodes"
    using status_update_aggregate [of latest "nodeName r" newState message nodes]
    by (intro exI [of _ "status_update latest (nodeName r) newState message nodes"] exI [of _ nodes] exI [of _ err])
      (simp add: nstates.lookup_put_same)
qed

text \<open>
  A call that reads an object of its own generation, finds something to change, and
  whose patch is accepted, sends exactly one patch and succeeds. Compared with the object that was
  read, the patched object has the same specification and the same entry for every other node,
  still has one entry per node if it had before, and it is the state the caller continues with.
\<close>

lemma patchSyncStatus_frame:
  assumes "retry_law (lib r)"
    and "attempt_reads r rpc (env s) latest nodes w1"
    and "\<not> status_unchanged latest (nodeName r) newState message (Generation latest) (aggregate latest nodes)"
    and "list_Nodes (kube r) (NodeSelector (rpc_Spec latest)) w1 = (Inr nodes2, w2)"
    and "u = status_update latest (nodeName r) newState message nodes2"
    and "patch_status (kube r) latest u w2 = (Inr server, w3)"
  shows "run_state (patchSyncStatusWithMessage r rpc newState message) s =
      ((None, rpc\<lparr>rpc_Status := rpc_Status server\<rparr>), s\<lparr>env := w3, events := events s @ [Api (PatchStatus u) None]\<rparr>) \<and>
    rpc_Spec u = rpc_Spec latest \<and>
    (\<forall>m. m \<noteq> nodeName r \<longrightarrow>
      node_state (NodeStates (rpc_Status u)) m = node_state (NodeStates (rpc_Status latest)) m) \<and>
    (unique_names (NodeStates (rpc_Status latest)) \<longrightarrow> unique_names (NodeStates (rpc_Status u)))"
proof (intro conjI)
  show "run_state (patchSyncStatusWithMessage r rpc newState message) s =
      ((None, rpc\<lparr>rpc_Status := rpc_Status server\<rparr>), s\<lparr>env := w3, events := events s @ [Api (PatchStatus u) None]\<rparr>)"
    by (rule patch_settled [OF assms(1) sync_attempt_patches [OF assms(2-)]])
qed (simp_all add: assms(5) nstates.lookup_put_other nstates.unique_put)

text \<open>
  When the object that is read holds what an earlier call wrote for the same node and
  state, and the same nodes are listed, nothing is sent: reporting a state twice patches once.
\<close>

lemma patchSyncStatus_idempotent:
  assumes "retry_law (lib r)"
    and "u = status_update latest (nodeName r) newState message nodes"
    and "attempt_reads r rpc (env s) u nodes w'"
  shows "run_state (patchSyncStatusWithMessage r rpc newState message) s =
    ((None, rpc\<lparr>rpc_Status := rpc_Status u\<rparr>), s\<lparr>env := w'\<rparr>)"
proof (rule patch_settled [OF assms(1) sync_attempt_unchanged [OF assms(3)]])
  show "status_unchanged u (nodeName r) newState message (Generation u) (aggregate u nodes)"
    using status_update_settled [of latest "nodeName r" newState message nodes] by (simp add: assms(2))
qed

text \<open>
  An agent that reconciles an outdated generation reports an error and sends nothing,
  however often the call is retried.
\<close>

lemma patchSyncStatus_outdated:
  assumes "retry_law (lib r)"
    and "\<forall>w. \<exists>latest w'. get_RailPoolConfig (kube r) (rpc_Namespace rpc, rpc_Name rpc) w = (Inr latest, w') \<and>
      Generation latest \<noteq> Generation rpc"
  shows "\<exists>e w'. run_state (patchSyncStatusWithMessage r rpc newState message) s = ((Some e, rpc), s\<lparr>env := w'\<rparr>)"
proof -
  from assms(1) obtain n where n: "\<And>fn. RetryOnConflict (lib r) fn = retry_loop (IsConflict (lib r)) n fn"
    by (auto simp: retry_law_def)
  show ?thesis
    unfolding patchSyncStatusWithMessage_def n by (rule retry_other_generation) (use assms(2) in blast)
qed

end
