(* ===== verification/Go_Net.thy ===== *)
theory Go_Net
  imports Go_Base
begin

text \<open>
  What the operator uses of package \<open>net\<close>: \<open>ParseCIDR\<close>, with the address parser of \<open>net/netip\<close>
  under it, and \<open>IP.To4\<close>. An address is the list of its 16 bytes.
\<close>

section \<open>Parsing\<close>

text \<open>The fields of a dotted quad: value and length of the field being read, fields done.\<close>

fun v4_fields :: "string \<Rightarrow> nat \<Rightarrow> nat \<Rightarrow> nat list \<Rightarrow> nat list option" where
  "v4_fields [] val digLen fs = (if length fs < 3 then None else Some (fs @ [val]))"
| "v4_fields (c # s) val digLen fs =
     (if is_digit c then
        (if digLen = 1 \<and> val = 0 then None
         else if val * 10 + digit_val c > 255 then None
         else v4_fields s (val * 10 + digit_val c) (Suc digLen) fs)
      else if c = CHR ''.'' then
        (if digLen = 0 \<or> s = [] then None
         else if length fs = 3 then None
         else v4_fields s 0 0 (fs @ [val]))
      else None)"

definition hex_val :: "char \<Rightarrow> nat option" where
  "hex_val c =
     (if c \<in> set hexdigits then Some (digit_val c)
      else if c \<in> set ''ABCDEF'' then Some (10 + index_of c ''ABCDEF'')
      else None)"

text \<open>A group of up to four hexadecimal digits: how many, their value, and what follows.\<close>

fun scan_hex :: "string \<Rightarrow> nat \<Rightarrow> nat \<Rightarrow> (nat \<times> nat \<times> string) option" where
  "scan_hex [] off acc = Some (off, acc, [])"
| "scan_hex (c # s) off acc =
     (case hex_val c of
        None \<Rightarrow> Some (off, acc, c # s)
      | Some d \<Rightarrow>
          if off > 3 then None
          else if acc * 16 + d > 65535 then None
          else scan_hex s (Suc off) (acc * 16 + d))"

text \<open>
  The loop over the groups of an IPv6 address. The first argument is the number of groups that
  still fit, \<open>ip\<close> the bytes read, \<open>e\<close> the position of the ellipsis. The result is what is left of
  the text, the bytes and the ellipsis.
\<close>

fun v6_groups :: "nat \<Rightarrow> string \<Rightarrow> nat list \<Rightarrow> nat option \<Rightarrow> (string \<times> nat list \<times> nat option) option" where
  "v6_groups 0 s ip e = Some (s, ip, e)"
| "v6_groups (Suc k) s ip e =
     (case scan_hex s 0 0 of
        None \<Rightarrow> None
      | Some (off, acc, rest) \<Rightarrow>
          if off = 0 then None
          else if take 1 rest = ''.'' then
            (if e = None \<and> length ip \<noteq> 12 then None
             else if length ip + 4 > 16 then None
             else case v4_fields s 0 0 [] of None \<Rightarrow> None | Some fs \<Rightarrow> Some ([], ip @ fs, e))
          else
            let ip' = ip @ [acc div 256, acc mod 256] in
            (case rest of
               [] \<Rightarrow> Some ([], ip', e)
             | c # s1 \<Rightarrow>
                 if c \<noteq> CHR '':'' then None
                 else (case s1 of
                         [] \<Rightarrow> None
                       | d # s2 \<Rightarrow>
                           if d = CHR '':'' then
                             (if e \<noteq> None then None
                              else if s2 = [] then Some ([], ip', Some (length ip'))
                              else v6_groups k s2 ip' (Some (length ip')))
                           else v6_groups k s1 ip' e)))"

definition expand_ellipsis :: "string \<times> nat list \<times> nat option \<Rightarrow> nat list option" where
  "expand_ellipsis r =
     (case r of (s, ip, e) \<Rightarrow>
        if s \<noteq> [] then None
        else if length ip < 16 then
          (case e of None \<Rightarrow> None
           | Some p \<Rightarrow> Some (take p ip @ replicate (16 - length ip) 0 @ drop p ip))
        else if e \<noteq> None then None
        else Some ip)"

definition parseIPv6 :: "string \<Rightarrow> nat list option" where
  "parseIPv6 s =
     (if take 2 s = ''::'' then
        (if drop 2 s = [] then Some (replicate 16 0)
         else Option.bind (v6_groups 8 (drop 2 s) [] (Some 0)) expand_ellipsis)
      else Option.bind (v6_groups 8 s [] None) expand_ellipsis)"

text \<open>
  \<open>netip.ParseAddr\<close> for addresses without a zone; the result has the bytes and the number of bits
  of the address family.
\<close>

definition v4_in_v6 :: "nat list \<Rightarrow> nat list" where
  "v4_in_v6 fs = replicate 10 0 @ [255, 255] @ fs"

definition ParseAddr :: "string \<Rightarrow> (nat list \<times> nat) option" where
  "ParseAddr s =
     (if CHR ''%'' \<in> set s then None
      else case find (\<lambda>c. c = CHR ''.'' \<or> c = CHR '':'') s of
        None \<Rightarrow> None
      | Some c \<Rightarrow>
          if c = CHR ''.'' then map_option (\<lambda>fs. (v4_in_v6 fs, 32)) (v4_fields s 0 0 [])
          else map_option (\<lambda>ip. (ip, 128)) (parseIPv6 s))"

definition dtoi :: "string \<Rightarrow> nat option" where
  "dtoi s = (if s \<noteq> [] \<and> list_all is_digit s \<and> parse_base 10 s < 16777215 then Some (parse_base 10 s) else None)"

text \<open>
  \<open>net.ParseCIDR\<close>: the address and the length of the prefix. A zone is not accepted there,
  so a text with \<open>%\<close> is an error in either parser.
\<close>

definition ParseCIDR :: "string \<Rightarrow> (nat list \<times> nat) result" where
  "ParseCIDR s =
     (let err = Inl (ErrorString (''invalid CIDR address: '' @ s));
          addr = takeWhile (\<lambda>c. c \<noteq> CHR ''/'') s; rest = dropWhile (\<lambda>c. c \<noteq> CHR ''/'') s
      in if rest = [] then err
         else case ParseAddr addr of
           None \<Rightarrow> err
         | Some (ip, bits) \<Rightarrow>
             (case dtoi (tl rest) of
                None \<Rightarrow> err
              | Some n \<Rightarrow> if n > bits then err else Inr (ip, n)))"

definition To4 :: "nat list \<Rightarrow> nat list option" where
  "To4 ip = (if length ip = 16 \<and> take 12 ip = v4_in_v6 [] then Some (drop 12 ip) else None)"

definition print_v4 :: "nat \<Rightarrow> nat \<Rightarrow> nat \<Rightarrow> nat \<Rightarrow> nat \<Rightarrow> string" where
  "print_v4 a b c d n =
     fmt_base 10 a @ ''.'' @ fmt_base 10 b @ ''.'' @ fmt_base 10 c @ ''.'' @ fmt_base 10 d @ ''/'' @ fmt_base 10 n"

section \<open>Lemmas\<close>

lemma is_digit_char: "d < 10 \<Longrightarrow> is_digit (digit_char d)"
proof -
  assume "d < 10"
  then have "d \<in> {0,1,2,3,4,5,6,7,8,9}" by auto
  then show ?thesis by (auto simp: is_digit_def digit_char_def hexdigits_def)
qed

lemma fmt_base_decimal: "list_all is_digit (fmt_base 10 n) \<and> fmt_base 10 n \<noteq> []"
proof (induction n rule: less_induct)
  case (less n)
  show ?case
  proof (cases "n < 10")
    case True
    then show ?thesis by (simp add: fmt_base.simps [of 10 n] is_digit_char)
  next
    case False
    then have "n div 10 < n" by simp
    from less.IH [OF this] False show ?thesis by (simp add: fmt_base.simps [of 10 n] is_digit_char)
  qed
qed

lemma digit_facts:
  assumes "is_digit c"
  shows "c \<noteq> CHR ''.''" "c \<noteq> CHR ''/''" "c \<noteq> CHR ''%''" "c \<noteq> CHR '':''"
  using assms by (auto simp: is_digit_def)

text \<open>Reading the digits of a number adds them to the value read so far.\<close>

lemma v4_fields_digits:
  assumes "n \<le> 255"
  shows "\<exists>k > 0. v4_fields (fmt_base 10 n @ t) 0 0 fs = v4_fields t n k fs"
proof -
  have one: "v4_fields (digit_char d # t) 0 0 fs = v4_fields t d 1 fs" if "d < 10" for d t fs
    using that by (simp add: is_digit_char)
  have more: "v4_fields (digit_char d # t) v (Suc k) fs = v4_fields t (v * 10 + d) (Suc (Suc k)) fs"
    if "d < 10" "0 < v" "v * 10 + d \<le> 255" for d v k t fs
    using that by (simp add: is_digit_char)
  consider "n < 10" | "10 \<le> n" "n < 100" | "100 \<le> n" by linarith
  then show ?thesis
  proof cases
    case 1
    then show ?thesis using one [OF 1] by (auto simp: fmt_base.simps [of 10 n])
  next
    case 2
    then have "fmt_base 10 n = [digit_char (n div 10), digit_char (n mod 10)]"
      by (simp add: fmt_base.simps [of 10 n] fmt_base.simps [of 10 "n div 10"])
    then have "v4_fields (fmt_base 10 n @ t) 0 0 fs = v4_fields t (n div 10 * 10 + n mod 10) (Suc (Suc 0)) fs"
      using 2 assms one [of "n div 10"] more [of "n mod 10" "n div 10" _ 0] by simp
    then show ?thesis by (auto simp: div_mult_mod_eq)
  next
    case 3
    have size: "n div 100 < 10" "\<not> n div 10 < 10" using 3 assms by linarith+
    have "fmt_base 10 n = [digit_char (n div 100), digit_char (n div 10 mod 10), digit_char (n mod 10)]"
      using 3 assms size
      by (simp add: fmt_base.simps [of 10 n] fmt_base.simps [of 10 "n div 10"] fmt_base.simps [of 10 "n div 100"]
          div_mult2_eq [symmetric])
    moreover have "n div 100 * 10 + n div 10 mod 10 = n div 10"
      using div_mult_mod_eq [of "n div 10" 10] by (simp add: div_mult2_eq [symmetric])
    ultimately have "v4_fields (fmt_base 10 n @ t) 0 0 fs = v4_fields t (n div 10 * 10 + n mod 10) (Suc (Suc (Suc 0))) fs"
      using 3 assms one [of "n div 100"] more [of "n div 10 mod 10" "n div 100" _ 0] more [of "n mod 10" "n div 10" _ "Suc 0"]
      by simp
    then show ?thesis by (auto simp: div_mult_mod_eq)
  qed
qed

lemma v4_fields_print:
  assumes "a \<le> 255" "b \<le> 255" "c \<le> 255" "d \<le> 255"
  shows "v4_fields (fmt_base 10 a @ ''.'' @ fmt_base 10 b @ ''.'' @ fmt_base 10 c @ ''.'' @ fmt_base 10 d) 0 0 [] =
    Some [a, b, c, d]"
proof -
  have ne: "fmt_base 10 m \<noteq> []" for m using fmt_base_decimal by blast
  have dot: "\<exists>k. v4_fields (fmt_base 10 m @ CHR ''.'' # t) 0 0 fs = v4_fields t 0 0 (fs @ [m])"
    if "m \<le> 255" "t \<noteq> []" "length fs < 3" for m t fs
  proof -
    from v4_fields_digits [OF that(1), of "CHR ''.'' # t" fs]
    obtain k where "k > 0" "v4_fields (fmt_base 10 m @ CHR ''.'' # t) 0 0 fs = v4_fields (CHR ''.'' # t) m k fs" by blast
    with that show ?thesis by (simp add: is_digit_def)
  qed
  from v4_fields_digits [OF assms(4), of "[]" "[a, b, c]"]
  have "v4_fields (fmt_base 10 d) 0 0 [a, b, c] = Some [a, b, c, d]" by auto
  with dot [OF assms(1)] dot [OF assms(2)] dot [OF assms(3)] ne show ?thesis by simp
qed

lemma find_mem: "find P xs = Some x \<Longrightarrow> x \<in> set xs \<and> P x"
  by (induction xs) (auto split: if_splits)

lemma find_first: "(\<And>x. x \<in> set xs \<Longrightarrow> \<not> P x) \<Longrightarrow> P y \<Longrightarrow> find P (xs @ y # ys) = Some y"
  by (induction xs) auto

lemma v4_fields_length: "v4_fields s v k fs = Some r \<Longrightarrow> length fs \<le> 3 \<Longrightarrow> length r = 4"
  by (induction s v k fs rule: v4_fields.induct) (auto split: if_splits)

lemma v6_groups_length:
  "v6_groups k s ip e = Some (s', ip', e') \<Longrightarrow> length ip + 2 * k = 16 \<Longrightarrow> length ip' \<le> 16"
proof (induction k s ip e rule: v6_groups.induct)
  case (2 k s ip e)
  obtain off acc rest where sc: "scan_hex s 0 0 = Some (off, acc, rest)"
    using "2.prems"(1) by (auto split: option.splits)
  with "2.prems" have off: "off \<noteq> 0" by (cases "off = 0") auto
  show ?case
  proof (cases "take 1 rest = ''.''")
    case True
    with "2.prems" sc off show ?thesis
      by (auto split: if_splits option.splits dest: v4_fields_length)
  next
    case False
    note IH = "2.IH" [OF sc refl refl off False refl]
    note prems = "2.prems" [unfolded v6_groups.simps sc option.case prod.case if_not_P [OF off] if_not_P [OF False] Let_def]
    show ?thesis
    proof (cases rest)
      case Nil
      with prems show ?thesis by auto
    next
      case (Cons c s1)
      note c = this
      with prems have colon: "c = CHR '':''" by (auto split: if_splits)
      show ?thesis
      proof (cases s1)
        case Nil
        with prems c colon show ?thesis by simp
      next
        case (Cons d s2)
        note d = this
        show ?thesis
        proof (cases "d = CHR '':''")
          case True
          with prems c colon d IH(1) [OF c _ d True] show ?thesis by (auto split: if_splits)
        next
          case False
          with prems c colon d IH(2) [OF c _ d False] show ?thesis by auto
        qed
      qed
    qed
  qed
qed simp

lemma parseIPv6_length: "parseIPv6 s = Some ip \<Longrightarrow> length ip = 16"
  using v6_groups_length [of 8 "drop 2 s" "[]" "Some 0"] v6_groups_length [of 8 s "[]" None]
  by (auto simp: parseIPv6_def expand_ellipsis_def bind_eq_Some_conv split: if_splits option.splits)

lemma ParseCIDR_accepts:
  assumes "ParseCIDR s = Inr (ip, n)"
  shows "length ip = 16 \<and> n \<le> 128 \<and> (To4 ip = None \<longrightarrow> CHR '':'' \<in> set s)"
proof -
  define addr where "addr = takeWhile (\<lambda>c. c \<noteq> CHR ''/'') s"
  from assms obtain bits where pa: "ParseAddr addr = Some (ip, bits)" and n: "n \<le> bits"
    by (auto simp: ParseCIDR_def Let_def addr_def split: if_splits option.splits prod.splits)
  from pa obtain c where c: "find (\<lambda>c. c = CHR ''.'' \<or> c = CHR '':'') addr = Some c"
    by (auto simp: ParseAddr_def split: if_splits option.splits)
  then have cs: "c = CHR ''.'' \<or> c = CHR '':''" "c \<in> set addr"
    using find_mem [of _ addr c] by blast+
  show ?thesis
  proof (cases "c = CHR ''.''")
    case True
    with pa c obtain fs where "v4_fields addr 0 0 [] = Some fs" "ip = v4_in_v6 fs" "bits = 32"
      by (auto simp: ParseAddr_def split: if_splits)
    with v4_fields_length [of addr 0 0 "[]" fs] n show ?thesis by (simp add: v4_in_v6_def To4_def)
  next
    case False
    with pa c have "parseIPv6 addr = Some ip" "bits = 128" by (auto simp: ParseAddr_def split: if_splits)
    with parseIPv6_length n False cs show ?thesis by (auto simp: addr_def dest: set_takeWhileD)
  qed
qed

lemma ParseCIDR_print_v4:
  assumes "a \<le> 255" "b \<le> 255" "c \<le> 255" "d \<le> 255" "n \<le> 32"
  shows "ParseCIDR (print_v4 a b c d n) = Inr (v4_in_v6 [a, b, c, d], n)"
proof -
  define addr where "addr = fmt_base 10 a @ ''.'' @ fmt_base 10 b @ ''.'' @ fmt_base 10 c @ ''.'' @ fmt_base 10 d"
  have shape: "print_v4 a b c d n = addr @ CHR ''/'' # fmt_base 10 n" by (simp add: print_v4_def addr_def)
  have dig: "\<And>x m. x \<in> set (fmt_base 10 m) \<Longrightarrow> is_digit x"
    using fmt_base_decimal by (meson list.pred_set)
  have chars: "is_digit x \<or> x = CHR ''.''" if "x \<in> set addr" for x
    using that dig by (auto simp: addr_def)
  then have no: "CHR ''%'' \<notin> set addr" "CHR ''/'' \<notin> set addr" by (auto dest: digit_facts)
  have "find (\<lambda>c. c = CHR ''.'' \<or> c = CHR '':'') addr = Some CHR ''.''"
  proof -
    have "addr = fmt_base 10 a @ CHR ''.'' # fmt_base 10 b @ ''.'' @ fmt_base 10 c @ ''.'' @ fmt_base 10 d"
      by (simp add: addr_def)
    then show ?thesis by (simp only:) (rule find_first, auto dest!: dig dest: digit_facts)
  qed
  moreover have "v4_fields addr 0 0 [] = Some [a, b, c, d]"
    unfolding addr_def by (rule v4_fields_print [OF assms(1-4)])
  ultimately have "ParseAddr addr = Some (v4_in_v6 [a, b, c, d], 32)"
    using no by (simp add: ParseAddr_def)
  moreover have "dtoi (fmt_base 10 n) = Some n"
    using fmt_base_decimal [of n] parse_fmt_base [of 10 n] assms(5) by (simp add: dtoi_def)
  moreover have "takeWhile (\<lambda>c. c \<noteq> CHR ''/'') (addr @ CHR ''/'' # fmt_base 10 n) = addr"
    "dropWhile (\<lambda>c. c \<noteq> CHR ''/'') (addr @ CHR ''/'' # fmt_base 10 n) = CHR ''/'' # fmt_base 10 n"
    using no(2) by (auto simp: takeWhile_append dropWhile_append)
  ultimately show ?thesis using assms(5) by (simp add: ParseCIDR_def shape Let_def)
qed

end
