(* ===== verification/Generate.thy ===== *)
theory Generate
  imports Cluster Go_Net
begin

text \<open>
  The objects the reconciler asks the SR-IOV operator for: the functions \<open>generate...\<close> of
  \<^verbatim>\<open>spectrumxrailpoolconfig_host_flows_controller.go\<close>, the constants they use, and the test whether
  a CIDR pool is an IPv6 pool, which decides on the VRF plugin.
\<close>

section \<open>Constants\<close>

definition xplaneBridge :: string where "xplaneBridge = ''br-xplane''"
definition railBridge :: "string \<Rightarrow> string" where "railBridge name = ''br-rail-'' @ name"
definition sriovNodePolicyType :: string where "sriovNodePolicyType = ''SriovNetworkNodePolicy''"
definition sriovNetworkPoolConfig :: string where "sriovNetworkPoolConfig = ''SriovNetworkPoolConfig''"
definition sriovOVSNetworkType :: string where "sriovOVSNetworkType = ''OVSNetwork''"
definition ovsDataPathType :: string where "ovsDataPathType = ''netdev''"
definition ovsNetworkInterfaceType :: string where "ovsNetworkInterfaceType = ''doca''"
definition devlinkApplyOnPF :: string where "devlinkApplyOnPF = ''PF''"
definition devlinkCmodeRuntime :: string where "devlinkCmodeRuntime = ''runtime''"
definition configValueTrue :: string where "configValueTrue = ''true''"
definition labelOwnerName :: string where "labelOwnerName = ''spectrumx.nvidia.com/owner-name''"
definition labelRailTopologyName :: string where
  "labelRailTopologyName = ''spectrumx.nvidia.com/rail-topology-name''"
definition labelMultiplane :: string where "labelMultiplane = ''spectrumx.nvidia.com/multiplane''"
definition labelMultiplaneValue :: string where "labelMultiplaneValue = ''true''"
definition unusedPolicySuffix :: string where "unusedPolicySuffix = ''-unused''"

definition defaultOvsConfig :: labels where
  "defaultOvsConfig =
     [''doca-init'' \<mapsto> configValueTrue, ''hw-offload'' \<mapsto> configValueTrue,
      ''hw-offload-ct-size'' \<mapsto> ''0'', ''max-idle'' \<mapsto> ''300000'']"

section \<open>Generated objects\<close>

text \<open>The user's options are written over the defaults, key by key.\<close>

definition generateSRIOVNetworkPoolConfig :: "SpectrumXRailPoolConfig \<Rightarrow> SriovNetworkPoolConfig" where
  "generateSRIOVNetworkPoolConfig rpc =
     \<lparr>pc_Kind = [], pc_Name = rpc_Name rpc, pc_Namespace = rpc_Namespace rpc, pc_Labels = Map.empty,
      pc_NodeSelector = NodeSelector (rpc_Spec rpc), pc_RdmaMode = ''exclusive'',
      pc_MaxUnavailable = MaxUnavailable (rpc_Spec rpc), pc_OvsName = [],
      pc_OvsConfig = defaultOvsConfig ++ OvsConfig (rpc_Spec rpc)\<rparr>"

definition flowSteeringParam :: DevlinkParam where
  "flowSteeringParam = \<lparr>dp_Name = ''flow_steering_mode'', dp_Value = ''hmfs'', dp_Cmode = devlinkCmodeRuntime,
     dp_ApplyOn = devlinkApplyOnPF\<rparr>"

definition eswMultiportParam :: DevlinkParam where
  "eswMultiportParam = \<lparr>dp_Name = ''esw_multiport'', dp_Value = configValueTrue, dp_Cmode = devlinkCmodeRuntime,
     dp_ApplyOn = devlinkApplyOnPF\<rparr>"

definition no_bridge :: Bridge where
  "no_bridge = \<lparr>GroupingPolicy = [], OVS = None\<rparr>"

definition pf_bridge :: "int \<Rightarrow> Bridge" where
  "pf_bridge mtu = \<lparr>GroupingPolicy = ''perPF'',
     OVS = Some \<lparr>DatapathType = ovsDataPathType, UplinkType = ovsNetworkInterfaceType, MTURequest = mtu\<rparr>\<rparr>"

definition generateSRIOVNetworkNodePolicy ::
    "SpectrumXRailPoolConfigSpec \<Rightarrow> RailTopology \<Rightarrow> string \<Rightarrow> string \<Rightarrow> string list \<Rightarrow> int \<Rightarrow> bool \<Rightarrow> string
     \<Rightarrow> SriovNetworkNodePolicy" where
  "generateSRIOVNetworkNodePolicy spec rt policyName resourceName pfNames numVfs hardwarePLB namespace =
     \<lparr>np_Kind = sriovNodePolicyType, np_Name = policyName, np_Namespace = namespace, np_Labels = Map.empty,
      np_ResourceName = resourceName, np_Mtu = rt_MTU rt, np_NumVfs = numVfs, np_PfNames = pfNames,
      np_NodeSelector = NodeSelector spec, np_IsRdma = (numVfs > 0), np_EswitchMode = ''switchdev'',
      np_DevlinkParams = (if hardwarePLB then [eswMultiportParam, flowSteeringParam] else [flowSteeringParam]),
      np_Bridge = (if \<not> hardwarePLB \<and> numVfs > 0 then pf_bridge (rt_MTU rt) else no_bridge)\<rparr>"

text \<open>The JSON texts of the source; \<open>json\<close> turns the backquotes of a literal into double quotes.\<close>

definition json :: "string \<Rightarrow> string" where
  "json s = map (\<lambda>c. if c = CHR 0x60 then CHR 0x22 else c) s"

definition ipam_of :: "RailTopology \<Rightarrow> string" where
  "ipam_of rt =
     (if IPAM rt \<noteq> [] then IPAM rt
      else if CidrPoolRef rt \<noteq> [] then
        json ''{`type`: `nv-ipam`,`poolName`: '' @ fmt_q (CidrPoolRef rt) @ json '', `poolType`: `cidrpool`}''
      else [])"

definition rdmaQoSToS :: int where "rdmaQoSToS = 96"

definition rdmaQoSTC :: int where "rdmaQoSTC = 96"

definition rdma_plugin :: "string \<Rightarrow> string" where
  "rdma_plugin name =
     json ''{`type`: `rdma`, `rdmaQoS`: {`tos`: '' @ fmt_d rdmaQoSToS @ json '',`tc`: '' @ fmt_d rdmaQoSTC @
     json ''}, `args`: {`cni`: {`rdmaDeviceName`: `'' @ ''rdma_'' @ name @ json ''`}}}''"

definition vrf_plugin :: "string \<Rightarrow> string" where
  "vrf_plugin name = json '', {`type`: `vrf`, `vrfname`: '' @ fmt_q name @ ''}''"

definition generateOVSNetwork ::
    "SpectrumXRailPoolConfigSpec \<Rightarrow> RailTopology \<Rightarrow> bool \<Rightarrow> bool \<Rightarrow> string \<Rightarrow> OVSNetwork" where
  "generateOVSNetwork spec rt addBridge addVRF namespace =
     \<lparr>on_Kind = [], on_Name = rt_Name rt, on_Namespace = namespace, on_Labels = Map.empty,
      on_ResourceName = rt_Name rt, on_InterfaceType = ovsNetworkInterfaceType,
      on_NetworkNamespace = NetworkNamespace spec, on_MTU = uint_of_int (rt_MTU rt), on_IPAM = ipam_of rt,
      on_MetaPluginsConfig = rdma_plugin (rt_Name rt) @ (if addVRF then vrf_plugin (rt_Name rt) else []),
      on_Bridge = (if addBridge then railBridge (rt_Name rt) else [])\<rparr>"

section \<open>IPv6 pools\<close>

definition pool_text :: "string \<Rightarrow> string \<Rightarrow> string" where
  "pool_text namespace name = ''CIDRPool '' @ namespace @ ''/'' @ name"

definition isCidrPoolIPv6 :: "'w HostReconciler \<Rightarrow> string \<Rightarrow> string \<Rightarrow> ('w, bool result) op" where
  "isCidrPoolIPv6 r name namespace = do {
     got \<leftarrow> observe (get_CIDRPool (kube r) (namespace, name));
     case got of
       Inl err \<Rightarrow> State_Monad.return
         (Inl (WrapError (''failed to get '' @ pool_text namespace name @ '': '') err []))
     | Inr nested \<Rightarrow>
         (case nested of
            NestedError err \<Rightarrow> State_Monad.return
              (Inl (WrapError (''failed to read spec.cidr from '' @ pool_text namespace name @ '': '') err []))
          | NestedMissing \<Rightarrow> State_Monad.return
              (Inl (ErrorString (''spec.cidr not found in '' @ pool_text namespace name)))
          | Nested cidr \<Rightarrow>
              (case ParseCIDR cidr of
                 Inl err \<Rightarrow> State_Monad.return
                   (Inl (WrapError (''failed to parse CIDR '' @ fmt_q cidr @ '' from '' @
                      pool_text namespace name @ '': '') err []))
               | Inr (ip, n) \<Rightarrow> State_Monad.return (Inr (To4 ip = None))))
   }"

lemma run_isCidrPoolIPv6:
  assumes "get_CIDRPool (kube r) (namespace, name) (env s) = (Inr (Nested cidr), w')"
  shows "run_state (isCidrPoolIPv6 r name namespace) s =
    (case ParseCIDR cidr of
       Inl err \<Rightarrow> Inl (WrapError (''failed to parse CIDR '' @ fmt_q cidr @ '' from '' @ pool_text namespace name @ '': '') err [])
     | Inr (ip, n) \<Rightarrow> Inr (To4 ip = None), s\<lparr>env := w'\<rparr>)"
  using assms by (auto simp: isCidrPoolIPv6_def split: sum.splits)

lemma trace_isCidrPoolIPv6: "trace_spec (isCidrPoolIPv6 r name ns) (\<lambda>a es. es = [])"
  unfolding isCidrPoolIPv6_def
  by (rule trace_bindI [OF trace_observe])
    (auto intro!: trace_returnI split: sum.splits nested_string.splits)

section \<open>Properties\<close>

text \<open>
  A pool is taken for an IPv6 pool only if its range is written with a colon, and a
  pool whose range is an IPv4 prefix in the usual notation never is: for every such prefix the
  range is accepted and the answer is no.
\<close>

lemma isCidrPoolIPv6_correct:
  assumes "get_CIDRPool (kube r) (namespace, name) (env s) = (Inr (Nested cidr), w')"
  shows "(fst (run_state (isCidrPoolIPv6 r name namespace) s) = Inr True \<longrightarrow> CHR '':'' \<in> set cidr) \<and>
    (\<forall>a b c d n. a \<le> 255 \<and> b \<le> 255 \<and> c \<le> 255 \<and> d \<le> 255 \<and> n \<le> 32 \<and> cidr = print_v4 a b c d n \<longrightarrow>
      run_state (isCidrPoolIPv6 r name namespace) s = (Inr False, s\<lparr>env := w'\<rparr>))"
proof (intro conjI impI allI)
  assume yes: "fst (run_state (isCidrPoolIPv6 r name namespace) s) = Inr True"
  show "CHR '':'' \<in> set cidr"
  proof (cases "ParseCIDR cidr")
    case (Inl e)
    with yes run_isCidrPoolIPv6 [OF assms] show ?thesis by simp
  next
    case (Inr p)
    obtain ip n where "p = (ip, n)" by fastforce
    with Inr yes run_isCidrPoolIPv6 [OF assms] ParseCIDR_accepts [of cidr ip n] show ?thesis by simp
  qed
next
  fix a b c d n
  assume v4: "a \<le> 255 \<and> b \<le> 255 \<and> c \<le> 255 \<and> d \<le> 255 \<and> n \<le> 32 \<and> cidr = print_v4 a b c d n"
  then have "ParseCIDR cidr = Inr (v4_in_v6 [a, b, c, d], n)" using ParseCIDR_print_v4 by blast
  moreover have "To4 (v4_in_v6 [a, b, c, d]) \<noteq> None" by (simp add: To4_def v4_in_v6_def)
  ultimately show "run_state (isCidrPoolIPv6 r name namespace) s = (Inr False, s\<lparr>env := w'\<rparr>)"
    using run_isCidrPoolIPv6 [OF assms] by simp
qed

end
