(* ===== verification/XPlane.thy ===== *)
theory XPlane
  imports Generate
begin

text \<open>
  Multiplane rails: the OVS bridges that join the PFs of a rail (\<open>createXPlaneBridges\<close>,
  \<open>cleanupXPlaneBridges\<close>), the condition for creating them (\<open>configureXPlane\<close>), and the
  deployment of the xplane DaemonSet with the tolerations of the agent's own DaemonSet
  (\<^verbatim>\<open>xplane_tolerations.go\<close>).
\<close>

section \<open>Bridges\<close>

definition index_interfaces :: "SriovNetworkNodeState \<Rightarrow> string \<Rightarrow> InterfaceExt option" where
  "index_interfaces nst = index_by iface_Name (nst_Interfaces nst) Map.empty"

definition pfsInSwitchdevMode :: "SriovNetworkNodeState option \<Rightarrow> string list \<Rightarrow> bool" where
  "pfsInSwitchdevMode nodeState pfNames =
     (case nodeState of
        None \<Rightarrow> False
      | Some nst \<Rightarrow>
          pfNames \<noteq> [] \<and>
          list_all (\<lambda>name. case index_interfaces nst name of
                             None \<Rightarrow> False
                           | Some iface \<Rightarrow> EswitchMode iface = ''switchdev'') pfNames)"

definition add_br_cmd :: "string \<Rightarrow> string \<Rightarrow> string" where
  "add_br_cmd br failmode =
     ''ovs-vsctl --may-exist add-br '' @ br @ '' -- set bridge '' @ br @ '' datapath_type='' @ ovsDataPathType @
     '' fail-mode='' @ failmode @ '' -- br-set-external-id '' @ br @ '' bridge-id '' @ br"

definition add_uplink_cmd :: "RailTopology \<Rightarrow> string \<Rightarrow> int \<Rightarrow> string" where
  "add_uplink_cmd rt pfName planeID =
     ''ovs-vsctl --may-exist add-port '' @ xplaneBridge @ '' '' @ pfName @ '' -- set Interface '' @ pfName @
     '' mtu_request='' @ fmt_d (rt_MTU rt) @ '' type=doca external_ids:xplane-plane-id='' @ fmt_d planeID @
     '' external_ids:xplane-group-id='' @ rt_Name rt @ '' external_ids:xplane-uplink=true''"

definition add_patch_cmd :: "RailTopology \<Rightarrow> string" where
  "add_patch_cmd rt =
     (let brName = railBridge (rt_Name rt);
          patchXplanePort = ''patch-xplane-to-'' @ brName;
          patchRailPort = ''patch-'' @ brName @ ''-to-xplane''
      in ''ovs-vsctl --may-exist add-port '' @ xplaneBridge @ '' '' @ patchXplanePort @
         '' -- set Interface '' @ patchXplanePort @ '' type=patch options:peer='' @ patchRailPort @
         '' mtu_request='' @ fmt_d (rt_MTU rt) @ '' external_ids:xplane-group-id='' @ rt_Name rt @
         '' external_ids:xplane-downlink=patch -- --may-exist add-port '' @ brName @ '' '' @ patchRailPort @
         '' -- set Interface '' @ patchRailPort @ '' type=patch options:peer='' @ patchXplanePort @
         '' mtu_request='' @ fmt_d (rt_MTU rt))"

definition del_br_cmd :: "string \<Rightarrow> string" where
  "del_br_cmd br = ''ovs-vsctl --if-exists del-br '' @ br"

text \<open>\<open>numPFs*rt.SwPlane + idx\<close>, on 64-bit integers.\<close>

definition plane_id :: "RailTopology \<Rightarrow> nat \<Rightarrow> int" where
  "plane_id rt idx = wrap_int (wrap_int (int (length (pf_names rt)) * SwPlane rt) + int idx)"

text \<open>The loop over the PFs from index \<open>idx\<close> on: only a timeout ends it.\<close>

fun add_uplinks :: "'w shell \<Rightarrow> RailTopology \<Rightarrow> nat \<Rightarrow> string list \<Rightarrow> ('w, goerr option) op" where
  "add_uplinks sh rt idx [] = State_Monad.return None"
| "add_uplinks sh rt idx (pfName # pfs) = do {
     res \<leftarrow> Execute sh (add_uplink_cmd rt pfName (plane_id rt idx));
     case res of
       Inl err \<Rightarrow>
         if errors_Is err ErrTimeout then
           State_Monad.return (Some (WrapError (''failed to add port '' @ pfName @ '' to bridge '' @ xplaneBridge @ '': '') err []))
         else add_uplinks sh rt (Suc idx) pfs
     | Inr _ \<Rightarrow> add_uplinks sh rt (Suc idx) pfs
   }"

definition createXPlaneBridges :: "'w shell \<Rightarrow> RailTopology \<Rightarrow> ('w, goerr option) op" where
  "createXPlaneBridges sh rt = do {
     res \<leftarrow> Execute sh (add_br_cmd xplaneBridge ''secure'');
     case res of
       Inl err \<Rightarrow> State_Monad.return (Some (WrapError (''failed to create bridge '' @ xplaneBridge @ '': '') err []))
     | Inr _ \<Rightarrow> do {
         res \<leftarrow> Execute sh (add_br_cmd (railBridge (rt_Name rt)) ''standalone'');
         case res of
           Inl err \<Rightarrow> State_Monad.return
             (Some (WrapError (''failed to create bridge '' @ railBridge (rt_Name rt) @ '': '') err []))
         | Inr _ \<Rightarrow> do {
             up \<leftarrow> add_uplinks sh rt 0 (pf_names rt);
             case up of
               Some err \<Rightarrow> State_Monad.return (Some err)
             | None \<Rightarrow> do {
                 res \<leftarrow> Execute sh (add_patch_cmd rt);
                 case res of
                   Inl err \<Rightarrow>
                     if errors_Is err ErrTimeout then State_Monad.return
                       (Some (WrapError (''failed to add patch ports for bridge '' @ railBridge (rt_Name rt) @ '': '') err []))
                     else State_Monad.return None
                 | Inr _ \<Rightarrow> State_Monad.return None
               }
           }
       }
   }"

text \<open>The second half of \<open>cleanupXPlaneBridges\<close>; of the rail only the name is used.\<close>

definition delete_xplane_bridge :: "'w shell \<Rightarrow> ('w, goerr option) op" where
  "delete_xplane_bridge sh = do {
     res \<leftarrow> Execute sh (del_br_cmd xplaneBridge);
     case res of
       Inl err \<Rightarrow>
         if errors_Is err ErrTimeout then
           State_Monad.return (Some (WrapError (''failed to delete bridge '' @ xplaneBridge @ '': '') err []))
         else State_Monad.return None
     | Inr _ \<Rightarrow> State_Monad.return None
   }"

definition cleanupXPlaneBridges :: "'w shell \<Rightarrow> string \<Rightarrow> ('w, goerr option) op" where
  "cleanupXPlaneBridges sh rtName = do {
     res \<leftarrow> Execute sh (del_br_cmd (railBridge rtName));
     case res of
       Inl err \<Rightarrow>
         if errors_Is err ErrTimeout then
           State_Monad.return (Some (WrapError (''failed to delete bridge '' @ railBridge rtName @ '': '') err []))
         else delete_xplane_bridge sh
     | Inr _ \<Rightarrow> delete_xplane_bridge sh
   }"

section \<open>The agent's own DaemonSet\<close>

definition flowcontrollerOwner :: "'w HostReconciler \<Rightarrow> ('w, OwnerReference result) op" where
  "flowcontrollerOwner r =
     (if snd (ownPod r) = [] \<or> fst (ownPod r) = [] then
        State_Monad.return (Inl (ErrorString ''POD_NAME and POD_NAMESPACE must identify the flowcontroller Pod''))
      else do {
        got \<leftarrow> observe (get_Pod (kube r) (ownPod r));
        case got of
          Inl err \<Rightarrow> State_Monad.return
            (Inl (WrapError (''failed to get flowcontroller Pod '' @ ObjectKey_String (lib r) (ownPod r) @ '': '') err []))
        | Inr pod \<Rightarrow>
            (let err = ErrorString (''flowcontroller Pod '' @ ObjectKey_String (lib r) (ownPod r) @
                   '' must be controlled by an apps/v1 DaemonSet'')
             in case GetControllerOf (lib r) pod of
                  None \<Rightarrow> State_Monad.return (Inl err)
                | Some owner \<Rightarrow>
                    if or_APIVersion owner \<noteq> ''apps/v1'' \<or> or_Kind owner \<noteq> ''DaemonSet'' \<or>
                       or_Name owner = [] \<or> or_UID owner = []
                    then State_Monad.return (Inl err) else State_Monad.return (Inr owner))
      })"

definition flowcontrollerTolerations :: "'w HostReconciler \<Rightarrow> ('w, Toleration list result) op" where
  "flowcontrollerTolerations r = do {
     own \<leftarrow> flowcontrollerOwner r;
     case own of
       Inl err \<Rightarrow> State_Monad.return (Inl err)
     | Inr owner \<Rightarrow> do {
         got \<leftarrow> observe (get_DaemonSet (kube r) (fst (ownPod r), or_Name owner));
         case got of
           Inl err \<Rightarrow> State_Monad.return (Inl (WrapError (''failed to get flowcontroller DaemonSet '' @
             ObjectKey_String (lib r) (fst (ownPod r), or_Name owner) @ '': '') err []))
         | Inr ds \<Rightarrow>
             if ds_UID ds \<noteq> or_UID owner then State_Monad.return (Inl (ErrorString (''flowcontroller DaemonSet '' @
               ObjectKey_String (lib r) (fst (ownPod r), or_Name owner) @ '' UID does not match Pod controller reference'')))
             else State_Monad.return (Inr (ds_Tolerations ds))
       }
   }"

section \<open>Deployment of xplane\<close>

definition updateDaemonsetNodeSelector :: "'w Lib \<Rightarrow> Unstructured \<Rightarrow> labels \<Rightarrow> Unstructured result" where
  "updateDaemonsetNodeSelector lb obj nodeSelector =
     (if nodeSelector = Map.empty then Inr obj
      else case kscheme_obj_ds lb obj of
        Inl err \<Rightarrow> Inl (ErrorString (''failed to convert Unstructured ['' @ u_Name obj @ ''] to DaemonSet: '' @ Error err))
      | Inr ds \<Rightarrow>
          (case kscheme_ds_obj lb (ds\<lparr>ds_NodeSelector := nodeSelector\<rparr>) of
             Inl err \<Rightarrow> Inl (ErrorString (''failed to convert DaemonSet ['' @ u_Name obj @ ''] to Unstructured: '' @ Error err))
           | Inr obj' \<Rightarrow> Inr obj'))"

definition syncDaemonSet :: "'w HostReconciler \<Rightarrow> SpectrumXRailPoolConfig \<Rightarrow> DaemonSet \<Rightarrow> ('w, goerr option) op" where
  "syncDaemonSet r rpc in0 =
     (case SetControllerReference_ds (lib r) rpc in0 of
        Inl err \<Rightarrow> State_Monad.return (Some err)
      | Inr inn \<Rightarrow> do {
          got \<leftarrow> observe (get_DaemonSet (kube r) (ds_Namespace inn, ds_Name inn));
          case got of
            Inl err \<Rightarrow>
              if IsNotFound (lib r) err then api_call (kube r) (CreateDaemonSet inn)
              else State_Monad.return (Some err)
          | Inr ds \<Rightarrow>
              if DeepEqual_owners (lib r) (ds_OwnerReferences inn) (ds_OwnerReferences ds) \<and>
                 DeepEqual_tolerations (lib r) (ds_Tolerations inn) (ds_Tolerations ds) \<and>
                 DeepDerivative_spec (lib r) inn ds
              then State_Monad.return None
              else api_call (kube r) (UpdateDaemonSet (inn\<lparr>ds_ResourceVersion := ds_ResourceVersion ds\<rparr>))
        })"

definition syncDsObject ::
    "'w HostReconciler \<Rightarrow> SpectrumXRailPoolConfig \<Rightarrow> Unstructured \<Rightarrow> Toleration list \<Rightarrow> ('w, goerr option) op" where
  "syncDsObject r rpc obj tolerations =
     (if u_Kind obj \<in> {''ServiceAccount'', ''Role'', ''RoleBinding''} then
        (case SetControllerReference_obj (lib r) rpc obj of
           Inl err \<Rightarrow> State_Monad.return (Some err)
         | Inr obj' \<Rightarrow> api_call (kube r) (ApplyUnstructured obj'))
      else if u_Kind obj = ''DaemonSet'' then
        (case updateDaemonsetNodeSelector (lib r) obj (NodeSelector (rpc_Spec rpc)) of
           Inl err \<Rightarrow> State_Monad.return (Some err)
         | Inr obj' \<Rightarrow>
             (case Convert_obj_ds (lib r) obj' of
                Inl err \<Rightarrow> State_Monad.return (Some err)
              | Inr ds \<Rightarrow> syncDaemonSet r rpc (ds\<lparr>ds_Tolerations := tolerations\<rparr>)))
      else State_Monad.return None)"

fun sync_objects :: "'w HostReconciler \<Rightarrow> SpectrumXRailPoolConfig \<Rightarrow> Toleration list \<Rightarrow> Unstructured list
    \<Rightarrow> ('w, goerr option) op" where
  "sync_objects r rpc tolerations [] = State_Monad.return None"
| "sync_objects r rpc tolerations (obj # objs) = do {
     err \<leftarrow> syncDsObject r rpc obj tolerations;
     case err of
       Some e \<Rightarrow> State_Monad.return (Some e)
     | None \<Rightarrow> sync_objects r rpc tolerations objs
   }"

definition deployXplane :: "'w HostReconciler \<Rightarrow> SpectrumXRailPoolConfig \<Rightarrow> string \<Rightarrow> ('w, goerr option) op" where
  "deployXplane r rpc namespace = do {
     tols \<leftarrow> flowcontrollerTolerations r;
     case tols of
       Inl err \<Rightarrow> State_Monad.return (Some err)
     | Inr tolerations \<Rightarrow> do {
         objs \<leftarrow> observe (RenderDir (lib r) ''manifests/state-xplane''
           \<lparr>rd_Namespace = namespace, rd_ImagePullSecrets = ImagePullSecrets (cfg r),
            rd_Image = XPlaneRepository (cfg r) @ ''/'' @ XPlaneImage (cfg r) @ '':'' @ XPlaneVersion (cfg r)\<rparr>);
         case objs of
           Inl err \<Rightarrow> State_Monad.return (Some (WrapError ''failed to render xplane manifests: '' err []))
         | Inr objs \<Rightarrow> sync_objects r rpc tolerations objs
       }
   }"

text \<open>
  The loop over the selected nodes that looks for the local one. \<open>Inl\<close> is a return from
  \<open>configureXPlane\<close>, \<open>Inr\<close> the state of the local node, if it was among them.
\<close>

fun find_local_state :: "'w HostReconciler \<Rightarrow> string \<Rightarrow> Node list \<Rightarrow> SriovNetworkNodeState option
    \<Rightarrow> ('w, goerr option + SriovNetworkNodeState option) op" where
  "find_local_state r namespace [] found = State_Monad.return (Inr found)"
| "find_local_state r namespace (node # nodes) found = do {
     got \<leftarrow> observe (get_SriovNodeState (kube r) (namespace, node_Name node));
     case got of
       Inl err \<Rightarrow>
         if IsNotFound (lib r) err then State_Monad.return (Inl None)
         else State_Monad.return (Inl (Some (WrapError
           (''failed to get SriovNetworkNodeState for node '' @ node_Name node @ '': '') err [])))
     | Inr nst \<Rightarrow>
         find_local_state r namespace nodes (if node_Name node = nodeName r then Some nst else found)
   }"

definition configureXPlane :: "'w HostReconciler \<Rightarrow> SpectrumXRailPoolConfig \<Rightarrow> SpectrumXRailPoolConfigSpec
    \<Rightarrow> RailTopology \<Rightarrow> string \<Rightarrow> ('w, goerr option) op" where
  "configureXPlane r rpc spec rt namespace = do {
     inst \<leftarrow> EnsureInstalled (osys r) (scriptContent r) (dropInContent r) (hostRoot r);
     case inst of
       Some err \<Rightarrow> State_Monad.return (Some (WrapError ''failed to install ovs safe-start hook: '' err []))
     | None \<Rightarrow> do {
         nodeList \<leftarrow> observe (list_Nodes (kube r) (NodeSelector spec));
         case nodeList of
           Inl err \<Rightarrow> State_Monad.return (Some (WrapError ''failed to list nodes: '' err []))
         | Inr nodes \<Rightarrow> do {
             found \<leftarrow> find_local_state r namespace nodes None;
             case found of
               Inl ret \<Rightarrow> State_Monad.return ret
             | Inr localNodeState \<Rightarrow>
                 if localNodeState = None then State_Monad.return None
                 else if \<not> pfsInSwitchdevMode localNodeState (pf_names rt) then State_Monad.return None
                 else do {
                   err \<leftarrow> createXPlaneBridges (shell r) rt;
                   case err of
                     Some e \<Rightarrow> State_Monad.return (Some (WrapError ''failed to create X-Plane bridges: '' e []))
                   | None \<Rightarrow> do {
                       err \<leftarrow> deployXplane r rpc namespace;
                       case err of
                         Some e \<Rightarrow> State_Monad.return (Some (WrapError ''failed to deploy xplane: '' e []))
                       | None \<Rightarrow> State_Monad.return None
                     }
                 }
           }
       }
   }"

section \<open>The bridge commands as plans\<close>

abbreviation wrap_in :: "string \<Rightarrow> goerr \<Rightarrow> goerr" where
  "wrap_in msg \<equiv> (\<lambda>err. WrapError msg err [])"

fun uplink_plan :: "RailTopology \<Rightarrow> nat \<Rightarrow> string list \<Rightarrow> tstep list" where
  "uplink_plan rt idx [] = []"
| "uplink_plan rt idx (pf # pfs) =
     (add_uplink_cmd rt pf (plane_id rt idx), False,
      wrap_in (''failed to add port '' @ pf @ '' to bridge '' @ xplaneBridge @ '': '')) # uplink_plan rt (Suc idx) pfs"

definition xplane_plan :: "RailTopology \<Rightarrow> tstep list" where
  "xplane_plan rt =
     (add_br_cmd xplaneBridge ''secure'', True, wrap_in (''failed to create bridge '' @ xplaneBridge @ '': '')) #
     (add_br_cmd (railBridge (rt_Name rt)) ''standalone'', True,
      wrap_in (''failed to create bridge '' @ railBridge (rt_Name rt) @ '': '')) #
     uplink_plan rt 0 (pf_names rt) @
     [(add_patch_cmd rt, False, wrap_in (''failed to add patch ports for bridge '' @ railBridge (rt_Name rt) @ '': ''))]"

definition cleanup_plan :: "string \<Rightarrow> tstep list" where
  "cleanup_plan name =
     [(del_br_cmd (railBridge name), False, wrap_in (''failed to delete bridge '' @ railBridge name @ '': '')),
      (del_br_cmd xplaneBridge, False, wrap_in (''failed to delete bridge '' @ xplaneBridge @ '': ''))]"

lemma add_uplinks_plan: "add_uplinks sh rt idx pfs = exec_tolerant (Execute sh) (uplink_plan rt idx pfs)"
proof (induction pfs arbitrary: idx)
  case (Cons pf pfs)
  show ?case by (simp only: add_uplinks.simps uplink_plan.simps exec_tolerant.simps Cons.IH simp_thms)
qed simp

lemma createXPlaneBridges_plan: "createXPlaneBridges sh rt = exec_tolerant (Execute sh) (xplane_plan rt)"
  by (simp only: createXPlaneBridges_def xplane_plan_def exec_tolerant.simps exec_tolerant_append add_uplinks_plan
      simp_thms if_True)

lemma cleanupXPlaneBridges_plan: "cleanupXPlaneBridges sh name = exec_tolerant (Execute sh) (cleanup_plan name)"
  by (simp only: cleanupXPlaneBridges_def delete_xplane_bridge_def cleanup_plan_def exec_tolerant.simps simp_thms)

lemmas bridge_plans = createXPlaneBridges_plan cleanupXPlaneBridges_plan

lemma uplink_plan_cmds:
  "map fst (uplink_plan rt idx pfs) =
   map (\<lambda>i. add_uplink_cmd rt (pfs ! i) (plane_id rt (idx + i))) [0..<length pfs]"
proof (induction pfs arbitrary: idx)
  case (Cons pf pfs)
  have "[0..<length (pf # pfs)] = 0 # map Suc [0..<length pfs]"
    by (simp add: upt_conv_Cons map_Suc_upt del: upt_Suc)
  then show ?case by (simp add: Cons.IH comp_def)
qed simp

text \<open>The commands for a rail: its bridges, one uplink per PF with its plane, the patch ports.\<close>

definition xplane_cmds :: "RailTopology \<Rightarrow> string list" where
  "xplane_cmds rt =
     [add_br_cmd xplaneBridge ''secure'', add_br_cmd (railBridge (rt_Name rt)) ''standalone''] @
     map (\<lambda>i. add_uplink_cmd rt (pf_names rt ! i) (plane_id rt i)) [0..<length (pf_names rt)] @
     [add_patch_cmd rt]"

lemma xplane_plan_cmds: "map fst (xplane_plan rt) = xplane_cmds rt"
  unfolding xplane_plan_def xplane_cmds_def list.map map_append fst_conv uplink_plan_cmds add_0
    append_Cons append_Nil
  by (rule refl)

lemma trace_create: "trace_spec (createXPlaneBridges sh rt) (tolerant_outcome (xplane_plan rt))"
  unfolding createXPlaneBridges_plan by (rule xapi.exec_tolerant_outcome)

lemma trace_cleanup: "trace_spec (cleanupXPlaneBridges sh name) (tolerant_outcome (cleanup_plan name))"
  unfolding cleanupXPlaneBridges_plan by (rule xapi.exec_tolerant_outcome)

section \<open>When nothing is configured\<close>

fun is_file :: "event \<Rightarrow> bool" where
  "is_file (File f r) = True"
| "is_file _ = False"

lemma emits_EnsureInstalled: "emits is_file (EnsureInstalled os a b root)"
  unfolding EnsureInstalled_def writeFileIfChanged_def replace_file_def do_file_def
  by (intro emits_bind emits_perform emits_observe emits_case_option emits_case_sum emits_if emits_return) simp_all

text \<open>
  The loop finds a state only for the local node, only if that node is among those listed, and
  only as the API server gave it.
\<close>

definition local_state_read :: "'w HostReconciler \<Rightarrow> string \<Rightarrow> SriovNetworkNodeState \<Rightarrow> bool" where
  "local_state_read r namespace nst \<longleftrightarrow>
     (\<exists>w. fst (get_SriovNodeState (kube r) (namespace, nodeName r) w) = Inr nst)"

lemma trace_find_local_state:
  "trace_spec (find_local_state r namespace nodes found)
     (\<lambda>x es. es = [] \<and> (\<forall>nst. x = Inr (Some nst) \<longrightarrow>
        found = Some nst \<or> nodeName r \<in> node_Name ` set nodes \<and> local_state_read r namespace nst))"
proof (induction nodes arbitrary: found)
  case (Cons node nodes)
  have read: "trace_spec (observe (get_SriovNodeState (kube r) (namespace, node_Name node)))
      (\<lambda>x es. es = [] \<and> (\<exists>w. fst (get_SriovNodeState (kube r) (namespace, node_Name node) w) = x))"
    by (rule trace_observe_fact) blast
  show ?case
    unfolding find_local_state.simps
  proof (intro trace_bindI [OF read] trace_case_sum trace_if trace_returnI)
    fix a nst and es1 :: "event list"
    assume "es1 = [] \<and> (\<exists>w. fst (get_SriovNodeState (kube r) (namespace, node_Name node) w) = a)" "a = Inr nst"
    then show "trace_spec (find_local_state r namespace nodes (if node_Name node = nodeName r then Some nst else found))
        (\<lambda>x es. es1 @ es = [] \<and> (\<forall>nst. x = Inr (Some nst) \<longrightarrow> found = Some nst \<or>
          nodeName r \<in> node_Name ` set (node # nodes) \<and> local_state_read r namespace nst))"
      by (intro trace_spec_weaken [OF Cons.IH]) (auto simp: local_state_read_def split: if_splits)
  qed simp_all
qed (simp add: trace_returnI)

text \<open>The local node is not selected, or its PFs are not in switchdev mode.\<close>

definition not_ready :: "'w HostReconciler \<Rightarrow> SpectrumXRailPoolConfigSpec \<Rightarrow> RailTopology \<Rightarrow> string \<Rightarrow> bool" where
  "not_ready r spec rt namespace \<longleftrightarrow>
     (\<forall>w nodes. fst (list_Nodes (kube r) (NodeSelector spec) w) = Inr nodes \<longrightarrow> nodeName r \<notin> node_Name ` set nodes) \<or>
     (\<forall>nst. local_state_read r namespace nst \<longrightarrow> \<not> pfsInSwitchdevMode (Some nst) (pf_names rt))"

section \<open>Properties\<close>

text \<open>
  The bridges of a multiplane rail are set up by the commands \<open>xplane_cmds\<close> in that
  order: the shared bridge, the rail's bridge, one uplink per PF with its plane, the patch ports.
  Success means that all of them were run and none timed out. A failure ends the sequence: it is
  a failure to create one of the two bridges, or a timeout.
\<close>

lemma createXPlaneBridges_in_order:
  "trace_spec (createXPlaneBridges sh rt) (\<lambda>r es.
     prefix (cmds es) (xplane_cmds rt) \<and>
     (r = None \<longrightarrow> cmds es = xplane_cmds rt \<and> (\<forall>e \<in> set es. \<not> timed_out e)) \<and>
     (r \<noteq> None \<longrightarrow> (\<exists>pre c e. es = pre @ [Cmd c (Inl e)] \<and> (\<forall>x \<in> set pre. \<not> timed_out x) \<and>
        (errors_Is e ErrTimeout \<or>
         c \<in> {add_br_cmd xplaneBridge ''secure'', add_br_cmd (railBridge (rt_Name rt)) ''standalone''}))))"
proof (rule trace_spec_weaken [OF trace_create], intro conjI impI)
  fix r es
  assume out: "tolerant_outcome (xplane_plan rt) r es"
  show "prefix (cmds es) (xplane_cmds rt)"
    using tolerant_outcome_prefix [OF out] by (simp only: xplane_plan_cmds)
  show "cmds es = xplane_cmds rt" "\<forall>e \<in> set es. \<not> timed_out e" if "r = None"
    using tolerant_outcome_success [of "xplane_plan rt" es] out that unfolding xplane_plan_cmds by blast+
  assume "r \<noteq> None"
  then obtain err where "r = Some err" by blast
  with tolerant_outcome_failure [of "xplane_plan rt" err es] out
  obtain pre c strict wrap e where f: "es = pre @ [Cmd c (Inl e)]" "(c, strict, wrap) \<in> set (xplane_plan rt)"
    "strict \<or> errors_Is e ErrTimeout" "\<forall>x \<in> set pre. \<not> timed_out x"
    unfolding fatal_end_def by blast
  have "(c', True, w') \<notin> set (uplink_plan rt' k pfs)" for c' w' rt' k pfs
    by (induction pfs arbitrary: k) simp_all
  then have "strict \<Longrightarrow>
      c \<in> {add_br_cmd xplaneBridge ''secure'', add_br_cmd (railBridge (rt_Name rt)) ''standalone''}"
    using f(2) unfolding xplane_plan_def by auto
  with f show "\<exists>pre c e. es = pre @ [Cmd c (Inl e)] \<and> (\<forall>x \<in> set pre. \<not> timed_out x) \<and> (errors_Is e ErrTimeout \<or>
      c \<in> {add_br_cmd xplaneBridge ''secure'', add_br_cmd (railBridge (rt_Name rt)) ''standalone''})"
    by blast
qed

lemma all_ok_tolerant: "fst (run_state (exec_tolerant (Execute all_ok_shell) p) s) = None"
proof (induction p arbitrary: s)
  case (Cons a p)
  obtain c strict wrap where "a = (c, strict, wrap)" by (cases a)
  with Cons show ?case by (simp add: Execute_def all_ok_shell_def split: prod.splits)
qed simp

lemma plane_id_exact:
  assumes "length (pf_names rt) = n" "i < n" "0 \<le> SwPlane rt" "int n * (SwPlane rt + 1) \<le> 2 ^ 63"
  shows "plane_id rt i = int n * SwPlane rt + int i"
proof -
  have "0 \<le> int n * SwPlane rt" using assms(3) by simp
  moreover have "int n * SwPlane rt + int i < 2 ^ 63" using assms(2,4) by (simp add: algebra_simps)
  ultimately show ?thesis using assms(1) by (simp add: plane_id_def wrap_int_def)
qed

text \<open>
  Property C24. Within a pool whose rails all have the same number of PFs, no two uplinks get the
  same plane, and the planes of a rail are the numbers of its own block: as long as the numbers
  fit into 64 bits nothing wraps around, and the plane determines the switch plane of the
  rail and the position of the PF.
\<close>

theorem plane_ids_apart:
  assumes "length (pf_names rt) = n" "length (pf_names rt') = n" "i < n" "k < n"
    and "0 \<le> SwPlane rt" "0 \<le> SwPlane rt'"
    and "int n * (SwPlane rt + 1) \<le> 2 ^ 63" "int n * (SwPlane rt' + 1) \<le> 2 ^ 63"
  shows "int n * SwPlane rt \<le> plane_id rt i \<and> plane_id rt i < int n * (SwPlane rt + 1) \<and>
    (plane_id rt i = plane_id rt' k \<longleftrightarrow> SwPlane rt = SwPlane rt' \<and> i = k)"
proof -
  have "(int n * a + int m) mod int n = int m \<and> (int n * a + int m) div int n = a" if "m < n" for a m
    using that by simp
  with assms(3,4) have "int n * SwPlane rt + int i = int n * SwPlane rt' + int k \<longleftrightarrow> SwPlane rt = SwPlane rt' \<and> i = k"
    by (metis of_nat_eq_iff)
  with plane_id_exact [OF assms(1,3,5,7)] plane_id_exact [OF assms(2,4,6,8)] assms(3) show ?thesis
    by (simp add: distrib_left)
qed

theorem plane_ids_apart_witness:
  "let rt = demo_rail ''a'' [''p0'', ''p1'']; rt' = (demo_rail ''b'' [''q0'', ''q1''])\<lparr>SwPlane := 1\<rparr> in
   plane_id rt 1 < 2 \<and> plane_id rt 1 \<noteq> plane_id rt' 0"
  using plane_ids_apart [of "demo_rail ''a'' [''p0'', ''p1'']" 2 "(demo_rail ''b'' [''q0'', ''q1''])\<lparr>SwPlane := 1\<rparr>" 1 0]
  by (simp add: Let_def demo_rail_def)

text \<open>
  Tearing down a rail runs the deletion of the rail's bridge and of the shared bridge
  \<open>br-xplane\<close>, whether or not another rail still uses the latter; it fails exactly when one of
  the two commands timed out, and passes over every other failure.
\<close>

lemma cleanupXPlaneBridges_deletes_both:
  "trace_spec (cleanupXPlaneBridges sh name) (\<lambda>r es.
     (r = None \<longrightarrow> cmds es = [del_br_cmd (railBridge name), del_br_cmd xplaneBridge]) \<and>
     (r \<noteq> None) = (\<exists>e \<in> set es. timed_out e))"
proof (rule trace_spec_weaken [OF trace_cleanup], intro conjI impI)
  fix r es
  assume out: "tolerant_outcome (cleanup_plan name) r es"
  have plan: "map fst (cleanup_plan name) = [del_br_cmd (railBridge name), del_br_cmd xplaneBridge]"
    by (simp add: cleanup_plan_def)
  show "cmds es = [del_br_cmd (railBridge name), del_br_cmd xplaneBridge]" if "r = None"
    using tolerant_outcome_success [of "cleanup_plan name" es] out that plan by simp
  have "\<exists>e \<in> set es. timed_out e" if "r = Some err" for err
  proof -
    from tolerant_outcome_failure [of "cleanup_plan name" err es] out that
    obtain pre c e wrap strict where "es = pre @ [Cmd c (Inl e)]" "(c, strict, wrap) \<in> set (cleanup_plan name)"
      "strict \<or> errors_Is e ErrTimeout" unfolding fatal_end_def by blast
    then show ?thesis by (auto simp: cleanup_plan_def)
  qed
  moreover have "\<not> (\<exists>e \<in> set es. timed_out e)" if "r = None"
    using tolerant_outcome_success [of "cleanup_plan name" es] out that by blast
  ultimately show "(r \<noteq> None) = (\<exists>e \<in> set es. timed_out e)" by (cases r) auto
qed

text \<open>
  Property C27. As long as the local node is not among the selected nodes, or its SR-IOV state does
  not show every PF of the rail in switchdev mode, configuring a multiplane rail runs no OVS
  command and writes no object: all it does is to install the safe-start hook.
\<close>

theorem configureXPlane_waits:
  assumes "not_ready r spec rt namespace"
  shows "emits is_file (configureXPlane r rpc spec rt namespace)"
proof -
  have nodes: "trace_spec (observe (list_Nodes (kube r) (NodeSelector spec)))
      (\<lambda>x es. es = [] \<and> (\<exists>w. fst (list_Nodes (kube r) (NodeSelector spec) w) = x))"
    by (rule trace_observe_fact) blast
  have files: "trace_spec (EnsureInstalled (osys r) (scriptContent r) (dropInContent r) (hostRoot r))
      (\<lambda>_ es. \<forall>e \<in> set es. is_file e)"
    using emits_EnsureInstalled by (simp add: emits_def)
  show ?thesis
    unfolding emits_def configureXPlane_def
  proof (intro trace_bindI [OF files] trace_bindI [OF nodes] trace_bindI [OF trace_find_local_state]
      trace_case_option trace_case_sum trace_if trace_returnI)
  qed (use assms in \<open>auto simp: not_ready_def\<close>)
qed

theorem configureXPlane_waits_witness:
  "let rpc = demo_rpc [] []; rt = demo_rail ''a'' [''p0'', ''p1''] in
   emits is_file (configureXPlane (demo rpc) rpc (rpc_Spec rpc) rt ''ns'')"
proof -
  have "not_ready (demo (demo_rpc [] [])) (rpc_Spec (demo_rpc [] [])) (demo_rail ''a'' [''p0'', ''p1'']) ''ns''"
    by (simp add: not_ready_def local_state_read_def demo_defs pfsInSwitchdevMode_def index_interfaces_def)
  then show ?thesis unfolding Let_def by (rule configureXPlane_waits)
qed

text \<open>
  The tolerations given to the xplane DaemonSet are those of the DaemonSet that
  controls the agent's own pod, and only if that DaemonSet still has the UID of the pod's owner
  reference; otherwise the agent reports an error instead of guessing.
\<close>

lemma flowcontrollerTolerations_own:
  assumes "get_Pod (kube r) (ownPod r) (env s) = (Inr pod, w1)"
    and "GetControllerOf (lib r) pod = Some owner"
    and "get_DaemonSet (kube r) (fst (ownPod r), or_Name owner) w1 = (Inr ds, w2)"
  shows "fst (run_state (flowcontrollerTolerations r) s) = Inr tolerations \<longleftrightarrow>
    tolerations = ds_Tolerations ds \<and> ds_UID ds = or_UID owner \<and> or_UID owner \<noteq> [] \<and> or_Name owner \<noteq> [] \<and>
    or_APIVersion owner = ''apps/v1'' \<and> or_Kind owner = ''DaemonSet'' \<and> fst (ownPod r) \<noteq> [] \<and> snd (ownPod r) \<noteq> []"
  using assms by (auto simp: flowcontrollerTolerations_def flowcontrollerOwner_def Let_def)

definition agent_owner :: OwnerReference where
  "agent_owner = \<lparr>or_APIVersion = ''apps/v1'', or_Kind = ''DaemonSet'', or_Name = ''ds'', or_UID = ''u1'',
     or_Controller = Some True\<rparr>"

definition agent_pod :: Pod where
  "agent_pod = \<lparr>pod_Name = ''agent'', pod_Namespace = ''ns'', pod_UID = ''u2'', pod_NodeName = ''node'',
     pod_DeletionTimestamp = None, pod_Annotations = None, pod_OwnerReferences = [agent_owner]\<rparr>"

definition agent_ds :: "Toleration list \<Rightarrow> DaemonSet" where
  "agent_ds tols = \<lparr>ds_Name = ''ds'', ds_Namespace = ''ns'', ds_UID = ''u1'', ds_ResourceVersion = ''7'',
     ds_OwnerReferences = [], ds_Tolerations = tols, ds_NodeSelector = Map.empty, ds_Rest = []\<rparr>"

definition agent_client :: "Toleration list \<Rightarrow> disk Client" where
  "agent_client tols = (demo_client (demo_rpc [] []) [])\<lparr>
     get_Pod := (\<lambda>k w. (Inr agent_pod, w)), get_DaemonSet := (\<lambda>k w. (Inr (agent_ds tols), w))\<rparr>"

text \<open>
  What the conversions and the owner reference are relied on for: setting the owner leaves
  tolerations and node selector alone, and the node selector of a DaemonSet survives the way
  through an unstructured object.
\<close>

definition daemonset_law :: "'w Lib \<Rightarrow> bool" where
  "daemonset_law lb \<longleftrightarrow>
     (\<forall>rpc ds ds'. SetControllerReference_ds lb rpc ds = Inr ds' \<longrightarrow>
        ds_Tolerations ds' = ds_Tolerations ds \<and> ds_NodeSelector ds' = ds_NodeSelector ds) \<and>
     (\<forall>ds u ds'. kscheme_ds_obj lb ds = Inr u \<longrightarrow> Convert_obj_ds lb u = Inr ds' \<longrightarrow>
        ds_NodeSelector ds' = ds_NodeSelector ds)"

definition placed :: "SpectrumXRailPoolConfig \<Rightarrow> Toleration list \<Rightarrow> DaemonSet \<Rightarrow> bool" where
  "placed rpc tolerations ds \<longleftrightarrow>
     ds_Tolerations ds = tolerations \<and>
     (NodeSelector (rpc_Spec rpc) \<noteq> Map.empty \<longrightarrow> ds_NodeSelector ds = NodeSelector (rpc_Spec rpc))"

definition places_daemonsets :: "SpectrumXRailPoolConfig \<Rightarrow> Toleration list \<Rightarrow> event \<Rightarrow> bool" where
  "places_daemonsets rpc tolerations e =
     (case e of
        Api (CreateDaemonSet ds) err \<Rightarrow> placed rpc tolerations ds
      | Api (UpdateDaemonSet ds) err \<Rightarrow> placed rpc tolerations ds
      | Api (ApplyUnstructured u) err \<Rightarrow> True
      | _ \<Rightarrow> False)"

lemma placed_owned:
  assumes "daemonset_law lb" "placed rpc tols ds" "SetControllerReference_ds lb rpc ds = Inr inn"
  shows "placed rpc tols inn"
  using assms by (auto simp: daemonset_law_def placed_def)

lemma emits_syncDaemonSet:
  assumes "daemonset_law (lib r)" "placed rpc tols ds"
  shows "emits (places_daemonsets rpc tols) (syncDaemonSet r rpc ds)"
  unfolding syncDaemonSet_def
proof (intro emits_case_sum emits_bind emits_observe emits_if emits_return emits_api_call)
  fix inn ds' err
  assume "SetControllerReference_ds (lib r) rpc ds = Inr inn"
  then have "placed rpc tols inn" by (rule placed_owned [OF assms])
  then show "places_daemonsets rpc tols (Api (CreateDaemonSet inn) err)"
    "places_daemonsets rpc tols (Api (UpdateDaemonSet (inn\<lparr>ds_ResourceVersion := ds_ResourceVersion ds'\<rparr>)) err)"
    by (simp_all add: places_daemonsets_def placed_def)
qed

lemma placed_converted:
  assumes "daemonset_law lb" "updateDaemonsetNodeSelector lb obj (NodeSelector (rpc_Spec rpc)) = Inr obj'"
    and "Convert_obj_ds lb obj' = Inr ds"
  shows "placed rpc tols (ds\<lparr>ds_Tolerations := tols\<rparr>)"
proof (cases "NodeSelector (rpc_Spec rpc) = Map.empty")
  case True
  then show ?thesis by (simp add: placed_def)
next
  case False
  with assms(2) obtain ds0 where "kscheme_ds_obj lb (ds0\<lparr>ds_NodeSelector := NodeSelector (rpc_Spec rpc)\<rparr>) = Inr obj'"
    by (auto simp: updateDaemonsetNodeSelector_def split: sum.splits)
  with assms(1,3) have "ds_NodeSelector ds = NodeSelector (rpc_Spec rpc)"
    unfolding daemonset_law_def by fastforce
  then show ?thesis by (simp add: placed_def)
qed

lemma emits_syncDsObject:
  assumes "daemonset_law (lib r)"
  shows "emits (places_daemonsets rpc tols) (syncDsObject r rpc obj tols)"
  unfolding syncDsObject_def
  by (intro emits_if emits_case_sum emits_return emits_api_call emits_syncDaemonSet assms placed_converted [OF assms])
    (simp_all add: places_daemonsets_def)

lemma emits_sync_objects:
  assumes "daemonset_law (lib r)"
  shows "emits (places_daemonsets rpc tols) (sync_objects r rpc tols objs)"
proof (induction objs)
  case (Cons obj objs)
  show ?case
    unfolding sync_objects.simps
    by (intro emits_bind emits_case_option emits_return emits_syncDsObject assms Cons)
qed (simp add: emits_return)

text \<open>
  Every DaemonSet that a deployment of xplane creates or updates has the
  tolerations that were read for the agent, and the pool's node selector if the pool has one;
  apart from DaemonSets only service accounts, roles and role bindings are applied.
\<close>

lemma deployXplane_places:
  assumes "daemonset_law (lib r)"
    and "\<forall>w t. fst (run_state (flowcontrollerTolerations r) w) = Inr t \<longrightarrow> t = tols"
  shows "emits (places_daemonsets rpc tols) (deployXplane r rpc namespace)"
proof -
  have read: "trace_spec (flowcontrollerTolerations r) (\<lambda>x es. es = [] \<and> (\<forall>t. x = Inr t \<longrightarrow> t = tols))"
  proof (rule trace_spec_result)
    have "emits (\<lambda>_. False) (flowcontrollerTolerations r)"
      unfolding flowcontrollerTolerations_def flowcontrollerOwner_def Let_def
      by (intro emits_bind emits_if emits_observe emits_case_sum emits_case_option emits_return)
    then show "trace_spec (flowcontrollerTolerations r) (\<lambda>x es. es = [])"
      unfolding emits_def by (rule trace_spec_weaken) simp
  qed (use assms(2) in blast)
  show ?thesis
    unfolding emits_def deployXplane_def
    by (intro trace_bindI [OF read] trace_bindI [OF trace_observe] trace_case_sum trace_returnI)
      (use emits_sync_objects [OF assms(1)] in \<open>auto simp: emits_def\<close>)
qed

end
