(* ===== verification/Rail_Reconciler.thy ===== *)
theory Rail_Reconciler
  imports Status XPlane
begin

text \<open>
  \<^verbatim>\<open>spectrumxrailpoolconfig_host_flows_controller.go\<close>: \<open>doReconcile\<close> and everything it is made of
  that is not in \<open>Status\<close>, \<open>Generate\<close> and \<open>XPlane\<close>. The objects of a rail are patched, the
  objects of removed rails are deleted, and the finalizer frames the life of the resource.
\<close>

definition finalizerName :: string where
  "finalizerName = ''spectrumx.nvidia.com/spectrumxrailpoolconfig''"

section \<open>Patches\<close>

definition patching :: "'w HostReconciler \<Rightarrow> string \<Rightarrow> nsname \<Rightarrow> goerr \<Rightarrow> goerr" where
  "patching r kind key err =
     WrapError (''error while patching '' @ GVK_String (lib r) kind @ '' '' @ ObjectKey_String (lib r) key @ '': '') err []"

definition pool_config :: "SpectrumXRailPoolConfig \<Rightarrow> SriovNetworkPoolConfig" where
  "pool_config rpc = (generateSRIOVNetworkPoolConfig rpc)
     \<lparr>pc_Kind := sriovNetworkPoolConfig, pc_Labels := [labelOwnerName \<mapsto> rpc_Name rpc]\<rparr>"

definition applyPoolConfig :: "'w HostReconciler \<Rightarrow> SpectrumXRailPoolConfig \<Rightarrow> ('w, goerr option) op" where
  "applyPoolConfig r rpc = do {
     err \<leftarrow> api_call (kube r) (PatchPoolConfig (pool_config rpc));
     case err of
       Some e \<Rightarrow> State_Monad.return (Some (patching r sriovNetworkPoolConfig (rpc_Namespace rpc, rpc_Name rpc) e))
     | None \<Rightarrow> State_Monad.return None
   }"

definition owner_labels :: "SpectrumXRailPoolConfig \<Rightarrow> RailTopology \<Rightarrow> labels" where
  "owner_labels rpc rt =
     (let base = [labelOwnerName \<mapsto> rpc_Name rpc, labelRailTopologyName \<mapsto> rt_Name rt]
      in if length (pf_names rt) > 1 then base(labelMultiplane \<mapsto> labelMultiplaneValue) else base)"

definition primary_policy :: "SpectrumXRailPoolConfig \<Rightarrow> RailTopology \<Rightarrow> string \<Rightarrow> SriovNetworkNodePolicy" where
  "primary_policy rpc rt firstPF =
     (generateSRIOVNetworkNodePolicy (rpc_Spec rpc) rt (rt_Name rt) (rt_Name rt) [firstPF] (NumVfs (rpc_Spec rpc))
        (length (pf_names rt) > 1) (rpc_Namespace rpc))\<lparr>np_Labels := owner_labels rpc rt\<rparr>"

definition secondary_policy :: "SpectrumXRailPoolConfig \<Rightarrow> RailTopology \<Rightarrow> string list \<Rightarrow> SriovNetworkNodePolicy" where
  "secondary_policy rpc rt remainingPFs =
     (generateSRIOVNetworkNodePolicy (rpc_Spec rpc) rt (rt_Name rt @ unusedPolicySuffix) (rt_Name rt @ unusedPolicySuffix)
        remainingPFs 1 True (rpc_Namespace rpc))\<lparr>np_Labels := owner_labels rpc rt\<rparr>"

definition ovs_network :: "SpectrumXRailPoolConfig \<Rightarrow> RailTopology \<Rightarrow> bool \<Rightarrow> OVSNetwork" where
  "ovs_network rpc rt addVRF =
     (generateOVSNetwork (rpc_Spec rpc) rt (length (pf_names rt) > 1) addVRF (rpc_Namespace rpc))
       \<lparr>on_Kind := sriovOVSNetworkType, on_Labels := owner_labels rpc rt\<rparr>"

text \<open>Whether the VRF plugin is added; a pool that does not exist is no error.\<close>

definition decide_vrf :: "'w HostReconciler \<Rightarrow> RailTopology \<Rightarrow> string \<Rightarrow> ('w, bool result) op" where
  "decide_vrf r rt namespace =
     (if CidrPoolRef rt = [] then State_Monad.return (Inr False)
      else do {
        isIPv6 \<leftarrow> isCidrPoolIPv6 r (CidrPoolRef rt) namespace;
        case isIPv6 of
          Inl err \<Rightarrow>
            if \<not> IsNotFound (lib r) err then State_Monad.return
              (Inl (WrapError (''failed to check CIDRPool '' @ CidrPoolRef rt @ '' for IPv6: '') err []))
            else State_Monad.return (Inr False)
        | Inr b \<Rightarrow> State_Monad.return (Inr b)
      })"

text \<open>The part of \<open>reconcileRailTopology\<close> after the node policies.\<close>

definition reconcile_network :: "'w HostReconciler \<Rightarrow> SpectrumXRailPoolConfig \<Rightarrow> RailTopology \<Rightarrow> ('w, goerr option) op" where
  "reconcile_network r rpc rt = do {
     vrf \<leftarrow> decide_vrf r rt (rpc_Namespace rpc);
     case vrf of
       Inl err \<Rightarrow> State_Monad.return (Some err)
     | Inr addVRF \<Rightarrow> do {
         err \<leftarrow> api_call (kube r) (PatchOVSNetwork (ovs_network rpc rt addVRF));
         case err of
           Some e \<Rightarrow> State_Monad.return (Some (patching r sriovOVSNetworkType (rpc_Namespace rpc, rt_Name rt) e))
         | None \<Rightarrow>
             if length (pf_names rt) > 1 then do {
               err \<leftarrow> configureXPlane r rpc (rpc_Spec rpc) rt (rpc_Namespace rpc);
               case err of
                 Some e \<Rightarrow> State_Monad.return
                   (Some (WrapError (''failed to configure xplane for rail topology '' @ rt_Name rt @ '': '') e []))
               | None \<Rightarrow> State_Monad.return None
             }
             else State_Monad.return None
       }
   }"

definition reconcileRailTopology :: "'w HostReconciler \<Rightarrow> SpectrumXRailPoolConfig \<Rightarrow> RailTopology \<Rightarrow> ('w, goerr option) op" where
  "reconcileRailTopology r rpc rt =
     (case pf_names rt of
        [] \<Rightarrow> State_Monad.return (Some (ErrorString ''no PF names are specified in rail topology''))
      | firstPF # remainingPFs \<Rightarrow> do {
          err \<leftarrow> api_call (kube r) (PatchPolicy (primary_policy rpc rt firstPF));
          case err of
            Some e \<Rightarrow> State_Monad.return (Some (patching r sriovNodePolicyType (rpc_Namespace rpc, rt_Name rt) e))
          | None \<Rightarrow>
              if remainingPFs \<noteq> [] then do {
                err \<leftarrow> api_call (kube r) (PatchPolicy (secondary_policy rpc rt remainingPFs));
                case err of
                  Some e \<Rightarrow> State_Monad.return
                    (Some (patching r sriovNodePolicyType (rpc_Namespace rpc, rt_Name rt @ unusedPolicySuffix) e))
                | None \<Rightarrow> reconcile_network r rpc rt
              }
              else reconcile_network r rpc rt
        })"

fun reconcile_rails :: "'w HostReconciler \<Rightarrow> SpectrumXRailPoolConfig \<Rightarrow> RailTopology list \<Rightarrow> ('w, goerr option) op" where
  "reconcile_rails r rpc [] = State_Monad.return None"
| "reconcile_rails r rpc (rt # rts) = do {
     err \<leftarrow> reconcileRailTopology r rpc rt;
     case err of
       Some e \<Rightarrow> State_Monad.return (Some e)
     | None \<Rightarrow> reconcile_rails r rpc rts
   }"

definition reconcileRailTopologies :: "'w HostReconciler \<Rightarrow> SpectrumXRailPoolConfig \<Rightarrow> ('w, goerr option) op" where
  "reconcileRailTopologies r rpc = reconcile_rails r rpc (RailTopologies (rpc_Spec rpc))"

section \<open>Deletions\<close>

definition deleting :: "string \<Rightarrow> nsname \<Rightarrow> goerr \<Rightarrow> goerr" where
  "deleting what key err = WrapError (''failed to delete '' @ what @ '' '' @ fst key @ ''/'' @ snd key @ '': '') err []"

definition delete_object :: "'w HostReconciler \<Rightarrow> api_write \<Rightarrow> (goerr \<Rightarrow> goerr) \<Rightarrow> ('w, goerr option) op" where
  "delete_object r a wrap = do {
     err \<leftarrow> api_call (kube r) a;
     case relevant_error (lib r) err of
       Some e \<Rightarrow> State_Monad.return (Some (wrap e))
     | None \<Rightarrow> State_Monad.return None
   }"

definition deleteRailTopologyResources :: "'w HostReconciler \<Rightarrow> string \<Rightarrow> string \<Rightarrow> ('w, goerr option) op" where
  "deleteRailTopologyResources r namespace rtName = do {
     err \<leftarrow> delete_object r (DeletePolicy (namespace, rtName))
       (deleting ''SriovNetworkNodePolicy'' (namespace, rtName));
     case err of
       Some e \<Rightarrow> State_Monad.return (Some e)
     | None \<Rightarrow> do {
         err \<leftarrow> delete_object r (DeletePolicy (namespace, rtName @ unusedPolicySuffix))
           (deleting ''secondary SriovNetworkNodePolicy'' (namespace, rtName @ unusedPolicySuffix));
         case err of
           Some e \<Rightarrow> State_Monad.return (Some e)
         | None \<Rightarrow> delete_object r (DeleteOVSNetwork (namespace, rtName)) (deleting ''OVSNetwork'' (namespace, rtName))
       }
   }"

text \<open>Tearing a rail down: its bridges if it is a multiplane rail, then its objects.\<close>

definition tear_down :: "'w HostReconciler \<Rightarrow> string \<Rightarrow> string \<Rightarrow> bool \<Rightarrow> ('w, goerr option) op" where
  "tear_down r namespace rtName isMultiplane =
     (if isMultiplane then do {
        err \<leftarrow> cleanupXPlaneBridges (shell r) rtName;
        case err of
          Some e \<Rightarrow> State_Monad.return (Some e)
        | None \<Rightarrow> deleteRailTopologyResources r namespace rtName
      }
      else deleteRailTopologyResources r namespace rtName)"

text \<open>
  The loop of \<open>handleDeletion\<close> over the rails. \<open>Some err\<close> is a return from \<open>handleDeletion\<close>
  with \<open>done\<close> set.
\<close>

fun delete_rails :: "'w HostReconciler \<Rightarrow> SpectrumXRailPoolConfig \<Rightarrow> RailTopology list \<Rightarrow> ('w, goerr option) op" where
  "delete_rails r rpc [] = State_Monad.return None"
| "delete_rails r rpc (rt # rts) = do {
     err \<leftarrow> tear_down r (rpc_Namespace rpc) (rt_Name rt) (length (pf_names rt) > 1);
     case err of
       None \<Rightarrow> delete_rails r rpc rts
     | Some e \<Rightarrow> do {
         selected \<leftarrow> localNodeMatchesSelector r (NodeSelector (rpc_Spec rpc));
         case selected of
           Inl selectorErr \<Rightarrow> State_Monad.return (Some e)
         | Inr localNodeSelected \<Rightarrow>
             if localNodeSelected then do {
               res \<leftarrow> patchSyncStatusWithMessage r rpc SyncStatusFailed
                 (statusMessage ''failed to delete rail topology resources'' e);
               case fst res of
                 Some e' \<Rightarrow> State_Monad.return (Some e')
               | None \<Rightarrow> State_Monad.return (Some e)
             }
             else State_Monad.return (Some e)
       }
   }"

text \<open>\<open>Inl\<close>: not being deleted; \<open>Inr err\<close>: done, with the error to return.\<close>

definition handleDeletion :: "'w HostReconciler \<Rightarrow> SpectrumXRailPoolConfig \<Rightarrow> ('w, unit + goerr option) op" where
  "handleDeletion r rpc =
     (if DeletionTimestamp rpc = None then State_Monad.return (Inl ())
      else do {
        err \<leftarrow> delete_rails r rpc (RailTopologies (rpc_Spec rpc));
        case err of
          Some e \<Rightarrow> State_Monad.return (Inr (Some e))
        | None \<Rightarrow> do {
            err \<leftarrow> delete_object r (DeletePoolConfig (rpc_Namespace rpc, rpc_Name rpc))
              (deleting ''SriovNetworkPoolConfig'' (rpc_Namespace rpc, rpc_Name rpc));
            case err of
              Some e \<Rightarrow> State_Monad.return (Inr (Some e))
            | None \<Rightarrow> do {
                err \<leftarrow> api_call (kube r) (PatchFinalizers (rpc_Namespace rpc, rpc_Name rpc)
                  (Finalizers (RemoveFinalizer (lib r) rpc finalizerName)));
                State_Monad.return (Inr err)
              }
          }
      })"

definition label_value :: "labels \<Rightarrow> string \<Rightarrow> string" where
  "label_value m k = (case m k of Some v \<Rightarrow> v | None \<Rightarrow> [])"

definition policy_rail :: "SriovNetworkNodePolicy \<Rightarrow> string" where
  "policy_rail p =
     (if label_value (np_Labels p) labelRailTopologyName = [] then np_Name p
      else label_value (np_Labels p) labelRailTopologyName)"

definition policy_multiplane :: "SriovNetworkNodePolicy \<Rightarrow> bool" where
  "policy_multiplane p \<longleftrightarrow>
     label_value (np_Labels p) labelMultiplane = labelMultiplaneValue \<or>
     label_value (np_Labels p) labelRailTopologyName = [] \<and> length (np_PfNames p) > 1"

text \<open>The loop over the listed policies; \<open>deleted\<close> has the names done so far.\<close>

fun delete_removed :: "'w HostReconciler \<Rightarrow> SpectrumXRailPoolConfig \<Rightarrow> string set \<Rightarrow> SriovNetworkNodePolicy list \<Rightarrow> string set
    \<Rightarrow> ('w, goerr option) op" where
  "delete_removed r rpc current [] deleted = State_Monad.return None"
| "delete_removed r rpc current (policy # policies) deleted =
     (if policy_rail policy \<in> current then delete_removed r rpc current policies deleted
      else if policy_rail policy \<in> deleted then delete_removed r rpc current policies deleted
      else do {
        err \<leftarrow> tear_down r (rpc_Namespace rpc) (policy_rail policy) (policy_multiplane policy);
        case err of
          Some e \<Rightarrow> State_Monad.return (Some e)
        | None \<Rightarrow> delete_removed r rpc current policies (insert (policy_rail policy) deleted)
      })"

definition rail_names :: "SpectrumXRailPoolConfig \<Rightarrow> string set" where
  "rail_names rpc = rt_Name ` set (RailTopologies (rpc_Spec rpc))"

definition deleteRemovedRailTopologies :: "'w HostReconciler \<Rightarrow> SpectrumXRailPoolConfig \<Rightarrow> ('w, goerr option) op" where
  "deleteRemovedRailTopologies r rpc = do {
     policyList \<leftarrow> observe (list_NodePolicies (kube r) (rpc_Namespace rpc) [labelOwnerName \<mapsto> rpc_Name rpc]);
     case policyList of
       Inl err \<Rightarrow>
         if \<not> IsNotFound (lib r) err then
           State_Monad.return (Some (WrapError ''failed to list SriovNetworkNodePolicies: '' err []))
         else delete_removed r rpc (rail_names rpc) [] {}
     | Inr policies \<Rightarrow> delete_removed r rpc (rail_names rpc) policies {}
   }"

section \<open>The reconciler\<close>

definition failReconcile :: "'w HostReconciler \<Rightarrow> SpectrumXRailPoolConfig \<Rightarrow> goerr \<Rightarrow> string \<Rightarrow> bool \<Rightarrow> ('w, goerr option) op" where
  "failReconcile r rpc err msg localNodeSelected =
     (if localNodeSelected then do {
        _ \<leftarrow> patchSyncStatusWithMessage r rpc SyncStatusFailed (statusMessage msg err);
        State_Monad.return (Some err)
      }
      else State_Monad.return (Some err))"

text \<open>The part of \<open>doReconcile\<close> after the \<open>InProgress\<close> report.\<close>

definition reconcile_selected :: "'w HostReconciler \<Rightarrow> SpectrumXRailPoolConfig \<Rightarrow> bool \<Rightarrow> ('w, goerr option) op" where
  "reconcile_selected r rpc localNodeSelected =
     (if RailTopologies (rpc_Spec rpc) = [] then
        failReconcile r rpc (ErrorString ''expected one or more rail topologies to be specified'') [] localNodeSelected
      else do {
        err \<leftarrow> applyPoolConfig r rpc;
        case err of
          Some e \<Rightarrow> failReconcile r rpc e [] localNodeSelected
        | None \<Rightarrow> do {
            err \<leftarrow> reconcileRailTopologies r rpc;
            case err of
              Some e \<Rightarrow> failReconcile r rpc e [] localNodeSelected
            | None \<Rightarrow> do {
                err \<leftarrow> deleteRemovedRailTopologies r rpc;
                case err of
                  Some e \<Rightarrow> failReconcile r rpc e ''failed to delete removed rail topologies'' localNodeSelected
                | None \<Rightarrow> do {
                    res \<leftarrow> processNodeStatus r rpc localNodeSelected;
                    case res of (err, rpc') \<Rightarrow>
                      (case err of
                         Some e \<Rightarrow> failReconcile r rpc' e ''failed to update sync status'' localNodeSelected
                       | None \<Rightarrow> State_Monad.return None)
                  }
              }
          }
      })"

definition doReconcile :: "'w HostReconciler \<Rightarrow> SpectrumXRailPoolConfig \<Rightarrow> ('w, goerr option) op" where
  "doReconcile r rpc =
     (if \<not> ContainsFinalizer (lib r) rpc finalizerName then
        api_call (kube r) (PatchFinalizers (rpc_Namespace rpc, rpc_Name rpc)
          (Finalizers (AddFinalizer (lib r) rpc finalizerName)))
      else do {
        deletion \<leftarrow> handleDeletion r rpc;
        case deletion of
          Inr err \<Rightarrow> State_Monad.return err
        | Inl _ \<Rightarrow> do {
            selected \<leftarrow> localNodeMatchesSelector r (NodeSelector (rpc_Spec rpc));
            case selected of
              Inl err \<Rightarrow> State_Monad.return (Some err)
            | Inr localNodeSelected \<Rightarrow>
                if localNodeSelected \<and> \<not> localNodeStateSucceededForGeneration r rpc then do {
                  res \<leftarrow> patchSyncStatus r rpc SyncStatusInProgress;
                  case res of (err, rpc') \<Rightarrow>
                    (case err of
                       Some e \<Rightarrow> State_Monad.return (Some e)
                     | None \<Rightarrow> reconcile_selected r rpc' localNodeSelected)
                }
                else reconcile_selected r rpc localNodeSelected
          }
      })"

text \<open>The \<open>Result\<close> of \<open>Reconcile\<close> is always empty.\<close>

definition Reconcile :: "'w HostReconciler \<Rightarrow> SpectrumXRailPoolConfig \<Rightarrow> ('w, goerr option) op" where
  "Reconcile r rpc = do {
     err \<leftarrow> doReconcile r rpc;
     State_Monad.return err
   }"

section \<open>Traces of deletions\<close>

text \<open>A deletion that succeeded or found nothing to delete.\<close>

definition gone :: "'w HostReconciler \<Rightarrow> goerr option \<Rightarrow> bool" where
  "gone r err \<longleftrightarrow> relevant_error (lib r) err = None"

lemma trace_delete_object:
  "trace_spec (delete_object r a wrap) (\<lambda>x es. \<exists>err. es = [Api a err] \<and> (x = None) = gone r err)"
  unfolding delete_object_def gone_def
  by (intro trace_bindI [OF trace_api_call] trace_case_option trace_returnI) auto

text \<open>The three deletions of a rail, all done; and any event that tearing the rail down may produce.\<close>

definition rail_gone :: "'w HostReconciler \<Rightarrow> string \<Rightarrow> string \<Rightarrow> event list \<Rightarrow> bool" where
  "rail_gone r ns n es \<longleftrightarrow>
     (\<exists>e1 e2 e3. es = [Api (DeletePolicy (ns, n)) e1, Api (DeletePolicy (ns, n @ unusedPolicySuffix)) e2,
        Api (DeleteOVSNetwork (ns, n)) e3] \<and> gone r e1 \<and> gone r e2 \<and> gone r e3)"

definition rail_event :: "string \<Rightarrow> string \<Rightarrow> event \<Rightarrow> bool" where
  "rail_event ns n e =
     (case e of
        Cmd c res \<Rightarrow> c = del_br_cmd (railBridge n) \<or> c = del_br_cmd xplaneBridge
      | Api (DeletePolicy key) err \<Rightarrow> key = (ns, n) \<or> key = (ns, n @ unusedPolicySuffix)
      | Api (DeleteOVSNetwork key) err \<Rightarrow> key = (ns, n)
      | _ \<Rightarrow> False)"

text \<open>
  A rail torn down: first the bridges, if it is multiplane, then the objects. The commands that delete
  the bridges were run and neither ran into the timeout; that the bridges are gone is more than the code
  makes sure of, because it only logs any other failure of these commands.
\<close>

definition torn_down :: "'w HostReconciler \<Rightarrow> string \<Rightarrow> string \<Rightarrow> bool \<Rightarrow> event list \<Rightarrow> bool" where
  "torn_down r ns n isMultiplane es \<longleftrightarrow>
     (\<exists>bridges objects. es = bridges @ objects \<and> rail_gone r ns n objects \<and>
        (\<forall>e \<in> set bridges. \<not> timed_out e) \<and>
        (if isMultiplane then \<exists>a b. bridges = [Cmd (del_br_cmd (railBridge n)) a, Cmd (del_br_cmd xplaneBridge) b]
         else bridges = []))"

lemma trace_deleteRail:
  "trace_spec (deleteRailTopologyResources r ns n) (\<lambda>x es. x = None \<longrightarrow> rail_gone r ns n es)"
  unfolding deleteRailTopologyResources_def
  by (intro trace_bindI [OF trace_delete_object] trace_case_option trace_returnI
      trace_spec_weaken [OF trace_delete_object]) (auto simp: rail_gone_def)

lemma emits_deleteRail: "emits (rail_event ns n) (deleteRailTopologyResources r ns n)"
  unfolding deleteRailTopologyResources_def delete_object_def
  by (intro emits_bind emits_api_call emits_case_option emits_return) (simp_all add: rail_event_def)

lemma emits_cleanup: "emits (rail_event ns n) (cleanupXPlaneBridges sh n)"
  unfolding cleanupXPlaneBridges_def delete_xplane_bridge_def
  by (intro emits_bind emits_Execute emits_case_sum emits_if emits_return) (simp_all add: rail_event_def)

lemma emits_tear_down: "emits (rail_event ns n) (tear_down r ns n m)"
  unfolding tear_down_def
  by (intro emits_if emits_bind emits_cleanup emits_case_option emits_return emits_deleteRail)

lemma trace_cleanup_bridges:
  "trace_spec (cleanupXPlaneBridges sh n)
     (\<lambda>x es. x = None \<longrightarrow> (\<forall>e \<in> set es. \<not> timed_out e) \<and>
        (\<exists>a b. es = [Cmd (del_br_cmd (railBridge n)) a, Cmd (del_br_cmd xplaneBridge) b]))"
  unfolding cleanupXPlaneBridges_def delete_xplane_bridge_def
  by (intro xapi.exec_bind trace_case_sum trace_if trace_returnI) simp_all

lemma trace_tear_down: "trace_spec (tear_down r ns n m) (\<lambda>x es. x = None \<longrightarrow> torn_down r ns n m es)"
  unfolding tear_down_def
  by (intro trace_if trace_bindI [OF trace_cleanup_bridges] trace_case_option trace_returnI
      trace_spec_weaken [OF trace_deleteRail]) (auto simp: torn_down_def)

section \<open>Status events\<close>

text \<open>An event that is not a status patch.\<close>

fun not_status :: "event \<Rightarrow> bool" where
  "not_status (Api (PatchStatus u) err) = False"
| "not_status e = True"

lemma rail_event_not_status: "rail_event ns n e \<Longrightarrow> not_status e"
  by (cases e rule: not_status.cases) (auto simp: rail_event_def)

lemma is_file_not_status: "is_file e \<Longrightarrow> not_status e"
  by (cases e) auto

lemma emits_isCidrPoolIPv6: "emits P (isCidrPoolIPv6 r name ns)"
  unfolding emits_def by (rule trace_spec_weaken [OF trace_isCidrPoolIPv6]) simp

lemma emits_exec_tolerant: "(\<And>c x. P (Cmd c x)) \<Longrightarrow> emits P (exec_tolerant (Execute sh) p)"
proof (induction p)
  case (Cons a p)
  obtain c strict wrap where a: "a = (c, strict, wrap)" by (cases a)
  show ?case
    unfolding a exec_tolerant.simps
    by (intro emits_bind emits_Execute emits_case_sum emits_if emits_return Cons)
qed (simp add: emits_return)

lemma emits_find_local_state: "emits P (find_local_state r ns nodes found)"
  unfolding emits_def by (rule trace_spec_weaken [OF trace_find_local_state]) simp

lemma emits_flowcontrollerTolerations: "emits P (flowcontrollerTolerations r)"
  unfolding flowcontrollerTolerations_def flowcontrollerOwner_def Let_def
  by (intro emits_bind emits_if emits_observe emits_case_sum emits_case_option emits_return)

lemma not_status_sync_objects: "emits not_status (sync_objects r rpc tols objs)"
proof (induction objs)
  case (Cons obj objs)
  show ?case
    unfolding sync_objects.simps syncDsObject_def syncDaemonSet_def
    by (intro emits_bind emits_case_option emits_if emits_case_sum emits_observe emits_return emits_api_call Cons) simp_all
qed (simp add: emits_return)

lemma not_status_configureXPlane: "emits not_status (configureXPlane r rpc spec rt ns)"
  unfolding configureXPlane_def deployXplane_def createXPlaneBridges_plan
  by (intro emits_bind emits_case_option emits_case_sum emits_if emits_observe emits_return
      emits_mono [OF emits_EnsureInstalled is_file_not_status] emits_find_local_state emits_exec_tolerant
      emits_flowcontrollerTolerations not_status_sync_objects) simp_all

lemma not_status_reconcileRail: "emits not_status (reconcileRailTopology r rpc rt)"
  unfolding reconcileRailTopology_def reconcile_network_def decide_vrf_def list.case_distrib
  by (cases "pf_names rt")
    (auto intro!: emits_bind emits_case_option emits_case_sum emits_if emits_return emits_api_call
      emits_isCidrPoolIPv6 not_status_configureXPlane)

lemma not_status_reconcile_rails: "emits not_status (reconcile_rails r rpc rts)"
proof (induction rts)
  case (Cons rt rts)
  show ?case
    unfolding reconcile_rails.simps
    by (intro emits_bind emits_case_option emits_return not_status_reconcileRail Cons)
qed (simp add: emits_return)

lemma emits_delete_removed:
  assumes "\<And>n e. n \<notin> current \<Longrightarrow> rail_event (rpc_Namespace rpc) n e \<Longrightarrow> P e"
  shows "emits P (delete_removed r rpc current policies deleted)"
proof (induction policies arbitrary: deleted)
  case (Cons p policies)
  show ?case
    unfolding delete_removed.simps
    by (intro emits_bind emits_if emits_case_option emits_return Cons emits_mono [OF emits_tear_down] assms)
qed (simp add: emits_return)

lemma not_status_deleteRemoved: "emits not_status (deleteRemovedRailTopologies r rpc)"
  unfolding deleteRemovedRailTopologies_def
  by (intro emits_bind emits_observe emits_case_sum emits_if emits_return emits_delete_removed rail_event_not_status)

lemma not_status_applyPoolConfig: "emits not_status (applyPoolConfig r rpc)"
  unfolding applyPoolConfig_def by (intro emits_bind emits_api_call emits_case_option emits_return) simp

lemmas not_status_ops =
  not_status_applyPoolConfig not_status_reconcile_rails not_status_deleteRemoved

text \<open>The local node can be found to match the selector.\<close>

definition selectable :: "'w HostReconciler \<Rightarrow> labels \<Rightarrow> bool" where
  "selectable r sel \<longleftrightarrow>
     (\<exists>w node. fst (get_Node (kube r) (nodeName r) w) = Inr node \<and> labels_Matches (lib r) sel (node_Labels node))"

lemma trace_localNode:
  "trace_spec (localNodeMatchesSelector r sel) (\<lambda>x es. es = [] \<and> (x = Inr True \<longrightarrow> selectable r sel))"
proof -
  have read: "trace_spec (observe (get_Node (kube r) (nodeName r)))
      (\<lambda>x es. es = [] \<and> (\<exists>w. fst (get_Node (kube r) (nodeName r) w) = x))"
    by (rule trace_observe_fact) blast
  show ?thesis
    unfolding localNodeMatchesSelector_def
    by (intro trace_bindI [OF read] trace_case_sum trace_returnI) (auto simp: selectable_def)
qed

text \<open>
  What holds of all events that are not status patches, and of those of the status calls, holds
  of all events of a reconciliation. Status calls are made only if the node can be selected, and
  for the generation being reconciled.
\<close>

locale status_reports =
  fixes r :: "'w HostReconciler" and rpc :: SpectrumXRailPoolConfig and P :: "event \<Rightarrow> bool"
  assumes retry: "retry_law (lib r)"
    and other: "not_status e \<Longrightarrow> P e"
    and report: "selectable r (NodeSelector (rpc_Spec rpc)) \<Longrightarrow> Generation x = Generation rpc \<Longrightarrow>
      emits P (patchSyncStatusWithMessage r x st msg)"
begin

lemma others: "emits not_status m \<Longrightarrow> emits P m"
  by (erule emits_mono) (rule other)

lemma fail_emits:
  "Generation x = Generation rpc \<Longrightarrow> (sel \<Longrightarrow> selectable r (NodeSelector (rpc_Spec rpc))) \<Longrightarrow>
   emits P (failReconcile r x err msg sel)"
  unfolding failReconcile_def by (intro emits_if emits_bind report emits_return) auto

lemma process_emits:
  assumes "Generation x = Generation rpc" "sel \<Longrightarrow> selectable r (NodeSelector (rpc_Spec rpc))"
  shows "emits P (processNodeStatus r x sel)"
  unfolding processNodeStatus_def patchSyncStatus_def
  by (intro emits_if emits_bind emits_observe emits_case_sum report emits_return) (use assms in auto)

lemma process_object:
  "trace_spec (processNodeStatus r x sel) (\<lambda>y es. same_but_status x (snd y))"
  unfolding processNodeStatus_def patchSyncStatus_def
  by (intro trace_if trace_bindI [OF trace_observe] trace_case_sum trace_returnI
      trace_spec_weaken [OF trace_patch_object [OF retry]]) simp_all

lemma reconcile_selected_emits:
  assumes "same_but_status rpc x" "sel \<Longrightarrow> selectable r (NodeSelector (rpc_Spec rpc))"
  shows "emits P (reconcile_selected r x sel)"
proof -
  have gen: "Generation x = Generation rpc" using same_but_status_simps [OF assms(1)] by simp
  have final: "emits P (State_Monad.bind (processNodeStatus r x sel)
      (\<lambda>res. case res of (err, y) \<Rightarrow> (case err of
          Some e \<Rightarrow> failReconcile r y e ''failed to update sync status'' sel | None \<Rightarrow> State_Monad.return None)))"
  proof (rule emits_bind_fact [OF trace_spec_conj [OF process_object process_emits [OF gen assms(2), unfolded emits_def]]])
    fix a :: "goerr option \<times> SpectrumXRailPoolConfig" and es
    assume a: "same_but_status x (snd a) \<and> (\<forall>e \<in> set es. P e)"
    then have "Generation (snd a) = Generation rpc" using same_but_status_simps gen by auto
    then show "(\<forall>e \<in> set es. P e) \<and> emits P (case a of (err, y) \<Rightarrow> (case err of
        Some e \<Rightarrow> failReconcile r y e ''failed to update sync status'' sel | None \<Rightarrow> State_Monad.return None))"
      using a assms(2) by (auto intro!: emits_case_prod emits_case_option fail_emits emits_return)
  qed
  show ?thesis
    unfolding reconcile_selected_def reconcileRailTopologies_def
    by (intro emits_if emits_bind emits_case_option final fail_emits [OF gen assms(2)]
        not_status_ops [THEN others])
qed

lemma delete_rails_emits: "emits P (delete_rails r rpc rts)"
proof (induction rts)
  case (Cons rt rts)
  show ?case
    unfolding delete_rails.simps
    by (intro emits_bind emits_mono [OF emits_tear_down rail_event_not_status, THEN others] emits_case_option
        emits_bind_fact [OF trace_localNode] conjI emits_case_sum emits_if report emits_return Cons) auto
qed (simp add: emits_return)

lemma handleDeletion_emits: "emits P (handleDeletion r rpc)"
  unfolding handleDeletion_def delete_object_def
  by (intro emits_if emits_bind delete_rails_emits emits_case_option emits_api_call emits_return) (auto intro: other)

lemma doReconcile_emits: "emits P (doReconcile r rpc)"
proof -
  let ?sel = "selectable r (NodeSelector (rpc_Spec rpc))"
  have start: "emits P (State_Monad.bind (patchSyncStatus r rpc SyncStatusInProgress)
      (\<lambda>res. case res of (err, y) \<Rightarrow> (case err of
          Some e \<Rightarrow> State_Monad.return (Some e) | None \<Rightarrow> reconcile_selected r y sel)))" if ?sel for sel
    unfolding patchSyncStatus_def
  proof (rule emits_bind_fact [OF trace_spec_conj [OF trace_patch_object [OF retry] report [OF that refl, unfolded emits_def]]])
    fix a :: "goerr option \<times> SpectrumXRailPoolConfig" and es
    assume "same_but_status rpc (snd a) \<and> (\<forall>e \<in> set es. P e)"
    then show "(\<forall>e \<in> set es. P e) \<and> emits P (case a of (err, y) \<Rightarrow> (case err of
        Some e \<Rightarrow> State_Monad.return (Some e) | None \<Rightarrow> reconcile_selected r y sel))"
      using that by (auto intro!: emits_case_prod emits_case_option reconcile_selected_emits emits_return)
  qed
  show ?thesis
    unfolding doReconcile_def
    by (intro emits_if emits_bind handleDeletion_emits emits_case_sum emits_return emits_api_call
        emits_bind_fact [OF trace_localNode] conjI start reconcile_selected_emits) (auto intro: other)
qed

end

text \<open>
  With the documented behaviour of the libraries, every status patch of a reconciliation is one
  of the agent's own node for the generation that is reconciled.
\<close>

definition own_report :: "'w HostReconciler \<Rightarrow> SpectrumXRailPoolConfig \<Rightarrow> event \<Rightarrow> bool" where
  "own_report r rpc e \<longleftrightarrow> not_status e \<or> (\<exists>st msg. status_write (nodeName r) (Generation rpc) st msg e)"

locale lawful_reconciler =
  fixes r :: "'w HostReconciler"
  assumes laws: "retry_law (lib r)" "errors_law (lib r)" "labels_law (lib r)" "finalizer_law (lib r)"

sublocale lawful_reconciler \<subseteq> own: status_reports r rpc "own_report r rpc" for rpc
proof unfold_locales
  fix x :: SpectrumXRailPoolConfig and st msg
  assume "Generation x = Generation rpc"
  then show "emits (own_report r rpc) (patchSyncStatusWithMessage r x st msg)"
    using patchSyncStatus_emits [OF laws(1), of x st msg]
    by (auto elim!: emits_mono simp: own_report_def)
qed (simp_all add: laws own_report_def)

interpretation demor: lawful_reconciler "demo_reconciler c sh os" for c sh os
  by unfold_locales (simp_all add: demo_reconciler_def)

lemma Reconcile_eq: "Reconcile r rpc = doReconcile r rpc"
  by (simp add: Reconcile_def)

section \<open>Traces of a reconciliation\<close>

text \<open>A patch of one of the objects that the SR-IOV operator acts on.\<close>

fun object_patch :: "event \<Rightarrow> bool" where
  "object_patch (Api (PatchPolicy p) err) = True"
| "object_patch (Api (PatchPoolConfig p) err) = True"
| "object_patch (Api (PatchOVSNetwork n) err) = True"
| "object_patch e = False"

text \<open>
  The objects of a rail, all accepted: the policy of the first PF, that of the other PFs if there
  are any, and the network; then, for a multiplane rail, what setting up the bridges takes.
\<close>

definition rail_patched :: "SpectrumXRailPoolConfig \<Rightarrow> RailTopology \<Rightarrow> event list \<Rightarrow> bool" where
  "rail_patched rpc rt es \<longleftrightarrow>
     (\<exists>firstPF rest vrf bridges. pf_names rt = firstPF # rest \<and>
        es = Api (PatchPolicy (primary_policy rpc rt firstPF)) None #
          (if rest = [] then [] else [Api (PatchPolicy (secondary_policy rpc rt rest)) None]) @
          Api (PatchOVSNetwork (ovs_network rpc rt vrf)) None # bridges \<and>
        (rest = [] \<longrightarrow> bridges = []) \<and> (\<forall>e \<in> set bridges. \<not> object_patch e))"

lemma no_patch_configureXPlane: "emits (\<lambda>e. \<not> object_patch e) (configureXPlane r rpc spec rt ns)"
proof -
  have sync: "emits (\<lambda>e. \<not> object_patch e) (sync_objects r rpc tols objs)" for tols objs
  proof (induction objs)
    case (Cons obj objs)
    show ?case
      unfolding sync_objects.simps syncDsObject_def syncDaemonSet_def
      by (intro emits_bind emits_case_option emits_if emits_case_sum emits_observe emits_return emits_api_call Cons) simp_all
  qed (simp add: emits_return)
  have files: "is_file e \<Longrightarrow> \<not> object_patch e" for e by (cases e) auto
  show ?thesis
    unfolding configureXPlane_def deployXplane_def createXPlaneBridges_plan
    by (intro emits_bind emits_case_option emits_case_sum emits_if emits_observe emits_return
        emits_mono [OF emits_EnsureInstalled files] emits_find_local_state emits_exec_tolerant
        emits_flowcontrollerTolerations sync) simp_all
qed

definition network_patched :: "SpectrumXRailPoolConfig \<Rightarrow> RailTopology \<Rightarrow> event list \<Rightarrow> bool" where
  "network_patched rpc rt es \<longleftrightarrow>
     (\<exists>vrf bridges. es = Api (PatchOVSNetwork (ovs_network rpc rt vrf)) None # bridges \<and>
        (length (pf_names rt) \<le> 1 \<longrightarrow> bridges = []) \<and> (\<forall>e \<in> set bridges. \<not> object_patch e))"

lemma trace_decide_vrf: "trace_spec (decide_vrf r rt ns) (\<lambda>x es. es = [])"
  unfolding decide_vrf_def
  by (intro trace_if trace_bindI [OF trace_isCidrPoolIPv6] trace_case_sum trace_returnI) simp_all

lemma trace_reconcile_network: "trace_spec (reconcile_network r rpc rt) (\<lambda>x es. x = None \<longrightarrow> network_patched rpc rt es)"
  unfolding reconcile_network_def
  by (intro trace_bindI [OF trace_decide_vrf] trace_bindI [OF trace_api_call] trace_case_sum trace_case_option
      trace_if trace_bindI [OF no_patch_configureXPlane [unfolded emits_def]] trace_returnI)
    (auto simp: network_patched_def)

lemma trace_reconcileRail: "trace_spec (reconcileRailTopology r rpc rt) (\<lambda>x es. x = None \<longrightarrow> rail_patched rpc rt es)"
proof (cases "pf_names rt")
  case Nil
  then show ?thesis by (simp add: reconcileRailTopology_def trace_returnI)
next
  case (Cons firstPF rest)
  have one: "rail_patched rpc rt (Api (PatchPolicy (primary_policy rpc rt firstPF)) None # es)"
    if "rest = []" "network_patched rpc rt es" for es
    using that Cons by (auto simp: rail_patched_def network_patched_def)
  have more: "rail_patched rpc rt (Api (PatchPolicy (primary_policy rpc rt firstPF)) None #
        Api (PatchPolicy (secondary_policy rpc rt rest)) None # es)"
    if "rest \<noteq> []" "network_patched rpc rt es" for es
    using that Cons by (auto simp: rail_patched_def network_patched_def)
  show ?thesis
    unfolding reconcileRailTopology_def Cons list.case
    by (intro trace_bindI [OF trace_api_call] trace_case_option trace_if trace_returnI
        trace_spec_weaken [OF trace_reconcile_network]) (auto intro: one more)
qed

lemma trace_reconcile_rails:
  "trace_spec (reconcile_rails r rpc rts)
     (\<lambda>x es. x = None \<longrightarrow> (\<exists>segs. es = concat segs \<and> list_all2 (rail_patched rpc) rts segs))"
proof (induction rts)
  case (Cons rt rts)
  show ?case
    unfolding reconcile_rails.simps
  proof (intro trace_bindI [OF trace_reconcileRail] trace_case_option trace_returnI)
    fix a and es1 :: "event list"
    assume "a = None \<longrightarrow> rail_patched rpc rt es1" "a = None"
    then show "trace_spec (reconcile_rails r rpc rts)
        (\<lambda>x es. x = None \<longrightarrow> (\<exists>segs. es1 @ es = concat segs \<and> list_all2 (rail_patched rpc) (rt # rts) segs))"
      by (intro trace_spec_weaken [OF Cons]) (metis concat.simps(2) list_all2_Cons)
  qed simp
qed (simp add: trace_returnI)

subsection \<open>Deletions\<close>

text \<open>The rails that a pass over the listed policies tears down, with their multiplane flags.\<close>

fun removed_rails :: "string set \<Rightarrow> SriovNetworkNodePolicy list \<Rightarrow> string set \<Rightarrow> (string \<times> bool) list" where
  "removed_rails current [] deleted = []"
| "removed_rails current (p # ps) deleted =
     (if policy_rail p \<in> current \<or> policy_rail p \<in> deleted then removed_rails current ps deleted
      else (policy_rail p, policy_multiplane p) # removed_rails current ps (insert (policy_rail p) deleted))"

lemma removed_rails_names:
  "distinct (map fst (removed_rails current ps deleted)) \<and>
   set (map fst (removed_rails current ps deleted)) = policy_rail ` set ps - current - deleted"
  by (induction current ps deleted rule: removed_rails.induct) auto

definition all_torn_down :: "'w HostReconciler \<Rightarrow> string \<Rightarrow> (string \<times> bool) list \<Rightarrow> event list \<Rightarrow> bool" where
  "all_torn_down r ns rails es \<longleftrightarrow>
     (\<exists>segs. es = concat segs \<and> list_all2 (\<lambda>(n, m) seg. torn_down r ns n m seg) rails segs)"

lemma all_torn_down_Nil [simp]: "all_torn_down r ns [] es = (es = [])"
  by (auto simp: all_torn_down_def)

lemma all_torn_down_Cons:
  "torn_down r ns n m es1 \<Longrightarrow> all_torn_down r ns rails es2 \<Longrightarrow> all_torn_down r ns ((n, m) # rails) (es1 @ es2)"
  unfolding all_torn_down_def by (metis (no_types, lifting) case_prod_conv concat.simps(2) list.rel_intros(2))

lemma trace_delete_removed:
  "trace_spec (delete_removed r rpc current ps deleted)
     (\<lambda>x es. x = None \<longrightarrow> all_torn_down r (rpc_Namespace rpc) (removed_rails current ps deleted) es)"
proof (induction ps arbitrary: deleted)
  case (Cons p ps)
  show ?case
    unfolding delete_removed.simps
    by (intro trace_if trace_bindI [OF trace_tear_down] trace_case_option trace_returnI
        trace_spec_weaken [OF Cons]) (auto intro: all_torn_down_Cons)
qed (simp add: trace_returnI)

definition deletion_plan :: "SpectrumXRailPoolConfig \<Rightarrow> (string \<times> bool) list" where
  "deletion_plan rpc = map (\<lambda>rt. (rt_Name rt, length (pf_names rt) > 1)) (RailTopologies (rpc_Spec rpc))"

fun finalizer_patch :: "event \<Rightarrow> bool" where
  "finalizer_patch (Api (PatchFinalizers key fs) err) = True"
| "finalizer_patch e = False"

lemma rail_event_no_finalizer: "rail_event ns n e \<Longrightarrow> \<not> finalizer_patch e"
  by (cases e rule: finalizer_patch.cases) (auto simp: rail_event_def)

lemma status_write_no_finalizer: "status_write n g st msg e \<Longrightarrow> \<not> finalizer_patch e"
  by (auto simp: status_write_def)

text \<open>
  The run of a deletion: either it fails before the finalizer is touched, or everything is gone,
  and the removal of the finalizer is the last thing that is done.
\<close>

definition deletion_run :: "'w HostReconciler \<Rightarrow> SpectrumXRailPoolConfig \<Rightarrow> goerr option \<Rightarrow> event list \<Rightarrow> bool" where
  "deletion_run r rpc x es \<longleftrightarrow>
     x \<noteq> None \<and> (\<forall>e \<in> set es. \<not> finalizer_patch e) \<or>
     (\<exists>rails err. all_torn_down r (rpc_Namespace rpc) (deletion_plan rpc) rails \<and> gone r err \<and>
        es = rails @ [Api (DeletePoolConfig (rpc_Namespace rpc, rpc_Name rpc)) err,
          Api (PatchFinalizers (rpc_Namespace rpc, rpc_Name rpc) (filter (\<lambda>f. f \<noteq> finalizerName) (Finalizers rpc))) x])"

context lawful_reconciler
begin

lemma trace_delete_rails:
  "trace_spec (delete_rails r rpc rts)
     (\<lambda>x es. (\<forall>e \<in> set es. \<not> finalizer_patch e) \<and>
        (x = None \<longrightarrow> all_torn_down r (rpc_Namespace rpc) (map (\<lambda>rt. (rt_Name rt, length (pf_names rt) > 1)) rts) es))"
proof (induction rts)
  case (Cons rt rts)
  have tear: "trace_spec (tear_down r ns n m) (\<lambda>x es. (\<forall>e \<in> set es. \<not> finalizer_patch e) \<and> (x = None \<longrightarrow> torn_down r ns n m es))" for ns n m
  proof (rule trace_spec_conj [OF _ trace_tear_down])
    have "emits (\<lambda>e. \<not> finalizer_patch e) (tear_down r ns n m)"
      by (rule emits_mono [OF emits_tear_down]) (rule rail_event_no_finalizer)
    then show "trace_spec (tear_down r ns n m) (\<lambda>x es. \<forall>e \<in> set es. \<not> finalizer_patch e)" by (simp add: emits_def)
  qed
  have status: "trace_spec (patchSyncStatusWithMessage r x st msg) (\<lambda>_ es. \<forall>e \<in> set es. \<not> finalizer_patch e)" for x st msg
  proof -
    have "emits (\<lambda>e. \<not> finalizer_patch e) (patchSyncStatusWithMessage r x st msg)"
      by (rule emits_mono [OF patchSyncStatus_emits [OF laws(1)]]) (rule status_write_no_finalizer)
    then show ?thesis by (simp add: emits_def)
  qed
  show ?case
    unfolding delete_rails.simps
    by (intro trace_bindI [OF tear] trace_case_option trace_bindI [OF trace_localNode] trace_case_sum trace_if
        trace_bindI [OF status] trace_returnI trace_spec_weaken [OF Cons]) (auto intro: all_torn_down_Cons)
qed (simp add: trace_returnI)

lemma trace_handleDeletion:
  assumes "DeletionTimestamp rpc \<noteq> None"
  shows "trace_spec (handleDeletion r rpc) (\<lambda>x es. \<exists>y. x = Inr y \<and> deletion_run r rpc y es)"
proof -
  have rm: "Finalizers (RemoveFinalizer (lib r) rpc finalizerName) = filter (\<lambda>f. f \<noteq> finalizerName) (Finalizers rpc)"
    using laws(4) by (simp add: finalizer_law_def)
  show ?thesis
    unfolding handleDeletion_def if_not_P [OF assms] rm
    by (intro trace_bindI [OF trace_delete_rails] trace_case_option trace_bindI [OF trace_delete_object]
        trace_bindI [OF trace_api_call] trace_returnI)
      (auto simp: deletion_run_def deletion_plan_def)
qed

end

end
