(* ===== verification/Rail_Properties.thy ===== *)
theory Rail_Properties
  imports Rail_Reconciler
begin

text \<open>
  What a run of \<open>Reconcile\<close> guarantees: which status it reports, when the finalizer is set and
  removed, which objects it patches, and which objects and bridges it deletes.
\<close>

section \<open>Successful reconciliations\<close>

lemma same_generated:
  assumes "same_but_status rpc x"
  shows "primary_policy x = primary_policy rpc" "secondary_policy x = secondary_policy rpc" "ovs_network x = ovs_network rpc"
proof -
  from assms obtain st where x: "x = rpc\<lparr>rpc_Status := st\<rparr>" by (auto simp: same_but_status_def)
  have labels: "owner_labels x = owner_labels rpc" by (simp add: fun_eq_iff owner_labels_def x)
  show "primary_policy x = primary_policy rpc" "secondary_policy x = secondary_policy rpc" "ovs_network x = ovs_network rpc"
    by (simp_all add: fun_eq_iff primary_policy_def secondary_policy_def ovs_network_def labels) (simp_all add: x)
qed

lemma same_objects:
  assumes "same_but_status rpc x"
  shows "pool_config x = pool_config rpc" "rail_patched x = rail_patched rpc" "rpc_Spec x = rpc_Spec rpc"
  using assms same_generated [OF assms]
  by (auto simp: same_but_status_def pool_config_def generateSRIOVNetworkPoolConfig_def fun_eq_iff rail_patched_def)

lemma rail_event_no_patch: "rail_event ns n e \<Longrightarrow> \<not> object_patch e"
  by (cases e rule: object_patch.cases) (auto simp: rail_event_def)

lemma status_write_no_patch: "status_write n g st msg e \<Longrightarrow> \<not> object_patch e"
  by (auto simp: status_write_def)

lemma no_patch_deleteRemoved: "emits (\<lambda>e. \<not> object_patch e) (deleteRemovedRailTopologies r rpc)"
  unfolding deleteRemovedRailTopologies_def
  by (intro emits_bind emits_observe emits_case_sum emits_if emits_return emits_delete_removed rail_event_no_patch)

lemma trace_applyPoolConfig:
  "trace_spec (applyPoolConfig r rpc) (\<lambda>x es. x = None \<longrightarrow> es = [Api (PatchPoolConfig (pool_config rpc)) None])"
  unfolding applyPoolConfig_def
  by (intro trace_bindI [OF trace_api_call] trace_case_option trace_returnI) simp_all

definition objects_applied :: "SpectrumXRailPoolConfig \<Rightarrow> event list \<Rightarrow> bool" where
  "objects_applied rpc es \<longleftrightarrow>
     (\<exists>pre segs post. es = pre @ Api (PatchPoolConfig (pool_config rpc)) None # concat segs @ post \<and>
        segs \<noteq> [] \<and> list_all2 (rail_patched rpc) (RailTopologies (rpc_Spec rpc)) segs \<and>
        (\<forall>e \<in> set (pre @ post). \<not> object_patch e))"

lemma objects_applied_prepend:
  "\<forall>e \<in> set es1. \<not> object_patch e \<Longrightarrow> objects_applied rpc es \<Longrightarrow> objects_applied rpc (es1 @ es)"
  unfolding objects_applied_def by (metis (no_types, opaque_lifting) UnE append.assoc set_append)

context lawful_reconciler
begin

lemma no_patch_status: "emits (\<lambda>e. \<not> object_patch e) (patchSyncStatusWithMessage r x st msg)"
  by (rule emits_mono [OF patchSyncStatus_emits [OF laws(1)]]) (rule status_write_no_patch)

lemma no_patch_process: "emits (\<lambda>e. \<not> object_patch e) (processNodeStatus r x sel)"
  unfolding processNodeStatus_def patchSyncStatus_def
  by (intro emits_if emits_bind emits_observe emits_case_sum no_patch_status emits_return)

lemma trace_fail: "trace_spec (failReconcile r x err msg sel) (\<lambda>y es. y = Some err)"
  unfolding failReconcile_def
  by (intro trace_if trace_bindI [OF trace_patch_object [OF laws(1)]] trace_returnI) simp_all

lemma trace_reconcile_selected:
  "trace_spec (reconcile_selected r x sel) (\<lambda>y es. y = None \<longrightarrow> objects_applied x es)"
proof -
  have fail: "trace_spec (failReconcile r z err msg sel) (\<lambda>y es. y = None \<longrightarrow> Q (es1 @ es))" for z err msg es1 Q
    by (rule trace_spec_weaken [OF trace_fail]) simp
  show ?thesis
  proof (cases "RailTopologies (rpc_Spec x) = []")
    case True
    then show ?thesis
      unfolding reconcile_selected_def by (simp add: trace_spec_weaken [OF trace_fail])
  next
    case False
    show ?thesis
      unfolding reconcile_selected_def if_not_P [OF False] reconcileRailTopologies_def
    proof (intro trace_bindI [OF trace_applyPoolConfig] trace_bindI [OF trace_reconcile_rails]
        trace_bindI [OF no_patch_deleteRemoved [unfolded emits_def]] trace_bindI [OF no_patch_process [unfolded emits_def]]
        trace_case_option trace_case_prod trace_returnI trace_spec_weaken [OF trace_fail], goal_cases)
      case (1 a es1 b es2 c es3 d es4 err y)
      then obtain segs where segs: "es1 = [Api (PatchPoolConfig (pool_config x)) None]" "es2 = concat segs"
        "list_all2 (rail_patched x) (RailTopologies (rpc_Spec x)) segs" by auto
      with False have "segs \<noteq> []" by auto
      with 1 segs show ?case
        unfolding objects_applied_def
        by (intro impI exI [of _ "[]"] exI [of _ segs] exI [of _ "es3 @ es4"]) auto
    qed auto
  qed
qed

lemma trace_doReconcile_live:
  assumes "finalizerName \<in> set (Finalizers rpc)" "DeletionTimestamp rpc = None"
  shows "trace_spec (doReconcile r rpc) (\<lambda>y es. y = None \<longrightarrow> objects_applied rpc es)"
proof -
  have has: "ContainsFinalizer (lib r) rpc finalizerName" using laws(4) assms(1) by (simp add: finalizer_law_def)
  have alive: "handleDeletion r rpc = State_Monad.return (Inl ())" using assms(2) by (simp add: handleDeletion_def)
  have status: "trace_spec (patchSyncStatus r rpc st)
      (\<lambda>y es. same_but_status rpc (snd y) \<and> (\<forall>e \<in> set es. \<not> object_patch e))" for st
    unfolding patchSyncStatus_def
    by (rule trace_spec_conj [OF trace_patch_object [OF laws(1)] no_patch_status [unfolded emits_def]])
  have same: "objects_applied rpc es" if "same_but_status rpc x" "objects_applied x es" for x es
    using that(2) by (simp add: objects_applied_def same_objects [OF that(1)])
  show ?thesis
    unfolding doReconcile_def alive bind_left_identity sum.case
    using has
  proof (simp only: simp_thms if_False, intro trace_bindI [OF trace_localNode] trace_bindI [OF status] trace_case_sum trace_case_prod
      trace_case_option trace_if trace_returnI trace_spec_weaken [OF trace_reconcile_selected])
  qed (auto intro: objects_applied_prepend dest: same)
qed

end

lemma all_torn_down_member:
  assumes "all_torn_down r ns rails es" "(n, m) \<in> set rails"
  shows "\<exists>seg. torn_down r ns n m seg \<and> set seg \<subseteq> set es"
proof -
  from assms(1) obtain segs where segs: "es = concat segs" "list_all2 (\<lambda>(n, m) seg. torn_down r ns n m seg) rails segs"
    by (auto simp: all_torn_down_def)
  from assms(2) obtain i where i: "i < length rails" "rails ! i = (n, m)" by (auto simp: in_set_conv_nth)
  with segs(2) have "torn_down r ns n m (segs ! i)" "i < length segs" by (auto simp: list_all2_conv_all_nth)
  with segs(1) show ?thesis by (intro exI [of _ "segs ! i"]) (auto intro!: bexI [of _ "segs ! i"])
qed

section \<open>Properties\<close>

text \<open>
  Property C18. Whatever the API server and the node answer, every status patch of a
  reconciliation is based on an object of the generation being reconciled, is for the agent's
  own node, and is the update of \<open>status_update\<close>: one entry replaced, the overall status
  aggregated again.
\<close>

theorem Reconcile_reports_own_generation:
  assumes "retry_law (lib r)"
  shows "emits (\<lambda>e. not_status e \<or> (\<exists>latest nodes st msg err. Generation latest = Generation rpc \<and>
      e = Api (PatchStatus (status_update latest (nodeName r) st msg nodes)) err)) (Reconcile r rpc)"
proof -
  have "status_reports r rpc (own_report r rpc)"
  proof
    fix x :: SpectrumXRailPoolConfig and st msg
    assume "Generation x = Generation rpc"
    then show "emits (own_report r rpc) (patchSyncStatusWithMessage r x st msg)"
      using patchSyncStatus_emits [OF assms, of x st msg] by (auto elim!: emits_mono simp: own_report_def)
  qed (simp_all add: assms own_report_def)
  from status_reports.doReconcile_emits [OF this] show ?thesis
    unfolding Reconcile_eq own_report_def status_write_def by (rule emits_mono) blast
qed

theorem Reconcile_reports_own_generation_witness:
  "let rpc = demo_rpc [demo_rail ''a'' [''p0'']] [finalizerName] in
   emits (\<lambda>e. not_status e \<or> (\<exists>latest nodes st msg err. Generation latest = 1 \<and>
      e = Api (PatchStatus (status_update latest ''node'' st msg nodes)) err)) (Reconcile (demo rpc) rpc)"
  using Reconcile_reports_own_generation [of "demo (demo_rpc [demo_rail ''a'' [''p0'']] [finalizerName])"
      "demo_rpc [demo_rail ''a'' [''p0'']] [finalizerName]"]
  by (simp add: Let_def demo_reconciler_def demo_rpc_def)

text \<open>
  An agent whose node does not match the node selector of the pool never writes the
  status of the pool, neither on success nor on failure, neither in operation nor on deletion.
\<close>

lemma Reconcile_unselected_silent:
  assumes "retry_law (lib r)" "labels_law (lib r)"
    and "\<forall>w node. fst (get_Node (kube r) (nodeName r) w) = Inr node \<longrightarrow>
      \<not> NodeSelector (rpc_Spec rpc) \<subseteq>\<^sub>m node_Labels node"
  shows "emits (\<lambda>e. \<not> (\<exists>u err. e = Api (PatchStatus u) err)) (Reconcile r rpc)"
proof -
  have no: "\<not> selectable r (NodeSelector (rpc_Spec rpc))"
    using assms(2,3) by (auto simp: selectable_def labels_law_def)
  have "status_reports r rpc not_status"
    by unfold_locales (use assms(1) no in auto)
  from status_reports.doReconcile_emits [OF this] show ?thesis
    unfolding Reconcile_eq by (rule emits_mono) auto
qed

definition labelled_rpc :: SpectrumXRailPoolConfig where
  "labelled_rpc = (demo_rpc [demo_rail ''a'' [''p0'']] [finalizerName])
     \<lparr>rpc_Spec := (rpc_Spec (demo_rpc [demo_rail ''a'' [''p0'']] []))\<lparr>NodeSelector := [''rack'' \<mapsto> ''1'']\<rparr>\<rparr>"

text \<open>
  Nothing is done for a pool before it has the finalizer: the only effect of such a
  reconciliation is to ask for the finalizer to be added.
\<close>

lemma Reconcile_finalizer_first:
  assumes "finalizer_law (lib r)" "finalizerName \<notin> set (Finalizers rpc)"
  shows "trace_spec (Reconcile r rpc) (\<lambda>x es.
    es = [Api (PatchFinalizers (rpc_Namespace rpc, rpc_Name rpc) (Finalizers rpc @ [finalizerName])) x])"
proof -
  have "\<not> ContainsFinalizer (lib r) rpc finalizerName"
    "Finalizers (AddFinalizer (lib r) rpc finalizerName) = Finalizers rpc @ [finalizerName]"
    using assms by (simp_all add: finalizer_law_def)
  then show ?thesis by (simp add: Reconcile_eq doReconcile_def trace_api_call)
qed

text \<open>
  Property C10. While a pool is being deleted, the finalizer is removed last: either the reconciliation
  fails and does not touch the finalizer, or for every multiplane rail the commands that delete its
  bridges were run and none of them timed out, the policies and the network of every rail and the pool
  configuration are deleted or were not found, and the last event is the removal of the finalizer. In
  particular a timeout while bridges are deleted keeps the finalizer. That the bridges are gone is not
  promised: another failure of these commands is only logged.
\<close>

theorem Reconcile_finalizer_last:
  assumes "retry_law (lib r)" "errors_law (lib r)" "labels_law (lib r)" "finalizer_law (lib r)"
    and "finalizerName \<in> set (Finalizers rpc)" "DeletionTimestamp rpc \<noteq> None"
  shows "trace_spec (Reconcile r rpc) (\<lambda>x es.
    x \<noteq> None \<and> (\<forall>e \<in> set es. \<not> finalizer_patch e) \<or>
    (\<exists>rails err. all_torn_down r (rpc_Namespace rpc) (deletion_plan rpc) rails \<and> gone r err \<and>
       es = rails @ [Api (DeletePoolConfig (rpc_Namespace rpc, rpc_Name rpc)) err,
         Api (PatchFinalizers (rpc_Namespace rpc, rpc_Name rpc) (filter (\<lambda>f. f \<noteq> finalizerName) (Finalizers rpc))) x]))"
proof -
  have lawful: "lawful_reconciler r" by unfold_locales (rule assms)+
  have has: "ContainsFinalizer (lib r) rpc finalizerName" using assms(4,5) by (simp add: finalizer_law_def)
  show ?thesis
    unfolding Reconcile_eq doReconcile_def deletion_run_def [symmetric]
    using has
    by (simp only: simp_thms if_False)
      (rule trace_bindI [OF lawful_reconciler.trace_handleDeletion [OF lawful assms(6)]],
        elim exE conjE, simp add: trace_returnI)
qed

theorem Reconcile_finalizer_last_witness:
  "let rpc = (demo_rpc [demo_rail ''a'' [''p0'', ''p1'']] [finalizerName])\<lparr>DeletionTimestamp := Some 3\<rparr>; r = demo rpc in
   trace_spec (Reconcile r rpc) (\<lambda>x es.
    x \<noteq> None \<and> (\<forall>e \<in> set es. \<not> finalizer_patch e) \<or>
    (\<exists>rails err. all_torn_down r ''ns'' [(''a'', True)] rails \<and> gone r err \<and>
       es = rails @ [Api (DeletePoolConfig (''ns'', ''pool'')) err, Api (PatchFinalizers (''ns'', ''pool'') []) x]))"
proof -
  let ?rpc = "(demo_rpc [demo_rail ''a'' [''p0'', ''p1'']] [finalizerName])\<lparr>DeletionTimestamp := Some 3\<rparr>"
  have "finalizerName \<in> set (Finalizers ?rpc)" "DeletionTimestamp ?rpc \<noteq> None" by (simp_all add: demo_rpc_def)
  from Reconcile_finalizer_last [OF demor.laws this, of "demo_client ?rpc []" all_ok_shell disk_os] show ?thesis
    unfolding Let_def by (simp add: demo_rpc_def demo_rail_def deletion_plan_def)
qed

text \<open>
  A reconciliation of a live pool that reports success has patched, and had accepted,
  the pool configuration and then for every rail of the pool, in order, the policy of its first
  PF, the policy of its other PFs if it has any, and its network; and no other such object.
\<close>

lemma Reconcile_success_applies_all:
  assumes "retry_law (lib r)" "errors_law (lib r)" "labels_law (lib r)" "finalizer_law (lib r)"
    and "finalizerName \<in> set (Finalizers rpc)" "DeletionTimestamp rpc = None"
  shows "trace_spec (Reconcile r rpc) (\<lambda>x es. x = None \<longrightarrow>
    (\<exists>pre segs post. es = pre @ Api (PatchPoolConfig (pool_config rpc)) None # concat segs @ post \<and>
       segs \<noteq> [] \<and> list_all2 (rail_patched rpc) (RailTopologies (rpc_Spec rpc)) segs \<and>
       (\<forall>e \<in> set (pre @ post). \<not> object_patch e)))"
proof -
  have lawful: "lawful_reconciler r" by unfold_locales (rule assms)+
  show ?thesis
    unfolding Reconcile_eq objects_applied_def [symmetric]
    by (rule lawful_reconciler.trace_doReconcile_live [OF lawful assms(5,6)])
qed

text \<open>
  Removing rails that are no longer in the pool goes by the names of removed rails only:
  every network that is deleted has the name of a removed rail, every policy that is deleted has
  the name of a removed rail, possibly with the suffix \<open>-unused\<close>, all of them in the namespace of
  the pool, and apart from these deletions only the bridge of a removed rail and the shared bridge
  \<open>br-xplane\<close> are deleted.
\<close>

lemma deleteRemoved_scope:
  "emits (\<lambda>e. \<exists>n. n \<notin> rail_names rpc \<and>
      ((\<exists>err. e = Api (DeleteOVSNetwork (rpc_Namespace rpc, n)) err) \<or>
       (\<exists>err. e = Api (DeletePolicy (rpc_Namespace rpc, n)) err) \<or>
       (\<exists>err. e = Api (DeletePolicy (rpc_Namespace rpc, n @ unusedPolicySuffix)) err) \<or>
       (\<exists>x. e = Cmd (del_br_cmd (railBridge n)) x) \<or> (\<exists>x. e = Cmd (del_br_cmd xplaneBridge) x)))
    (deleteRemovedRailTopologies r rpc)"
proof -
  have ev: "rail_event ns n e \<Longrightarrow>
      (\<exists>err. e = Api (DeleteOVSNetwork (ns, n)) err) \<or> (\<exists>err. e = Api (DeletePolicy (ns, n)) err) \<or>
      (\<exists>err. e = Api (DeletePolicy (ns, n @ unusedPolicySuffix)) err) \<or>
      (\<exists>x. e = Cmd (del_br_cmd (railBridge n)) x) \<or> (\<exists>x. e = Cmd (del_br_cmd xplaneBridge) x)" for ns n e
    by (auto simp: rail_event_def split: event.splits api_write.splits)
  show ?thesis
    unfolding deleteRemovedRailTopologies_def
    by (intro emits_bind emits_observe emits_case_sum emits_if emits_return emits_delete_removed)
      (use ev in blast)+
qed

text \<open>
  Given the policies that the API server lists for the pool, a successful pass tears
  down exactly the rails that policies name and the pool does not, each once: its bridges if its
  first policy marks it as multiplane, then its two policies and its network.
\<close>

lemma deleteRemoved_complete:
  assumes "list_NodePolicies (kube r) (rpc_Namespace rpc) [labelOwnerName \<mapsto> rpc_Name rpc] (env s) = (Inr policies, w')"
    and "run_state (deleteRemovedRailTopologies r rpc) s = (None, s')"
  shows "\<exists>rails es. events s' = events s @ es \<and> all_torn_down r (rpc_Namespace rpc) rails es \<and>
    distinct (map fst rails) \<and> set (map fst rails) = policy_rail ` set policies - rail_names rpc"
proof -
  from assms have "run_state (delete_removed r rpc (rail_names rpc) policies {}) (s\<lparr>env := w'\<rparr>) = (None, s')"
    by (simp add: deleteRemovedRailTopologies_def)
  from trace_specD [OF trace_delete_removed this] obtain es where
    "events s' = events s @ es" "all_torn_down r (rpc_Namespace rpc) (removed_rails (rail_names rpc) policies {}) es" by auto
  then show ?thesis
    using removed_rails_names [of "rail_names rpc" policies "{}"]
    by (intro exI [of _ "removed_rails (rail_names rpc) policies {}"] exI [of _ es]) simp
qed

text \<open>The policy of a rail, as an earlier reconciliation has written it.\<close>

definition old_policy :: "string \<Rightarrow> string list \<Rightarrow> SriovNetworkNodePolicy" where
  "old_policy name pfs = primary_policy (demo_rpc [] []) (demo_rail name pfs) (hd pfs)"

lemma old_policy_facts:
  assumes "name \<noteq> []"
  shows "policy_rail (old_policy name pfs) = name" "policy_multiplane (old_policy name pfs) = (length pfs > 1)"
proof -
  have ne: "labelRailTopologyName \<noteq> labelMultiplane" "labelOwnerName \<noteq> labelMultiplane"
    "labelRailTopologyName \<noteq> labelOwnerName"
    by (simp_all add: labelRailTopologyName_def labelMultiplane_def labelOwnerName_def)
  have v: "labelMultiplaneValue \<noteq> []" by (simp add: labelMultiplaneValue_def)
  show "policy_rail (old_policy name pfs) = name" "policy_multiplane (old_policy name pfs) = (length pfs > 1)"
    using assms ne v
    by (auto simp: policy_rail_def policy_multiplane_def old_policy_def primary_policy_def owner_labels_def
        label_value_def demo_rail_def Let_def)
qed

lemma demo_deleteRail: "fst (run_state (deleteRailTopologyResources (demo_reconciler (demo_client rpc ps) sh os) ns n) s) = None"
  by (simp add: deleteRailTopologyResources_def delete_object_def api_call_def demo_reconciler_def demo_client_def
      relevant_error_def)

lemma demo_tear_down:
  "fst (run_state (tear_down (demo_reconciler (demo_client rpc ps) all_ok_shell os) ns n m) s) = None"
proof -
  obtain e t where run: "run_state (cleanupXPlaneBridges all_ok_shell n) s = (e, t)" by fastforce
  have "fst (run_state (cleanupXPlaneBridges all_ok_shell n) s) = None"
    unfolding cleanupXPlaneBridges_plan by (rule all_ok_tolerant)
  with run have "e = None" by simp
  have sh: "shell (demo_reconciler (demo_client rpc ps) all_ok_shell os) = all_ok_shell"
    by (simp add: demo_reconciler_def)
  show ?thesis
    using run \<open>e = None\<close> demo_deleteRail [of rpc ps all_ok_shell os ns n]
    by (cases m) (simp_all add: tear_down_def sh)
qed

lemma demo_deleteRemoved:
  "fst (run_state (deleteRemovedRailTopologies (demo_reconciler (demo_client rpc [p]) all_ok_shell os) rpc) s) = None"
proof -
  let ?r = "demo_reconciler (demo_client rpc [p]) all_ok_shell os"
  have "list_NodePolicies (kube ?r) ns sel w = (Inr [p], w)" for ns sel w
    by (simp add: demo_reconciler_def demo_client_def)
  then show ?thesis
    using demo_tear_down [of rpc "[p]" os "rpc_Namespace rpc" "policy_rail p" "policy_multiplane p" s]
    by (auto simp: deleteRemovedRailTopologies_def split: prod.splits option.splits)
qed

lemma demo_removed_run:
  "run_state (deleteRemovedRailTopologies (demo_reconciler (demo_client rpc [p]) all_ok_shell os) rpc) s =
   (None, snd (run_state (deleteRemovedRailTopologies (demo_reconciler (demo_client rpc [p]) all_ok_shell os) rpc) s))"
  using demo_deleteRemoved [of rpc p os s] by (simp add: prod_eq_iff)

lemma demo_removed_list:
  "list_NodePolicies (kube (demo_reconciler (demo_client rpc [p]) all_ok_shell os)) ns sel w = (Inr [p], w)"
  by (simp add: demo_reconciler_def demo_client_def)

text \<open>
  Property C40. The deletion of the unused policy of a removed rail can hit a rail that is still
  there: if the pool has a rail named like a removed one with the suffix \<open>-unused\<close>, a successful
  pass has asked for the deletion of that rail's policy.
\<close>

theorem deleteRemoved_hits_unused_name:
  assumes "list_NodePolicies (kube r) (rpc_Namespace rpc) [labelOwnerName \<mapsto> rpc_Name rpc] (env s) = (Inr policies, w')"
    and "run_state (deleteRemovedRailTopologies r rpc) s = (None, s')"
    and "p \<in> set policies" "policy_rail p \<notin> rail_names rpc"
    and "rt \<in> set (RailTopologies (rpc_Spec rpc))" "rt_Name rt = policy_rail p @ unusedPolicySuffix"
  shows "\<exists>err. Api (DeletePolicy (rpc_Namespace rpc, rt_Name rt)) err \<in> set (events s')"
proof -
  from assms(1,2) have "run_state (delete_removed r rpc (rail_names rpc) policies {}) (s\<lparr>env := w'\<rparr>) = (None, s')"
    by (simp add: deleteRemovedRailTopologies_def)
  from trace_specD [OF trace_delete_removed this] obtain es where es: "events s' = events s @ es"
    and torn: "all_torn_down r (rpc_Namespace rpc) (removed_rails (rail_names rpc) policies {}) es" by auto
  from removed_rails_names [of "rail_names rpc" policies "{}"] assms(3,4)
  obtain m where "(policy_rail p, m) \<in> set (removed_rails (rail_names rpc) policies {})" by fastforce
  with all_torn_down_member [OF torn this] assms(6) es show ?thesis
    by (auto simp: torn_down_def rail_gone_def)
qed

theorem deleteRemoved_hits_unused_name_witness:
  "let rpc = demo_rpc [demo_rail ''b-unused'' [''p0'']] [];
       r = demo_reconciler (demo_client rpc [old_policy ''b'' [''q0'']]) all_ok_shell disk_os in
   ''b-unused'' \<in> rail_names rpc \<and>
   (\<exists>err. Api (DeletePolicy (''ns'', ''b-unused'')) err \<in>
      set (events (snd (run_state (deleteRemovedRailTopologies r rpc) demo_world))))"
proof -
  let ?rpc = "demo_rpc [demo_rail ''b-unused'' [''p0'']] []"
  have names: "rail_names ?rpc = {''b-unused''}" "rpc_Namespace ?rpc = ''ns''"
    and rail: "demo_rail ''b-unused'' [''p0''] \<in> set (RailTopologies (rpc_Spec ?rpc))"
      "rt_Name (demo_rail ''b-unused'' [''p0'']) = policy_rail (old_policy ''b'' [''q0'']) @ unusedPolicySuffix"
    by (simp_all add: rail_names_def demo_defs old_policy_facts unusedPolicySuffix_def)
  have p: "old_policy ''b'' [''q0''] \<in> set [old_policy ''b'' [''q0'']]"
    "policy_rail (old_policy ''b'' [''q0'']) \<notin> rail_names ?rpc"
    by (simp_all add: old_policy_facts names)
  from deleteRemoved_hits_unused_name [OF demo_removed_list demo_removed_run p rail, of disk_os demo_world]
  show ?thesis unfolding Let_def names by (simp add: demo_rail_def)
qed

end
