(* ===== verification/Views.thy ===== *)
theory Views
  imports Cluster
begin

text \<open>
  A logic for what operations do to the outside. A component that several operations act on, such as
  the objects in the API server, is a view of the outside; an operation either keeps the view, or
  refines a function on the view when it returns no error.
\<close>

section \<open>Views of the outside\<close>

text \<open>The view is the same afterwards.\<close>

definition keeps :: "('w \<Rightarrow> 'v) \<Rightarrow> ('w, 'a) op \<Rightarrow> bool" where
  "keeps view m \<longleftrightarrow> (\<forall>s r s'. run_state m s = (r, s') \<longrightarrow> view (env s') = view (env s))"

named_theorems keeps_rules

lemma keepsD: "keeps view m \<Longrightarrow> run_state m s = (r, s') \<Longrightarrow> view (env s') = view (env s)"
  by (simp add: keeps_def)

lemma keeps_return [keeps_rules]: "keeps view (State_Monad.return a)"
  by (simp add: keeps_def)

lemma keeps_observe [keeps_rules]: "(\<And>w. view (snd (f w)) = view w) \<Longrightarrow> keeps view (observe f)"
  by (auto simp: keeps_def)

lemma keeps_perform [keeps_rules]: "(\<And>w. view (snd (f w)) = view w) \<Longrightarrow> keeps view (perform ev f)"
  by (auto simp: keeps_def)

lemma keeps_bind [keeps_rules]:
  assumes "keeps view m" "\<And>a. keeps view (f a)"
  shows "keeps view (State_Monad.bind m f)"
  unfolding keeps_def
proof (intro allI impI)
  fix s r s'
  assume "run_state (State_Monad.bind m f) s = (r, s')"
  then obtain a t where "run_state m s = (a, t)" "run_state (f a) t = (r, s')" by (auto split: prod.splits)
  from keepsD [OF assms(1) this(1)] keepsD [OF assms(2) this(2)] show "view (env s') = view (env s)" by simp
qed

lemma keeps_if [keeps_rules]: "keeps view m \<Longrightarrow> keeps view n \<Longrightarrow> keeps view (if b then m else n)"
  by simp

lemma keeps_case_option [keeps_rules]:
  "keeps view m \<Longrightarrow> (\<And>y. keeps view (f y)) \<Longrightarrow> keeps view (case x of None \<Rightarrow> m | Some y \<Rightarrow> f y)"
  by (cases x) auto

lemma keeps_case_sum [keeps_rules]:
  "(\<And>e. keeps view (f e)) \<Longrightarrow> (\<And>y. keeps view (g y)) \<Longrightarrow> keeps view (case x of Inl e \<Rightarrow> f e | Inr y \<Rightarrow> g y)"
  by (cases x) auto

lemma keeps_case_prod [keeps_rules]: "(\<And>a b. keeps view (f a b)) \<Longrightarrow> keeps view (case x of (a, b) \<Rightarrow> f a b)"
  by (cases x) auto

text \<open>
  The general form, for an outside on which others act too: every run moves the world within a relation \<open>R\<close>, a preorder.
  Keeping a view is the case in which \<open>R\<close> is equality of the view.
\<close>

definition drifts :: "('w world \<Rightarrow> 'w world \<Rightarrow> bool) \<Rightarrow> ('w, 'a) op \<Rightarrow> bool" where
  "drifts R m \<longleftrightarrow> (\<forall>s x s'. run_state m s = (x, s') \<longrightarrow> R s s')"

definition same_view :: "('w \<Rightarrow> 'v) \<Rightarrow> 'w world \<Rightarrow> 'w world \<Rightarrow> bool" where
  "same_view view s s' \<longleftrightarrow> view (env s') = view (env s)"

lemma same_view_preorder: "reflp (same_view view)" "transp (same_view view)"
  by (simp_all add: same_view_def reflp_def transp_def)

lemma drifts_same_view [simp]: "drifts (same_view view) m \<longleftrightarrow> keeps view m"
  by (simp add: drifts_def keeps_def same_view_def)

lemma driftsD: "drifts R m \<Longrightarrow> run_state m s = (x, s') \<Longrightarrow> R s s'"
  by (simp add: drifts_def)

lemma drifts_return: "reflp R \<Longrightarrow> drifts R (State_Monad.return a)"
  by (auto simp: drifts_def reflp_def)

text \<open>What follows may rely on how its argument came about.\<close>

lemma drifts_bind_run:
  assumes "transp R" "drifts R m" "\<And>a s s'. run_state m s = (a, s') \<Longrightarrow> drifts R (f a)"
  shows "drifts R (State_Monad.bind m f)"
  unfolding drifts_def
proof (intro allI impI)
  fix s x s'
  assume "run_state (State_Monad.bind m f) s = (x, s')"
  then obtain a t where m: "run_state m s = (a, t)" and f: "run_state (f a) t = (x, s')" by (auto split: prod.splits)
  from driftsD [OF assms(2) m] driftsD [OF assms(3) [OF m] f] show "R s s'" using assms(1) by (blast dest: transpD)
qed

lemma drifts_bind: "transp R \<Longrightarrow> drifts R m \<Longrightarrow> (\<And>a. drifts R (f a)) \<Longrightarrow> drifts R (State_Monad.bind m f)"
  by (rule drifts_bind_run)

lemma drifts_if: "drifts R m \<Longrightarrow> drifts R n \<Longrightarrow> drifts R (if b then m else n)"
  by simp

lemma drifts_case_option: "drifts R m \<Longrightarrow> (\<And>y. drifts R (f y)) \<Longrightarrow> drifts R (case x of None \<Rightarrow> m | Some y \<Rightarrow> f y)"
  by (cases x) auto

lemma drifts_case_sum:
  "(\<And>e. drifts R (f e)) \<Longrightarrow> (\<And>y. drifts R (g y)) \<Longrightarrow> drifts R (case x of Inl e \<Rightarrow> f e | Inr y \<Rightarrow> g y)"
  by (cases x) auto

lemma drifts_case_prod: "(\<And>a b. drifts R (f a b)) \<Longrightarrow> drifts R (case x of (a, b) \<Rightarrow> f a b)"
  by (cases x) auto

lemma drifts_case_nested:
  "(\<And>e. drifts R (f e)) \<Longrightarrow> drifts R m \<Longrightarrow> (\<And>c. drifts R (g c)) \<Longrightarrow>
   drifts R (case x of NestedError e \<Rightarrow> f e | NestedMissing \<Rightarrow> m | Nested c \<Rightarrow> g c)"
  by (cases x) auto

lemmas drifts_cases = drifts_if drifts_case_option drifts_case_sum drifts_case_prod drifts_case_nested

lemma drifts_retry_loop:
  "reflp R \<Longrightarrow> transp R \<Longrightarrow> (\<And>x. drifts R (fn x)) \<Longrightarrow> drifts R (retry_loop conf n fn x)"
  by (induction n arbitrary: x) (auto intro!: drifts_return drifts_bind drifts_cases)

lemma drifts_RetryOnConflict:
  "retry_law lb \<Longrightarrow> reflp R \<Longrightarrow> transp R \<Longrightarrow> (\<And>x. drifts R (fn x)) \<Longrightarrow> drifts R (RetryOnConflict lb fn x)"
  by (auto simp: retry_law_def drifts_retry_loop)

text \<open>
  Operations that return an error: \<open>refines view m f\<close> says that without error \<open>m\<close> is the function \<open>f\<close> on the view.
  \<open>fails\<close>: an error is returned.
\<close>

definition refines :: "('w \<Rightarrow> 'v) \<Rightarrow> ('w, goerr option) op \<Rightarrow> ('v \<Rightarrow> 'v) \<Rightarrow> bool" where
  "refines view m f \<longleftrightarrow> (\<forall>s s'. run_state m s = (None, s') \<longrightarrow> view (env s') = f (view (env s)))"

definition fails :: "('w, goerr option) op \<Rightarrow> bool" where
  "fails m \<longleftrightarrow> (\<forall>s s'. run_state m s \<noteq> (None, s'))"

lemma refinesD: "refines view m f \<Longrightarrow> run_state m s = (None, s') \<Longrightarrow> view (env s') = f (view (env s))"
  by (simp add: refines_def)

lemma refines_return: "refines view (State_Monad.return None) (\<lambda>v. v)"
  by (simp add: refines_def)

lemma refines_fails: "fails m \<Longrightarrow> refines view m f"
  by (auto simp: refines_def fails_def)

lemma fails_return: "fails (State_Monad.return (Some e))"
  by (simp add: fails_def)

lemma fails_bind: "(\<And>a. fails (k a)) \<Longrightarrow> fails (State_Monad.bind m k)"
  by (auto simp: fails_def split: prod.splits)

lemma fails_if: "fails m \<Longrightarrow> fails n \<Longrightarrow> fails (if b then m else n)"
  by simp

lemma fails_case_option: "fails m \<Longrightarrow> (\<And>y. fails (f y)) \<Longrightarrow> fails (case x of None \<Rightarrow> m | Some y \<Rightarrow> f y)"
  by (cases x) auto

lemma fails_case_sum: "(\<And>e. fails (f e)) \<Longrightarrow> (\<And>y. fails (g y)) \<Longrightarrow> fails (case x of Inl e \<Rightarrow> f e | Inr y \<Rightarrow> g y)"
  by (cases x) auto

lemmas fails_rules = fails_return fails_bind fails_if fails_case_option fails_case_sum

text \<open>\<open>succeeds\<close>: no error is returned.\<close>

definition succeeds :: "('w, goerr option) op \<Rightarrow> bool" where
  "succeeds m \<longleftrightarrow> (\<forall>s. fst (run_state m s) = None)"

lemma succeeds_return: "succeeds (State_Monad.return None)"
  by (simp add: succeeds_def)

lemma succeeds_then:
  assumes "succeeds m" "succeeds n"
  shows "succeeds (State_Monad.bind m (\<lambda>err. case err of None \<Rightarrow> n | Some e \<Rightarrow> h e))"
  unfolding succeeds_def
proof
  fix s
  obtain t where "run_state m s = (None, t)" using assms(1) by (metis prod.collapse succeeds_def)
  with assms(2) show "fst (run_state (State_Monad.bind m (\<lambda>err. case err of None \<Rightarrow> n | Some e \<Rightarrow> h e)) s) = None"
    by (simp add: succeeds_def)
qed

lemma succeeds_if: "succeeds m \<Longrightarrow> succeeds n \<Longrightarrow> succeeds (if b then m else n)"
  by simp

lemmas succeeds_rules = succeeds_return succeeds_then succeeds_if

lemma keeps_refines: "keeps view m \<Longrightarrow> refines view m (\<lambda>v. v)"
  by (auto simp: refines_def keeps_def)

text \<open>The idiom \<open>if err := m; err != nil { return ... }; n\<close>.\<close>

lemma refines_then:
  assumes "refines view m f" "refines view n g" "\<And>e. fails (h e)"
  shows "refines view (State_Monad.bind m (\<lambda>err. case err of None \<Rightarrow> n | Some e \<Rightarrow> h e)) (\<lambda>v. g (f v))"
  unfolding refines_def
proof (intro allI impI)
  fix s s'
  assume "run_state (State_Monad.bind m (\<lambda>err. case err of None \<Rightarrow> n | Some e \<Rightarrow> h e)) s = (None, s')"
  then obtain err t where m: "run_state m s = (err, t)" and k: "run_state (case err of None \<Rightarrow> n | Some e \<Rightarrow> h e) t = (None, s')"
    by (auto split: prod.splits)
  have "err = None" using k assms(3) by (cases err) (auto simp: fails_def)
  with m k refinesD [OF assms(1)] refinesD [OF assms(2)] show "view (env s') = g (f (view (env s)))" by simp
qed

lemma refines_after:
  assumes "keeps view m" "\<And>a. refines view (k a) f"
  shows "refines view (State_Monad.bind m k) f"
  unfolding refines_def
proof (intro allI impI)
  fix s s'
  assume "run_state (State_Monad.bind m k) s = (None, s')"
  then obtain a t where "run_state m s = (a, t)" "run_state (k a) t = (None, s')" by (auto split: prod.splits)
  with keepsD [OF assms(1)] refinesD [OF assms(2)] show "view (env s') = f (view (env s))" by metis
qed

text \<open>A property of the view that holds after every run, failed ones included, if it did before.\<close>

definition maintains :: "('w \<Rightarrow> 'v) \<Rightarrow> ('v \<Rightarrow> bool) \<Rightarrow> ('w, 'a) op \<Rightarrow> bool" where
  "maintains view J m \<longleftrightarrow> (\<forall>s x s'. run_state m s = (x, s') \<longrightarrow> J (view (env s)) \<longrightarrow> J (view (env s')))"

lemma maintainsD: "maintains view J m \<Longrightarrow> run_state m s = (x, s') \<Longrightarrow> J (view (env s)) \<Longrightarrow> J (view (env s'))"
  by (auto simp: maintains_def)

lemma keeps_maintains: "keeps view m \<Longrightarrow> maintains view J m"
  by (auto simp: maintains_def keeps_def)

lemma maintains_return: "maintains view J (State_Monad.return a)"
  by (simp add: maintains_def)

text \<open>What follows may rely on the result, and on the property at the time of the result.\<close>

lemma maintains_bind_run:
  assumes "maintains view J m" "\<And>a s s'. run_state m s = (a, s') \<Longrightarrow> J (view (env s)) \<Longrightarrow> maintains view J (f a)"
  shows "maintains view J (State_Monad.bind m f)"
  unfolding maintains_def
proof (intro allI impI)
  fix s x s'
  assume "run_state (State_Monad.bind m f) s = (x, s')" and J: "J (view (env s))"
  then obtain a t where m: "run_state m s = (a, t)" and f: "run_state (f a) t = (x, s')" by (auto split: prod.splits)
  from maintainsD [OF assms(1) m J] maintainsD [OF assms(2) [OF m J] f] show "J (view (env s'))" by simp
qed

lemma maintains_bind: "maintains view J m \<Longrightarrow> (\<And>a. maintains view J (f a)) \<Longrightarrow> maintains view J (State_Monad.bind m f)"
  by (rule maintains_bind_run)

lemma maintains_if: "maintains view J m \<Longrightarrow> maintains view J n \<Longrightarrow> maintains view J (if b then m else n)"
  by simp

lemma maintains_case_option:
  "maintains view J m \<Longrightarrow> (\<And>y. maintains view J (f y)) \<Longrightarrow> maintains view J (case x of None \<Rightarrow> m | Some y \<Rightarrow> f y)"
  by (cases x) auto

lemma maintains_case_sum:
  "(\<And>e. maintains view J (f e)) \<Longrightarrow> (\<And>y. maintains view J (g y)) \<Longrightarrow> maintains view J (case x of Inl e \<Rightarrow> f e | Inr y \<Rightarrow> g y)"
  by (cases x) auto

lemma maintains_case_prod: "(\<And>a b. maintains view J (f a b)) \<Longrightarrow> maintains view J (case x of (a, b) \<Rightarrow> f a b)"
  by (cases x) auto

lemmas maintains_rules = maintains_return maintains_bind maintains_if maintains_case_option maintains_case_sum maintains_case_prod

end
