(* ===== verification/Object_Store.thy ===== *)
theory Object_Store
  imports Rail_Properties Views
begin

text \<open>
  What reconciliations do to the objects in the API server. The other theories show which writes
  are sent; here the server's objects are a store, the effect of accepted writes is the contract of
  a locale, and a successful run of \<open>Reconcile\<close> is shown to be a function on the store:
  the objects of all rails and of the pool as they are wanted, those of removed rails gone, and
  everything else untouched.
\<close>

section \<open>The store\<close>

text \<open>
  Objects by namespace and name, with the fields that the agent's field manager has applied: the
  patches are server-side applies with forced ownership, so an accepted one makes these fields what was sent.
\<close>

record store =
  st_policies :: "nsname \<rightharpoonup> SriovNetworkNodePolicy"
  st_networks :: "nsname \<rightharpoonup> OVSNetwork"
  st_pools :: "nsname \<rightharpoonup> SriovNetworkPoolConfig"

definition policy_key :: "SriovNetworkNodePolicy \<Rightarrow> nsname" where
  "policy_key p = (np_Namespace p, np_Name p)"

fun effect :: "api_write \<Rightarrow> store \<Rightarrow> store" where
  "effect (PatchPolicy p) v = v\<lparr>st_policies := (st_policies v)(policy_key p \<mapsto> p)\<rparr>"
| "effect (PatchOVSNetwork n) v = v\<lparr>st_networks := (st_networks v)((on_Namespace n, on_Name n) \<mapsto> n)\<rparr>"
| "effect (PatchPoolConfig p) v = v\<lparr>st_pools := (st_pools v)((pc_Namespace p, pc_Name p) \<mapsto> p)\<rparr>"
| "effect (DeletePolicy k) v = v\<lparr>st_policies := (st_policies v)(k := None)\<rparr>"
| "effect (DeleteOVSNetwork k) v = v\<lparr>st_networks := (st_networks v)(k := None)\<rparr>"
| "effect (DeletePoolConfig k) v = v\<lparr>st_pools := (st_pools v)(k := None)\<rparr>"
| "effect _ v = v"

fun on_store :: "api_write \<Rightarrow> bool" where
  "on_store (PatchPolicy p) = True"
| "on_store (PatchOVSNetwork n) = True"
| "on_store (PatchPoolConfig p) = True"
| "on_store (DeletePolicy k) = True"
| "on_store (DeleteOVSNetwork k) = True"
| "on_store (DeletePoolConfig k) = True"
| "on_store _ = False"

section \<open>What is not about these objects\<close>

text \<open>
  Reads, commands, files, status and other writes move the world within \<open>R\<close>; then so does everything the reconciler builds
  from them. The contracts of the store below, with and without other writers, are instances.
\<close>

locale outside_access =
  fixes r :: "'w HostReconciler"
    and R :: "'w world \<Rightarrow> 'w world \<Rightarrow> bool"
  assumes refl: "reflp R" and trans: "transp R"
    and drifts_reads:
      "drifts R (observe (get_Node (kube r) n))" "drifts R (observe (get_RailPoolConfig (kube r) k))"
      "drifts R (observe (get_SriovNodeState (kube r) k))" "drifts R (observe (get_Pod (kube r) k))"
      "drifts R (observe (get_DaemonSet (kube r) k))" "drifts R (observe (list_Nodes (kube r) sel))"
      "drifts R (observe (get_CIDRPool (kube r) k))" "drifts R (observe (os_ReadFile (osys r) p))"
      "drifts R (observe (RenderDir (lib r) d x))"
    and drifts_Execute: "drifts R (Execute (shell r) c)"
    and drifts_file: "drifts R (do_file (osys r) f)"
    and drifts_status_call: "drifts R (status_call (kube r) base u)"
    and drifts_api: "\<not> on_store a \<Longrightarrow> drifts R (api_call (kube r) a)"
begin

lemmas drifts_rules = drifts_return [OF refl] drifts_bind [OF trans] drifts_cases drifts_reads drifts_Execute drifts_file

lemma drifts_EnsureInstalled: "drifts R (EnsureInstalled (osys r) sc dc root)"
  unfolding EnsureInstalled_def writeFileIfChanged_def replace_file_def by (intro drifts_rules)

lemma drifts_tolerant: "drifts R (exec_tolerant (Execute (shell r)) p)"
proof (induction p)
  case (Cons a p)
  obtain c strict wrap where a: "a = (c, strict, wrap)" by (cases a)
  show ?case unfolding a exec_tolerant.simps by (intro drifts_rules Cons)
qed (simp add: drifts_rules(1))

lemma drifts_find_local_state: "drifts R (find_local_state r ns nodes found)"
proof (induction nodes arbitrary: found)
  case (Cons n nodes)
  show ?case unfolding find_local_state.simps by (intro drifts_rules Cons)
qed (simp add: drifts_rules(1))

lemma drifts_sync_objects: "drifts R (sync_objects r rpc tols objs)"
proof (induction objs)
  case (Cons obj objs)
  show ?case
    unfolding sync_objects.simps syncDsObject_def syncDaemonSet_def by (intro drifts_rules drifts_api Cons) simp_all
qed (simp add: drifts_rules(1))

lemma drifts_configureXPlane: "drifts R (configureXPlane r rpc spec rt ns)"
  unfolding configureXPlane_def deployXplane_def createXPlaneBridges_plan flowcontrollerTolerations_def flowcontrollerOwner_def
    Let_def
  by (intro drifts_rules drifts_EnsureInstalled drifts_find_local_state drifts_tolerant drifts_sync_objects)

lemma drifts_cleanup: "drifts R (cleanupXPlaneBridges (shell r) n)"
  unfolding cleanupXPlaneBridges_plan by (rule drifts_tolerant)

lemma drifts_localNode: "drifts R (localNodeMatchesSelector r sel)"
  unfolding localNodeMatchesSelector_def by (intro drifts_rules)

lemma drifts_decide_vrf: "drifts R (decide_vrf r rt ns)"
  unfolding decide_vrf_def isCidrPoolIPv6_def by (intro drifts_rules)

lemma drifts_status:
  assumes "retry_law (lib r)"
  shows "drifts R (patchSyncStatusWithMessage r rpc st msg)"
  unfolding patchSyncStatusWithMessage_def
proof (rule drifts_RetryOnConflict [OF assms refl trans])
  show "drifts R (sync_attempt r g st msg x)" for g x
    unfolding sync_attempt_def aggregateSyncStatus_def by (intro drifts_rules drifts_status_call)
qed

lemma drifts_process: "retry_law (lib r) \<Longrightarrow> drifts R (processNodeStatus r rpc sel)"
  unfolding processNodeStatus_def patchSyncStatus_def by (intro drifts_rules drifts_status)

lemma drifts_fail: "retry_law (lib r) \<Longrightarrow> drifts R (failReconcile r x err msg sel)"
  unfolding failReconcile_def by (intro drifts_rules drifts_status)

end

section \<open>The contract\<close>

definition matching :: "store \<Rightarrow> string \<Rightarrow> labels \<Rightarrow> SriovNetworkNodePolicy set" where
  "matching v ns sel = {p. \<exists>n. st_policies v (ns, n) = Some p \<and> sel \<subseteq>\<^sub>m np_Labels p}"

text \<open>
  The contract, for the time of one reconciliation in which nobody else writes these objects: reads,
  commands, files and other writes leave them alone, accepted writes have their effect, a deletion
  answered with \<open>NotFound\<close> found nothing, and a list is complete. \<open>pools\<close> are the CIDR pools.
\<close>

locale object_store =
  fixes r :: "'w HostReconciler"
    and view :: "'w \<Rightarrow> store"
    and pools :: "nsname \<Rightarrow> nested_string result"
  assumes read_node: "view (snd (get_Node (kube r) n w)) = view w"
    and read_rpc: "view (snd (get_RailPoolConfig (kube r) k w)) = view w"
    and read_state: "view (snd (get_SriovNodeState (kube r) k w)) = view w"
    and read_pod: "view (snd (get_Pod (kube r) k w)) = view w"
    and read_ds: "view (snd (get_DaemonSet (kube r) k w)) = view w"
    and list_nodes: "view (snd (list_Nodes (kube r) sel w)) = view w"
    and read_cidr: "fst (get_CIDRPool (kube r) k w) = pools k" "view (snd (get_CIDRPool (kube r) k w)) = view w"
    and run_command: "view (snd (shell r c w)) = view w"
    and use_file: "view (snd (os_do (osys r) f w)) = view w" "view (snd (os_ReadFile (osys r) p w)) = view w"
    and render: "view (snd (RenderDir (lib r) d x w)) = view w"
    and patch_status: "view (snd (patch_status (kube r) base u w)) = view w"
    and other_write: "\<not> on_store a \<Longrightarrow> view (snd (api_do (kube r) a w)) = view w"
    and accepted: "on_store a \<Longrightarrow> fst (api_do (kube r) a w) = None \<Longrightarrow> view (snd (api_do (kube r) a w)) = effect a (view w)"
    and not_found: "fst (api_do (kube r) a w) = Some e \<Longrightarrow> IsNotFound (lib r) e \<Longrightarrow>
      view (snd (api_do (kube r) a w)) = view w \<and> effect a (view w) = view w"
    and list_policies: "view (snd (list_NodePolicies (kube r) ns sel w)) = view w"
    and listed: "fst (list_NodePolicies (kube r) ns sel w) = Inr ps \<Longrightarrow> set ps = matching (view w) ns sel"
    and none_listed: "fst (list_NodePolicies (kube r) ns sel w) = Inl e \<Longrightarrow> IsNotFound (lib r) e \<Longrightarrow> matching (view w) ns sel = {}"

text \<open>Everything but the writes of these objects leaves the store alone.\<close>

sublocale object_store \<subseteq> quiet: outside_access r "same_view view"
proof unfold_locales
  show "drifts (same_view view) (Execute (shell r) c)" for c
    unfolding drifts_same_view keeps_def Execute_def using run_command [of c]
    by (auto simp: Let_def split: prod.splits) (metis snd_conv)
qed (auto simp: same_view_preorder api_call_def do_file_def status_call_def
    intro!: keeps_observe keeps_perform read_node read_rpc read_state read_pod read_ds list_nodes read_cidr use_file render
      patch_status other_write)

context object_store
begin

lemmas keeps_api = quiet.drifts_api [unfolded drifts_same_view]
  and keeps_configureXPlane = quiet.drifts_configureXPlane [unfolded drifts_same_view]
  and keeps_cleanup = quiet.drifts_cleanup [unfolded drifts_same_view]
  and keeps_localNode = quiet.drifts_localNode [unfolded drifts_same_view]
  and keeps_decide_vrf = quiet.drifts_decide_vrf [unfolded drifts_same_view]
  and keeps_status = quiet.drifts_status [unfolded drifts_same_view]
  and keeps_process = quiet.drifts_process [unfolded drifts_same_view]

end

section \<open>The specification\<close>

text \<open>Whether the network of a rail gets the VRF plugin: its CIDR pool exists and is one of IPv6.\<close>

definition vrf_wanted :: "(nsname \<Rightarrow> nested_string result) \<Rightarrow> string \<Rightarrow> RailTopology \<Rightarrow> bool" where
  "vrf_wanted pools ns rt \<longleftrightarrow> CidrPoolRef rt \<noteq> [] \<and>
     (case pools (ns, CidrPoolRef rt) of
        Inr (Nested cidr) \<Rightarrow> (case ParseCIDR cidr of Inr (ip, n) \<Rightarrow> To4 ip = None | Inl e \<Rightarrow> False)
      | _ \<Rightarrow> False)"

definition put_rail :: "(nsname \<Rightarrow> nested_string result) \<Rightarrow> SpectrumXRailPoolConfig \<Rightarrow> RailTopology \<Rightarrow> store \<Rightarrow> store" where
  "put_rail pools rpc rt v =
     (let pfs = pf_names rt;
          v1 = effect (PatchPolicy (primary_policy rpc rt (hd pfs))) v;
          v2 = (if tl pfs = [] then v1 else effect (PatchPolicy (secondary_policy rpc rt (tl pfs))) v1)
      in effect (PatchOVSNetwork (ovs_network rpc rt (vrf_wanted pools (rpc_Namespace rpc) rt))) v2)"

text \<open>The names of the policies of rails, and a store without the objects of some rails.\<close>

definition policy_names :: "string set \<Rightarrow> string set" where
  "policy_names N = N \<union> (\<lambda>n. n @ unusedPolicySuffix) ` N"

definition drop_rails :: "string \<Rightarrow> string set \<Rightarrow> store \<Rightarrow> store" where
  "drop_rails ns N v = v\<lparr>
     st_policies := (\<lambda>k. if fst k = ns \<and> snd k \<in> policy_names N then None else st_policies v k),
     st_networks := (\<lambda>k. if fst k = ns \<and> snd k \<in> N then None else st_networks v k)\<rparr>"

definition owned :: "SpectrumXRailPoolConfig \<Rightarrow> store \<Rightarrow> SriovNetworkNodePolicy set" where
  "owned rpc v = matching v (rpc_Namespace rpc) [labelOwnerName \<mapsto> rpc_Name rpc]"

definition removed_names :: "SpectrumXRailPoolConfig \<Rightarrow> store \<Rightarrow> string set" where
  "removed_names rpc v = policy_rail ` owned rpc v - rail_names rpc"

definition put_rails :: "(nsname \<Rightarrow> nested_string result) \<Rightarrow> SpectrumXRailPoolConfig \<Rightarrow> store \<Rightarrow> store" where
  "put_rails pools rpc v = fold (put_rail pools rpc) (RailTopologies (rpc_Spec rpc)) (effect (PatchPoolConfig (pool_config rpc)) v)"

definition reconcile_store :: "(nsname \<Rightarrow> nested_string result) \<Rightarrow> SpectrumXRailPoolConfig \<Rightarrow> store \<Rightarrow> store" where
  "reconcile_store pools rpc v =
     (let v1 = put_rails pools rpc v in drop_rails (rpc_Namespace rpc) (removed_names rpc v1) v1)"

definition clear_store :: "SpectrumXRailPoolConfig \<Rightarrow> store \<Rightarrow> store" where
  "clear_store rpc v = effect (DeletePoolConfig (rpc_Namespace rpc, rpc_Name rpc))
     (drop_rails (rpc_Namespace rpc) (rail_names rpc) v)"

lemma drop_rails_empty [simp]: "drop_rails ns {} v = v"
  by (simp add: drop_rails_def policy_names_def)

lemma drop_rails_insert: "drop_rails ns N (drop_rails ns {n} v) = drop_rails ns (insert n N) v"
  by (auto simp: drop_rails_def policy_names_def fun_eq_iff intro!: store.equality)

lemma drop_one_rail:
  "effect (DeleteOVSNetwork (ns, n)) (effect (DeletePolicy (ns, n @ unusedPolicySuffix)) (effect (DeletePolicy (ns, n)) v)) =
   drop_rails ns {n} v"
  by (auto simp: drop_rails_def policy_names_def fun_eq_iff intro!: store.equality)

section \<open>Refinement\<close>

context object_store
begin

lemma api_refines: "on_store a \<Longrightarrow> refines view (api_call (kube r) a) (effect a)"
  unfolding api_call_def refines_def using accepted [of a] by auto

lemma delete_refines:
  assumes "on_store a"
  shows "refines view (delete_object r a wrap) (effect a)"
  unfolding delete_object_def api_call_def refines_def using accepted [OF assms] not_found [of a]
  by (auto simp: relevant_error_def split: option.splits if_splits)

lemma deleteRail_refines: "refines view (deleteRailTopologyResources r ns n) (drop_rails ns {n})"
  unfolding deleteRailTopologyResources_def drop_one_rail [symmetric, abs_def]
  by (intro refines_then [where f = "effect a" for a] delete_refines fails_return) simp_all

lemma tear_down_refines: "refines view (tear_down r ns n m) (drop_rails ns {n})"
proof -
  have "refines view (State_Monad.bind (cleanupXPlaneBridges (shell r) n)
      (\<lambda>err. case err of None \<Rightarrow> deleteRailTopologyResources r ns n | Some e \<Rightarrow> State_Monad.return (Some e))) (drop_rails ns {n})"
    by (rule refines_then [where f = "\<lambda>v. v", OF keeps_refines [OF keeps_cleanup] deleteRail_refines fails_return])
  then show ?thesis by (simp add: tear_down_def deleteRail_refines)
qed

lemma delete_removed_refines:
  "refines view (delete_removed r rpc current ps deleted)
     (drop_rails (rpc_Namespace rpc) (policy_rail ` set ps - current - deleted))"
proof (induction ps arbitrary: deleted)
  case Nil
  show ?case by (simp add: refines_return)
next
  case (Cons p ps)
  let ?n = "policy_rail p" and ?N = "\<lambda>d. policy_rail ` set ps - current - d" and ?ns = "rpc_Namespace rpc"
  have "refines view (State_Monad.bind (tear_down r ?ns ?n (policy_multiplane p))
      (\<lambda>err. case err of None \<Rightarrow> delete_removed r rpc current ps (insert ?n deleted) | Some e \<Rightarrow> State_Monad.return (Some e)))
      (\<lambda>v. drop_rails ?ns (?N (insert ?n deleted)) (drop_rails ?ns {?n} v))"
    by (rule refines_then [OF tear_down_refines Cons fails_return])
  then have step: "refines view (State_Monad.bind (tear_down r ?ns ?n (policy_multiplane p))
      (\<lambda>err. case err of None \<Rightarrow> delete_removed r rpc current ps (insert ?n deleted) | Some e \<Rightarrow> State_Monad.return (Some e)))
      (drop_rails ?ns (insert ?n (?N (insert ?n deleted))))"
    by (simp add: drop_rails_insert [abs_def])
  show ?case
  proof (cases "?n \<in> current \<or> ?n \<in> deleted")
    case True
    then have "policy_rail ` set (p # ps) - current - deleted = ?N deleted" by auto
    with Cons [of deleted] True show ?thesis by auto
  next
    case False
    then have "policy_rail ` set (p # ps) - current - deleted = insert ?n (?N (insert ?n deleted))" by auto
    with step False show ?thesis by simp
  qed
qed

lemma deleteRemoved_refines:
  "refines view (deleteRemovedRailTopologies r rpc) (\<lambda>v. drop_rails (rpc_Namespace rpc) (removed_names rpc v) v)"
  unfolding refines_def
proof (intro allI impI)
  fix s s'
  assume run: "run_state (deleteRemovedRailTopologies r rpc) s = (None, s')"
  let ?ns = "rpc_Namespace rpc" and ?sel = "[labelOwnerName \<mapsto> rpc_Name rpc]"
  obtain got w where list: "list_NodePolicies (kube r) ?ns ?sel (env s) = (got, w)" by fastforce
  then have w: "view w = view (env s)" using list_policies [of ?ns ?sel "env s"] by simp
  from run list obtain ps where ps: "set ps = owned rpc (view (env s))"
    and del: "run_state (delete_removed r rpc (rail_names rpc) ps {}) (s\<lparr>env := w\<rparr>) = (None, s')"
    using listed [of ?ns ?sel "env s"] none_listed [of ?ns ?sel "env s"]
    by (cases got) (fastforce simp: deleteRemovedRailTopologies_def owned_def split: if_splits)+
  from refinesD [OF delete_removed_refines del] show "view (env s') = drop_rails ?ns (removed_names rpc (view (env s))) (view (env s))"
    by (simp add: ps w removed_names_def)
qed

lemma decide_vrf_run:
  "run_state (decide_vrf r rt ns) s = (Inr b, s') \<Longrightarrow> b = vrf_wanted pools ns rt"
  using read_cidr(1) [of "(ns, CidrPoolRef rt)" "env s"]
  by (auto simp: decide_vrf_def vrf_wanted_def isCidrPoolIPv6_def split: if_splits sum.splits nested_string.splits prod.splits)

lemma network_refines:
  "refines view (reconcile_network r rpc rt)
     (effect (PatchOVSNetwork (ovs_network rpc rt (vrf_wanted pools (rpc_Namespace rpc) rt))))"
proof -
  let ?vrf = "vrf_wanted pools (rpc_Namespace rpc) rt"
  define rest where "rest addVRF = State_Monad.bind (api_call (kube r) (PatchOVSNetwork (ovs_network rpc rt addVRF)))
      (\<lambda>err. case err of
           Some e \<Rightarrow> State_Monad.return (Some (patching r sriovOVSNetworkType (rpc_Namespace rpc, rt_Name rt) e))
         | None \<Rightarrow>
             if length (pf_names rt) > 1 then State_Monad.bind (configureXPlane r rpc (rpc_Spec rpc) rt (rpc_Namespace rpc))
               (\<lambda>err. case err of
                 Some e \<Rightarrow> State_Monad.return
                   (Some (WrapError (''failed to configure xplane for rail topology '' @ rt_Name rt @ '': '') e []))
               | None \<Rightarrow> State_Monad.return None)
             else State_Monad.return None)" for addVRF
  have rest: "refines view (rest ?vrf) (effect (PatchOVSNetwork (ovs_network rpc rt ?vrf)))"
    unfolding rest_def
    by (rule refines_then [where g = "\<lambda>v. v"], intro api_refines, simp,
        intro keeps_refines keeps_if keeps_bind keeps_configureXPlane keeps_case_option keeps_return, rule fails_return)
  show ?thesis
    unfolding refines_def
  proof (intro allI impI)
    fix s s'
    assume "run_state (reconcile_network r rpc rt) s = (None, s')"
    then obtain t where vrf: "run_state (decide_vrf r rt (rpc_Namespace rpc)) s = (Inr ?vrf, t)"
      and run: "run_state (rest ?vrf) t = (None, s')"
      unfolding reconcile_network_def rest_def
      by (auto split: prod.splits sum.splits dest: decide_vrf_run)
    show "view (env s') = effect (PatchOVSNetwork (ovs_network rpc rt ?vrf)) (view (env s))"
      using refinesD [OF rest run] keepsD [OF keeps_decide_vrf vrf] by simp
  qed
qed

lemma rail_refines: "refines view (reconcileRailTopology r rpc rt) (put_rail pools rpc rt)"
proof (cases "pf_names rt")
  case Nil
  then show ?thesis by (simp add: reconcileRailTopology_def refines_fails fails_return)
next
  case (Cons pf pfs)
  have more: "refines view (State_Monad.bind (api_call (kube r) (PatchPolicy (secondary_policy rpc rt pfs)))
      (\<lambda>err. case err of
          Some e \<Rightarrow> State_Monad.return
            (Some (patching r sriovNodePolicyType (rpc_Namespace rpc, rt_Name rt @ unusedPolicySuffix) e))
        | None \<Rightarrow> reconcile_network r rpc rt))
      (\<lambda>v. effect (PatchOVSNetwork (ovs_network rpc rt (vrf_wanted pools (rpc_Namespace rpc) rt)))
        (effect (PatchPolicy (secondary_policy rpc rt pfs)) v))"
    by (intro refines_then api_refines network_refines fails_return) simp
  let ?net = "effect (PatchOVSNetwork (ovs_network rpc rt (vrf_wanted pools (rpc_Namespace rpc) rt)))"
  have "refines view (State_Monad.bind (api_call (kube r) (PatchPolicy (primary_policy rpc rt pf)))
      (\<lambda>err. case err of
          Some e \<Rightarrow> State_Monad.return (Some (patching r sriovNodePolicyType (rpc_Namespace rpc, rt_Name rt) e))
        | None \<Rightarrow> m)) (\<lambda>v. g (effect (PatchPolicy (primary_policy rpc rt pf)) v))" if "refines view m g" for m g
    by (intro refines_then api_refines that fails_return) simp
  from this [OF network_refines] this [OF more] show ?thesis
    by (simp add: reconcileRailTopology_def Cons put_rail_def [abs_def] Let_def del: effect.simps)
qed

lemma rails_refines: "refines view (reconcile_rails r rpc rts) (fold (put_rail pools rpc) rts)"
proof (induction rts)
  case (Cons rt rts)
  show ?case
    unfolding reconcile_rails.simps fold_Cons comp_def
    by (rule refines_then [OF rail_refines Cons fails_return])
qed (simp add: refines_return id_def)

lemma pool_refines: "refines view (applyPoolConfig r rpc) (effect (PatchPoolConfig (pool_config rpc)))"
  unfolding applyPoolConfig_def
  by (rule refines_then [where g = "\<lambda>v. v"], intro api_refines, simp, rule refines_return, rule fails_return)

lemma delete_rails_refines: "refines view (delete_rails r rpc rts) (drop_rails (rpc_Namespace rpc) (rt_Name ` set rts))"
proof (induction rts)
  case Nil
  show ?case by (simp add: refines_return)
next
  case (Cons rt rts)
  have "refines view (delete_rails r rpc (rt # rts))
      (\<lambda>v. drop_rails (rpc_Namespace rpc) (rt_Name ` set rts) (drop_rails (rpc_Namespace rpc) {rt_Name rt} v))"
    unfolding delete_rails.simps by (rule refines_then [OF tear_down_refines Cons]) (intro fails_rules)
  then show ?case by (simp add: drop_rails_insert [abs_def])
qed

lemma deletion_run_view:
  assumes "DeletionTimestamp rpc \<noteq> None" "run_state (handleDeletion r rpc) s = (Inr None, s')"
  shows "view (env s') = clear_store rpc (view (env s))"
proof -
  let ?del = "delete_object r (DeletePoolConfig (rpc_Namespace rpc, rpc_Name rpc))
    (deleting ''SriovNetworkPoolConfig'' (rpc_Namespace rpc, rpc_Name rpc))"
  let ?fin = "api_call (kube r) (PatchFinalizers (rpc_Namespace rpc, rpc_Name rpc)
    (Finalizers (RemoveFinalizer (lib r) rpc finalizerName)))"
  from assms obtain t u where 1: "run_state (delete_rails r rpc (RailTopologies (rpc_Spec rpc))) s = (None, t)"
    and 2: "run_state ?del t = (None, u)" and 3: "run_state ?fin u = (None, s')"
    by (auto simp: handleDeletion_def split: prod.splits option.splits)
  have del: "refines view ?del (effect (DeletePoolConfig (rpc_Namespace rpc, rpc_Name rpc)))" by (intro delete_refines) simp
  have fin: "keeps view ?fin" by (intro keeps_api) simp
  show ?thesis
    using refinesD [OF delete_rails_refines 1] refinesD [OF del 2] keepsD [OF fin 3]
    by (simp add: clear_store_def rail_names_def del: effect.simps)
qed

end

lemma same_reconcile_store:
  assumes "same_but_status rpc x"
  shows "reconcile_store pools x = reconcile_store pools rpc"
proof -
  from assms obtain st where x: "x = rpc\<lparr>rpc_Status := st\<rparr>" by (auto simp: same_but_status_def)
  have "rpc_Namespace x = rpc_Namespace rpc" by (simp add: x)
  then have "put_rail pools x = put_rail pools rpc"
    by (simp add: fun_eq_iff put_rail_def same_generated [OF assms] cong: if_cong del: effect.simps)
  then have "put_rails pools x = put_rails pools rpc"
    by (simp add: put_rails_def [abs_def] same_objects [OF assms])
  then show ?thesis
    by (simp add: fun_eq_iff reconcile_store_def) (simp add: x removed_names_def owned_def rail_names_def)
qed

lemma fails_failReconcile: "fails (failReconcile r x err msg sel)"
  unfolding failReconcile_def by (intro fails_rules)

locale lawful_store = object_store r view pools + lawful_reconciler r
  for r :: "'w HostReconciler" and view :: "'w \<Rightarrow> store" and pools
begin

lemma selected_refines: "refines view (reconcile_selected r x sel) (reconcile_store pools x)"
proof (cases "RailTopologies (rpc_Spec x) = []")
  case True
  then show ?thesis by (simp add: reconcile_selected_def refines_fails fails_failReconcile)
next
  case False
  have final: "refines view (State_Monad.bind (processNodeStatus r x sel)
      (\<lambda>res. case res of (err, rpc') \<Rightarrow> (case err of
           Some e \<Rightarrow> failReconcile r rpc' e ''failed to update sync status'' sel
         | None \<Rightarrow> State_Monad.return None))) (\<lambda>v. v)"
    by (rule refines_after [OF keeps_process [OF laws(1)]])
      (auto split: prod.splits option.splits intro: refines_return refines_fails fails_failReconcile)
  show ?thesis
    unfolding reconcile_selected_def if_not_P [OF False] reconcile_store_def [abs_def] put_rails_def Let_def reconcileRailTopologies_def
    by (rule refines_then [OF pool_refines, where g = "\<lambda>v. drop_rails (rpc_Namespace x)
          (removed_names x (fold (put_rail pools x) (RailTopologies (rpc_Spec x)) v))
          (fold (put_rail pools x) (RailTopologies (rpc_Spec x)) v)"],
        rule refines_then [OF rails_refines, where g = "\<lambda>v. drop_rails (rpc_Namespace x) (removed_names x v) v"],
        rule refines_then [OF deleteRemoved_refines final], (rule fails_failReconcile)+)
qed

lemma live_refines:
  assumes "finalizerName \<in> set (Finalizers rpc)" "DeletionTimestamp rpc = None"
  shows "refines view (doReconcile r rpc) (reconcile_store pools rpc)"
proof -
  have has: "ContainsFinalizer (lib r) rpc finalizerName" using laws(4) assms(1) by (simp add: finalizer_law_def)
  have alive: "handleDeletion r rpc = State_Monad.return (Inl ())" using assms(2) by (simp add: handleDeletion_def)
  have start: "refines view (State_Monad.bind (patchSyncStatus r rpc SyncStatusInProgress)
      (\<lambda>res. case res of (err, y) \<Rightarrow> (case err of
          Some e \<Rightarrow> State_Monad.return (Some e) | None \<Rightarrow> reconcile_selected r y sel))) (reconcile_store pools rpc)" for sel
    unfolding refines_def
  proof (intro allI impI)
    fix s s'
    assume "run_state (State_Monad.bind (patchSyncStatus r rpc SyncStatusInProgress)
      (\<lambda>res. case res of (err, y) \<Rightarrow> (case err of
          Some e \<Rightarrow> State_Monad.return (Some e) | None \<Rightarrow> reconcile_selected r y sel))) s = (None, s')"
    then obtain y t where st: "run_state (patchSyncStatusWithMessage r rpc SyncStatusInProgress []) s = ((None, y), t)"
      and run: "run_state (reconcile_selected r y sel) t = (None, s')"
      by (auto simp: patchSyncStatus_def split: prod.splits option.splits)
    from trace_specD [OF trace_patch_object [OF laws(1)] st] have "same_but_status rpc y" by auto
    with refinesD [OF selected_refines run] keepsD [OF keeps_status [OF laws(1)] st]
    show "view (env s') = reconcile_store pools rpc (view (env s))" by (simp add: same_reconcile_store)
  qed
  show ?thesis
    unfolding doReconcile_def alive bind_left_identity sum.case using has
    by (simp only: simp_thms if_False)
      (rule refines_after [OF keeps_localNode], auto split: sum.splits intro: refines_fails fails_return start selected_refines)
qed

lemma deletion_refines:
  assumes "finalizerName \<in> set (Finalizers rpc)" "DeletionTimestamp rpc \<noteq> None"
  shows "refines view (doReconcile r rpc) (clear_store rpc)"
  unfolding refines_def
proof (intro allI impI)
  fix s s'
  assume run: "run_state (doReconcile r rpc) s = (None, s')"
  have "ContainsFinalizer (lib r) rpc finalizerName" using laws(4) assms(1) by (simp add: finalizer_law_def)
  moreover obtain x t where del: "run_state (handleDeletion r rpc) s = (x, t)" by fastforce
  moreover have "\<exists>y. x = Inr y" using trace_specD [OF trace_handleDeletion [OF assms(2)] del] by blast
  ultimately have "run_state (handleDeletion r rpc) s = (Inr None, s')" using run by (auto simp: doReconcile_def)
  from deletion_run_view [OF assms(2) this] show "view (env s') = clear_store rpc (view (env s))" .
qed

end

section \<open>What the specification gives\<close>

text \<open>No name is another one with the suffix of unused policies.\<close>

definition names_apart :: "string set \<Rightarrow> bool" where
  "names_apart N \<longleftrightarrow> (\<forall>n \<in> N. n @ unusedPolicySuffix \<notin> N)"

lemma names_apart_mono: "names_apart N \<Longrightarrow> M \<subseteq> N \<Longrightarrow> names_apart M"
  by (auto simp: names_apart_def)

lemma unused_suffix [simp]: "unusedPolicySuffix \<noteq> []"
  by (simp add: unusedPolicySuffix_def)

lemma generated_keys [simp]:
  "policy_key (primary_policy rpc rt pf) = (rpc_Namespace rpc, rt_Name rt)"
  "policy_key (secondary_policy rpc rt pfs) = (rpc_Namespace rpc, rt_Name rt @ unusedPolicySuffix)"
  "(on_Namespace (ovs_network rpc rt b), on_Name (ovs_network rpc rt b)) = (rpc_Namespace rpc, rt_Name rt)"
  "(pc_Namespace (pool_config rpc), pc_Name (pool_config rpc)) = (rpc_Namespace rpc, rpc_Name rpc)"
  by (simp_all add: policy_key_def primary_policy_def secondary_policy_def ovs_network_def pool_config_def
      generateSRIOVNetworkNodePolicy_def generateOVSNetwork_def generateSRIOVNetworkPoolConfig_def)

lemma generated_rail:
  assumes "rt_Name rt \<noteq> []"
  shows "policy_rail (primary_policy rpc rt pf) = rt_Name rt" "policy_rail (secondary_policy rpc rt pfs) = rt_Name rt"
proof -
  have "labelRailTopologyName \<noteq> labelMultiplane" by (simp add: labelRailTopologyName_def labelMultiplane_def)
  then have "label_value (owner_labels rpc rt) labelRailTopologyName = rt_Name rt"
    by (simp add: owner_labels_def Let_def label_value_def)
  then show "policy_rail (primary_policy rpc rt pf) = rt_Name rt" "policy_rail (secondary_policy rpc rt pfs) = rt_Name rt"
    using assms by (simp_all add: policy_rail_def primary_policy_def secondary_policy_def)
qed

text \<open>The objects of a rail as they are wanted.\<close>

definition rail_wanted :: "(nsname \<Rightarrow> nested_string result) \<Rightarrow> SpectrumXRailPoolConfig \<Rightarrow> store \<Rightarrow> RailTopology \<Rightarrow> bool" where
  "rail_wanted pools rpc v rt \<longleftrightarrow>
     st_policies v (rpc_Namespace rpc, rt_Name rt) = Some (primary_policy rpc rt (hd (pf_names rt))) \<and>
     (tl (pf_names rt) \<noteq> [] \<longrightarrow>
        st_policies v (rpc_Namespace rpc, rt_Name rt @ unusedPolicySuffix) = Some (secondary_policy rpc rt (tl (pf_names rt)))) \<and>
     st_networks v (rpc_Namespace rpc, rt_Name rt) = Some (ovs_network rpc rt (vrf_wanted pools (rpc_Namespace rpc) rt))"

lemma put_rail_fields:
  "st_policies (put_rail pools rpc rt v) k =
     (if k = (rpc_Namespace rpc, rt_Name rt) then Some (primary_policy rpc rt (hd (pf_names rt)))
      else if k = (rpc_Namespace rpc, rt_Name rt @ unusedPolicySuffix) \<and> tl (pf_names rt) \<noteq> []
      then Some (secondary_policy rpc rt (tl (pf_names rt))) else st_policies v k)"
  "st_networks (put_rail pools rpc rt v) k =
     (if k = (rpc_Namespace rpc, rt_Name rt) then Some (ovs_network rpc rt (vrf_wanted pools (rpc_Namespace rpc) rt))
      else st_networks v k)"
  "st_pools (put_rail pools rpc rt v) = st_pools v"
  by (simp_all add: put_rail_def Let_def)

lemma put_rail_wanted: "rail_wanted pools rpc (put_rail pools rpc rt v) rt"
  by (simp add: rail_wanted_def put_rail_fields)

lemma fold_put_others:
  "st_pools (fold (put_rail pools rpc) rts v) = st_pools v"
  "fst k \<noteq> rpc_Namespace rpc \<or> snd k \<notin> policy_names (rt_Name ` set rts) \<Longrightarrow>
   st_policies (fold (put_rail pools rpc) rts v) k = st_policies v k"
  "fst k \<noteq> rpc_Namespace rpc \<or> snd k \<notin> rt_Name ` set rts \<Longrightarrow>
   st_networks (fold (put_rail pools rpc) rts v) k = st_networks v k"
  by (induction rts arbitrary: v) (auto simp: put_rail_fields policy_names_def)

lemma fold_put_wanted:
  "distinct (map rt_Name rts) \<Longrightarrow> names_apart (rt_Name ` set rts) \<Longrightarrow> rt \<in> set rts \<Longrightarrow>
   rail_wanted pools rpc (fold (put_rail pools rpc) rts v) rt"
proof (induction rts arbitrary: v)
  case (Cons a rts)
  have apart: "names_apart (rt_Name ` set rts)" using Cons.prems(2) by (rule names_apart_mono) auto
  show ?case
  proof (cases "rt = a")
    case True
    have "rt_Name a \<notin> policy_names (rt_Name ` set rts)" "rt_Name a @ unusedPolicySuffix \<notin> policy_names (rt_Name ` set rts)"
      "rt_Name a \<notin> rt_Name ` set rts"
      using Cons.prems(1,2) by (auto simp: policy_names_def names_apart_def)
    then have "rail_wanted pools rpc (fold (put_rail pools rpc) rts w) a = rail_wanted pools rpc w a" for w
      by (simp add: rail_wanted_def fold_put_others)
    then show ?thesis using True by (simp add: put_rail_wanted)
  next
    case False
    with Cons apart show ?thesis by simp
  qed
qed simp

lemma fold_put_origin:
  "st_policies (fold (put_rail pools rpc) rts v) k = Some p \<Longrightarrow>
   st_policies v k = Some p \<or> (\<exists>rt \<in> set rts. p = primary_policy rpc rt (hd (pf_names rt)) \<or> p = secondary_policy rpc rt (tl (pf_names rt)))"
proof (induction rts arbitrary: v)
  case (Cons a rts)
  from Cons.IH [of "put_rail pools rpc a v"] Cons.prems
  show ?case by (auto simp: put_rail_fields split: if_splits)
qed simp

text \<open>
  The premises under which names tell rails apart: every policy is stored under its name, the owned
  ones are named after their rail, rails have distinct names, and none is named like another's
  unused policy.
\<close>

definition store_wf :: "SpectrumXRailPoolConfig \<Rightarrow> store \<Rightarrow> bool" where
  "store_wf rpc v \<longleftrightarrow>
     (\<forall>k p. st_policies v k = Some p \<longrightarrow> policy_key p = k) \<and>
     (\<forall>p \<in> owned rpc v. np_Name p \<in> policy_names {policy_rail p}) \<and>
     distinct (map rt_Name (RailTopologies (rpc_Spec rpc))) \<and> [] \<notin> rail_names rpc \<and>
     names_apart (rail_names rpc \<union> policy_rail ` owned rpc v)"

definition store_desired :: "(nsname \<Rightarrow> nested_string result) \<Rightarrow> SpectrumXRailPoolConfig \<Rightarrow> store \<Rightarrow> bool" where
  "store_desired pools rpc v \<longleftrightarrow>
     st_pools v (rpc_Namespace rpc, rpc_Name rpc) = Some (pool_config rpc) \<and>
     (\<forall>rt \<in> set (RailTopologies (rpc_Spec rpc)). rail_wanted pools rpc v rt) \<and>
     (\<forall>p \<in> owned rpc v. policy_rail p \<in> rail_names rpc)"

lemma put_rails_old:
  assumes "st_policies (put_rails pools rpc v) k = Some p" "policy_rail p \<notin> rail_names rpc" "[] \<notin> rail_names rpc"
  shows "st_policies v k = Some p"
proof -
  from fold_put_origin [OF assms(1) [unfolded put_rails_def]] consider "st_policies v k = Some p"
    | rt where "rt \<in> set (RailTopologies (rpc_Spec rpc))" "p = primary_policy rpc rt (hd (pf_names rt)) \<or> p = secondary_policy rpc rt (tl (pf_names rt))"
    by auto
  then show ?thesis
  proof cases
    case 2
    then have rt: "rt_Name rt \<in> rail_names rpc" by (simp add: rail_names_def)
    then have "rt_Name rt \<noteq> []" using assms(3) by metis
    from generated_rail [OF this] 2(2) rt assms(2) show ?thesis by auto
  qed simp
qed

lemma put_rails_origin:
  "p \<in> owned rpc (put_rails pools rpc v) \<Longrightarrow> [] \<notin> rail_names rpc \<Longrightarrow> p \<in> owned rpc v \<or> policy_rail p \<in> rail_names rpc"
  by (auto simp: owned_def matching_def dest: put_rails_old)

text \<open>The names of rails that go are no names of rails that stay.\<close>

lemma removed_apart:
  assumes "store_wf rpc v" and R_def: "R = removed_names rpc (put_rails pools rpc v)"
  shows "R \<subseteq> policy_rail ` owned rpc v - rail_names rpc"
    and "rt \<in> set (RailTopologies (rpc_Spec rpc)) \<Longrightarrow> rt_Name rt \<notin> policy_names R \<and> rt_Name rt @ unusedPolicySuffix \<notin> policy_names R"
proof -
  have wf: "[] \<notin> rail_names rpc" "names_apart (rail_names rpc \<union> policy_rail ` owned rpc v)"
    using assms(1) by (auto simp: store_wf_def)
  show R: "R \<subseteq> policy_rail ` owned rpc v - rail_names rpc"
    using put_rails_origin [OF _ wf(1)] by (fastforce simp: R_def removed_names_def)
  show "rt_Name rt \<notin> policy_names R \<and> rt_Name rt @ unusedPolicySuffix \<notin> policy_names R"
    if "rt \<in> set (RailTopologies (rpc_Spec rpc))"
  proof -
    have "rt_Name rt \<in> rail_names rpc" using that by (simp add: rail_names_def)
    with R wf(2) show ?thesis by (fastforce simp: policy_names_def names_apart_def)
  qed
qed

lemma reconcile_store_desired:
  assumes "store_wf rpc v"
  shows "store_desired pools rpc (reconcile_store pools rpc v)"
proof -
  let ?ns = "rpc_Namespace rpc" and ?v1 = "put_rails pools rpc v"
  define R where "R = removed_names rpc ?v1"
  have wf: "\<And>k p. st_policies v k = Some p \<Longrightarrow> policy_key p = k" "\<And>p. p \<in> owned rpc v \<Longrightarrow> np_Name p \<in> policy_names {policy_rail p}"
    "distinct (map rt_Name (RailTopologies (rpc_Spec rpc)))" "[] \<notin> rail_names rpc" "names_apart (rail_names rpc)"
    using assms by (auto simp: store_wf_def elim: names_apart_mono)
  note R = removed_apart [OF assms R_def]
  have wanted: "rail_wanted pools rpc (drop_rails ?ns R ?v1) rt" if "rt \<in> set (RailTopologies (rpc_Spec rpc))" for rt
    using fold_put_wanted [OF wf(3) wf(5) [unfolded rail_names_def] that, of pools rpc] R(2) [OF that]
    by (simp add: rail_wanted_def drop_rails_def put_rails_def policy_names_def)
  moreover have "policy_rail p \<in> rail_names rpc" if p: "p \<in> owned rpc (drop_rails ?ns R ?v1)" for p
  proof (rule ccontr)
    assume out: "policy_rail p \<notin> rail_names rpc"
    from p obtain n where n: "st_policies ?v1 (?ns, n) = Some p" "n \<notin> policy_names R" "p \<in> owned rpc ?v1"
      by (auto simp: owned_def matching_def drop_rails_def split: if_splits)
    with out have "policy_rail p \<in> R" by (simp add: R_def removed_names_def)
    moreover have "p \<in> owned rpc v" using put_rails_origin [OF n(3) wf(4)] out by blast
    then have "np_Name p \<in> policy_names {policy_rail p}" by (rule wf(2))
    moreover have "n = np_Name p" using wf(1) [OF put_rails_old [OF n(1) out wf(4)]] by (simp add: policy_key_def)
    ultimately show False using n(2) by (auto simp: policy_names_def)
  qed
  moreover have "st_pools (drop_rails ?ns R ?v1) (?ns, rpc_Name rpc) = Some (pool_config rpc)"
    by (simp add: drop_rails_def put_rails_def fold_put_others)
  ultimately show ?thesis by (simp add: store_desired_def reconcile_store_def R_def Let_def)
qed

lemma reconcile_store_frame:
  assumes "store_wf rpc v" "v' = reconcile_store pools rpc v" "N = rail_names rpc \<union> policy_rail ` owned rpc v"
  shows "fst k \<noteq> rpc_Namespace rpc \<or> snd k \<notin> policy_names N \<Longrightarrow> st_policies v' k = st_policies v k"
    and "fst k \<noteq> rpc_Namespace rpc \<or> snd k \<notin> N \<Longrightarrow> st_networks v' k = st_networks v k"
    and "k \<noteq> (rpc_Namespace rpc, rpc_Name rpc) \<Longrightarrow> st_pools v' k = st_pools v k"
proof -
  define R where "R = removed_names rpc (put_rails pools rpc v)"
  have v': "v' = drop_rails (rpc_Namespace rpc) R (put_rails pools rpc v)"
    by (simp add: assms(2) reconcile_store_def R_def Let_def)
  have R: "R \<subseteq> N" using removed_apart(1) [OF assms(1) R_def] assms(3) by auto
  then have sub: "policy_names R \<subseteq> policy_names N" "rt_Name ` set (RailTopologies (rpc_Spec rpc)) \<subseteq> N"
    "policy_names (rt_Name ` set (RailTopologies (rpc_Spec rpc))) \<subseteq> policy_names N"
    by (auto simp: policy_names_def assms(3) rail_names_def)
  show "st_policies v' k = st_policies v k" if "fst k \<noteq> rpc_Namespace rpc \<or> snd k \<notin> policy_names N"
  proof -
    have "fst k \<noteq> rpc_Namespace rpc \<or> snd k \<notin> policy_names (rt_Name ` set (RailTopologies (rpc_Spec rpc)))" using that sub(3) by blast
    from fold_put_others(2) [OF this] that sub(1) show ?thesis
      by (auto simp: v' drop_rails_def put_rails_def)
  qed
  show "st_networks v' k = st_networks v k" if "fst k \<noteq> rpc_Namespace rpc \<or> snd k \<notin> N"
  proof -
    have "fst k \<noteq> rpc_Namespace rpc \<or> snd k \<notin> rt_Name ` set (RailTopologies (rpc_Spec rpc))" using that sub(2) by blast
    from fold_put_others(3) [OF this] that R show ?thesis
      by (auto simp: v' drop_rails_def put_rails_def)
  qed
  show "st_pools v' k = st_pools v k" if "k \<noteq> (rpc_Namespace rpc, rpc_Name rpc)"
    using that by (simp add: v' drop_rails_def put_rails_def fold_put_others)
qed

text \<open>A store in the desired state is a fixed point.\<close>

lemma put_rail_fixed: "rail_wanted pools rpc v rt \<Longrightarrow> put_rail pools rpc rt v = v"
  by (intro store.equality ext) (auto simp: put_rail_fields rail_wanted_def)

lemma reconcile_store_fixed:
  assumes "store_desired pools rpc v"
  shows "reconcile_store pools rpc v = v"
proof -
  have "effect (PatchPoolConfig (pool_config rpc)) v = v"
    using assms by (intro store.equality ext) (auto simp: store_desired_def)
  moreover have "fold (put_rail pools rpc) rts v = v" if "\<forall>rt \<in> set rts. rail_wanted pools rpc v rt" for rts
    using that by (induction rts) (simp_all add: put_rail_fixed)
  ultimately have "put_rails pools rpc v = v" using assms by (simp add: put_rails_def store_desired_def del: effect.simps)
  moreover have "removed_names rpc v = {}" using assms by (auto simp: removed_names_def store_desired_def)
  ultimately show ?thesis by (simp add: reconcile_store_def)
qed

text \<open>Deleting a pool leaves nothing of its rails.\<close>

lemma clear_store_empty:
  "rt \<in> set (RailTopologies (rpc_Spec rpc)) \<Longrightarrow>
   st_policies (clear_store rpc v) (rpc_Namespace rpc, rt_Name rt) = None \<and>
   st_policies (clear_store rpc v) (rpc_Namespace rpc, rt_Name rt @ unusedPolicySuffix) = None \<and>
   st_networks (clear_store rpc v) (rpc_Namespace rpc, rt_Name rt) = None"
  "st_pools (clear_store rpc v) (rpc_Namespace rpc, rpc_Name rpc) = None"
  by (auto simp: clear_store_def drop_rails_def policy_names_def rail_names_def)

text \<open>Nothing writes or deletes the unused policy of a rail that has only one PF.\<close>

lemma fold_put_unused:
  "\<forall>a \<in> set rts. rt_Name a \<noteq> n @ unusedPolicySuffix \<and> (rt_Name a = n \<longrightarrow> tl (pf_names a) = []) \<Longrightarrow>
   st_policies (fold (put_rail pools rpc) rts v) (rpc_Namespace rpc, n @ unusedPolicySuffix) =
   st_policies v (rpc_Namespace rpc, n @ unusedPolicySuffix)"
  by (induction rts arbitrary: v) (auto simp: put_rail_fields)

lemma reconcile_store_unused:
  assumes "store_wf rpc v" "rt \<in> set (RailTopologies (rpc_Spec rpc))" "tl (pf_names rt) = []"
  shows "st_policies (reconcile_store pools rpc v) (rpc_Namespace rpc, rt_Name rt @ unusedPolicySuffix) =
    st_policies v (rpc_Namespace rpc, rt_Name rt @ unusedPolicySuffix)"
proof -
  have wf: "distinct (map rt_Name (RailTopologies (rpc_Spec rpc)))" "names_apart (rail_names rpc)"
    using assms(1) by (auto simp: store_wf_def elim: names_apart_mono)
  have "rt_Name a \<noteq> rt_Name rt @ unusedPolicySuffix \<and> (rt_Name a = rt_Name rt \<longrightarrow> tl (pf_names a) = [])"
    if "a \<in> set (RailTopologies (rpc_Spec rpc))" for a
  proof
    show "rt_Name a \<noteq> rt_Name rt @ unusedPolicySuffix"
      using wf(2) assms(2) that by (metis imageI names_apart_def rail_names_def)
    show "rt_Name a = rt_Name rt \<longrightarrow> tl (pf_names a) = []"
      using wf(1) assms(2,3) that by (auto simp: distinct_map inj_on_def)
  qed
  then have "st_policies (put_rails pools rpc v) (rpc_Namespace rpc, rt_Name rt @ unusedPolicySuffix) =
      st_policies v (rpc_Namespace rpc, rt_Name rt @ unusedPolicySuffix)"
    unfolding put_rails_def by (subst fold_put_unused) auto
  with removed_apart(2) [OF assms(1) refl assms(2)] show ?thesis
    by (simp add: reconcile_store_def Let_def drop_rails_def)
qed

end
