(* ===== verification/Store_Properties.thy ===== *)
theory Store_Properties
  imports Object_Store
begin

text \<open>
  What reconciliations guarantee of the objects in the API server: they reach the desired state,
  converge, and leave nothing behind on deletion. The contract of the store is interpreted on
  an executable one, at which the theorems are applied.
\<close>

section \<open>A store that keeps the contract\<close>

record objs =
  objs_policies :: "(nsname \<times> SriovNetworkNodePolicy) list"
  objs_networks :: "(nsname \<times> OVSNetwork) list"
  objs_pools :: "(nsname \<times> SriovNetworkPoolConfig) list"

definition objs_view :: "objs \<Rightarrow> store" where
  "objs_view w = \<lparr>st_policies = map_of (objs_policies w), st_networks = map_of (objs_networks w), st_pools = map_of (objs_pools w)\<rparr>"

definition without :: "'k \<Rightarrow> ('k \<times> 'v) list \<Rightarrow> ('k \<times> 'v) list" where
  "without k xs = filter (\<lambda>kv. fst kv \<noteq> k) xs"

lemma map_of_without: "map_of (without k xs) = (map_of xs)(k := None)"
  by (induction xs) (auto simp: without_def)

definition absent :: "goerr" where "absent = External ''NotFound'' ''no such object''"

fun objs_do :: "api_write \<Rightarrow> objs \<Rightarrow> goerr option \<times> objs" where
  "objs_do (PatchPolicy p) w = (None, w\<lparr>objs_policies := (policy_key p, p) # objs_policies w\<rparr>)"
| "objs_do (PatchOVSNetwork n) w = (None, w\<lparr>objs_networks := ((on_Namespace n, on_Name n), n) # objs_networks w\<rparr>)"
| "objs_do (PatchPoolConfig p) w = (None, w\<lparr>objs_pools := ((pc_Namespace p, pc_Name p), p) # objs_pools w\<rparr>)"
| "objs_do (DeletePolicy k) w =
     (if map_of (objs_policies w) k = None then (Some absent, w) else (None, w\<lparr>objs_policies := without k (objs_policies w)\<rparr>))"
| "objs_do (DeleteOVSNetwork k) w =
     (if map_of (objs_networks w) k = None then (Some absent, w) else (None, w\<lparr>objs_networks := without k (objs_networks w)\<rparr>))"
| "objs_do (DeletePoolConfig k) w =
     (if map_of (objs_pools w) k = None then (Some absent, w) else (None, w\<lparr>objs_pools := without k (objs_pools w)\<rparr>))"
| "objs_do _ w = (None, w)"

definition objs_list :: "string \<Rightarrow> labels \<Rightarrow> objs \<Rightarrow> SriovNetworkNodePolicy list" where
  "objs_list ns sel w = filter (\<lambda>p. sel \<subseteq>\<^sub>m np_Labels p)
     (map (\<lambda>k. the (map_of (objs_policies w) k)) (filter (\<lambda>k. fst k = ns) (map fst (objs_policies w))))"

lemma set_objs_list: "set (objs_list ns sel w) = matching (objs_view w) ns sel"
proof
  show "set (objs_list ns sel w) \<subseteq> matching (objs_view w) ns sel"
  proof
    fix p assume "p \<in> set (objs_list ns sel w)"
    then obtain n x where n: "((ns, n), x) \<in> set (objs_policies w)" "p = the (map_of (objs_policies w) (ns, n))" "sel \<subseteq>\<^sub>m np_Labels p"
      by (auto simp: objs_list_def)
    then obtain q where "map_of (objs_policies w) (ns, n) = Some q" by (metis weak_map_of_SomeI)
    with n show "p \<in> matching (objs_view w) ns sel" by (auto simp: matching_def objs_view_def)
  qed
  show "matching (objs_view w) ns sel \<subseteq> set (objs_list ns sel w)"
  proof
    fix p assume "p \<in> matching (objs_view w) ns sel"
    then obtain n where n: "map_of (objs_policies w) (ns, n) = Some p" "sel \<subseteq>\<^sub>m np_Labels p"
      by (auto simp: matching_def objs_view_def)
    then have "(ns, n) \<in> set (filter (\<lambda>k. fst k = ns) (map fst (objs_policies w)))" by (force dest: map_of_SomeD)
    then have "the (map_of (objs_policies w) (ns, n)) \<in>
        set (map (\<lambda>k. the (map_of (objs_policies w) k)) (filter (\<lambda>k. fst k = ns) (map fst (objs_policies w))))"
      unfolding set_map by (rule imageI)
    with n show "p \<in> set (objs_list ns sel w)" by (simp add: objs_list_def)
  qed
qed

definition objs_reconciler :: "(nsname \<Rightarrow> nested_string result) \<Rightarrow> SpectrumXRailPoolConfig \<Rightarrow> objs HostReconciler" where
  "objs_reconciler pools rpc = demo_reconciler
     ((demo_client rpc [])\<lparr>get_CIDRPool := (\<lambda>k w. (pools k, w)), api_do := objs_do,
        list_NodePolicies := (\<lambda>ns sel w. (Inr (objs_list ns sel w), w))\<rparr>)
     all_ok_shell \<lparr>os_do = (\<lambda>f w. (None, w)), os_ReadFile = (\<lambda>p w. (no_object, w))\<rparr>"

interpretation objs: lawful_store "objs_reconciler pools rpc" objs_view pools for pools rpc
proof unfold_locales
  fix a w
  assume "on_store a" "fst (api_do (kube (objs_reconciler pools rpc)) a w) = None"
  then show "objs_view (snd (api_do (kube (objs_reconciler pools rpc)) a w)) = effect a (objs_view w)"
    by (cases a) (auto simp: objs_reconciler_def demo_reconciler_def objs_view_def map_of_without split: if_splits)
next
  fix a w e
  assume "fst (api_do (kube (objs_reconciler pools rpc)) a w) = Some e"
  then show "objs_view (snd (api_do (kube (objs_reconciler pools rpc)) a w)) = objs_view w \<and> effect a (objs_view w) = objs_view w"
    by (cases a) (auto simp: objs_reconciler_def demo_reconciler_def objs_view_def fun_upd_idem split: if_splits)
next
  fix a w
  assume "\<not> on_store a"
  then show "objs_view (snd (api_do (kube (objs_reconciler pools rpc)) a w)) = objs_view w"
    by (cases a) (auto simp: objs_reconciler_def demo_reconciler_def)
qed (auto simp: objs_reconciler_def demo_reconciler_def demo_client_def all_ok_shell_def demo_lib_def set_objs_list
    retry_law_def errors_law_def labels_law_def finalizer_law_def)

text \<open>With a server that answers like this one, reconciliations of a pool that does not select the agent's node succeed.\<close>

fun deletion :: "api_write \<Rightarrow> bool" where
  "deletion (DeletePolicy k) = True"
| "deletion (DeleteOVSNetwork k) = True"
| "deletion (DeletePoolConfig k) = True"
| "deletion _ = False"

locale agreeable_server =
  fixes r :: "'w HostReconciler"
  assumes libs: "lib r = demo_lib" "shell r = all_ok_shell"
    and writes: "fst (api_do (kube r) a w) = None \<or> deletion a \<and> fst (api_do (kube r) a w) = Some absent"
    and lists: "\<exists>ps. fst (list_NodePolicies (kube r) ns sel w) = Inr ps"
    and nodes: "fst (get_Node (kube r) n w) = Inr (demo_node n)"
begin

lemma write_succeeds: "\<not> deletion a \<Longrightarrow> succeeds (api_call (kube r) a)"
  using writes [of a] by (simp add: succeeds_def api_call_def)

lemma delete_succeeds: "succeeds (delete_object r a wrap)"
  unfolding succeeds_def
proof
  fix s
  have "IsNotFound (lib r) absent" by (simp add: libs demo_lib_def absent_def)
  then show "fst (run_state (delete_object r a wrap) s) = None"
    using writes [of a "env s"] by (auto simp: delete_object_def api_call_def relevant_error_def)
qed

lemma tear_down_succeeds: "succeeds (tear_down r ns n m)"
proof -
  have "succeeds (cleanupXPlaneBridges (shell r) n)"
    unfolding cleanupXPlaneBridges_plan libs succeeds_def by (simp add: all_ok_tolerant)
  then show ?thesis
    unfolding tear_down_def deleteRailTopologyResources_def by (intro succeeds_rules delete_succeeds)
qed

lemma delete_removed_succeeds: "succeeds (delete_removed r x cur ps d)"
  by (induction ps arbitrary: d) (simp_all add: succeeds_rules tear_down_succeeds)

lemma deleteRemoved_succeeds: "succeeds (deleteRemovedRailTopologies r x)"
  unfolding succeeds_def
proof
  fix s :: "'w world"
  obtain ps where "fst (list_NodePolicies (kube r) (rpc_Namespace x) [labelOwnerName \<mapsto> rpc_Name x] (env s)) = Inr ps" using lists by blast
  with delete_removed_succeeds show "fst (run_state (deleteRemovedRailTopologies r x) s) = None"
    by (simp add: deleteRemovedRailTopologies_def succeeds_def)
qed

lemma rail_succeeds: "pf_names rt = [pf] \<Longrightarrow> CidrPoolRef rt = [] \<Longrightarrow> succeeds (reconcileRailTopology r x rt)"
  by (simp add: reconcileRailTopology_def reconcile_network_def decide_vrf_def succeeds_rules write_succeeds)

lemma labelled_succeeds: "fst (run_state (Reconcile r labelled_rpc) s) = None"
proof -
  have rpc: "finalizerName \<in> set (Finalizers labelled_rpc)" "DeletionTimestamp labelled_rpc = None"
    "RailTopologies (rpc_Spec labelled_rpc) = [demo_rail ''a'' [''p0'']]" "NodeSelector (rpc_Spec labelled_rpc) = [''rack'' \<mapsto> ''1'']"
    by (simp_all add: labelled_rpc_def demo_rpc_def)
  have has: "ContainsFinalizer (lib r) labelled_rpc finalizerName" "\<not> labels_Matches (lib r) [''rack'' \<mapsto> ''1''] (node_Labels (demo_node n))" for n
    by (simp_all add: libs demo_lib_def demo_node_def map_le_def rpc(1))
  have sel: "fst (run_state (localNodeMatchesSelector r [''rack'' \<mapsto> ''1'']) s) = Inr False"
    using nodes [of "nodeName r" "env s"] has(2) by (simp add: localNodeMatchesSelector_def)
  have rail: "succeeds (reconcileRailTopology r labelled_rpc (demo_rail ''a'' [''p0'']))"
    by (rule rail_succeeds [where pf = "''p0''"]) (simp_all add: demo_rail_def)
  have "succeeds (applyPoolConfig r labelled_rpc)" unfolding applyPoolConfig_def by (simp add: succeeds_rules write_succeeds)
  moreover have "succeeds (reconcileRailTopologies r labelled_rpc)"
    unfolding reconcileRailTopologies_def rpc reconcile_rails.simps by (intro succeeds_rules rail)
  ultimately have "succeeds (reconcile_selected r labelled_rpc False)"
    by (simp add: reconcile_selected_def processNodeStatus_def rpc succeeds_rules deleteRemoved_succeeds)
  with sel show ?thesis
    by (cases "run_state (localNodeMatchesSelector r [''rack'' \<mapsto> ''1'']) s")
      (simp add: Reconcile_eq doReconcile_def handleDeletion_def rpc has succeeds_def)
qed

end

interpretation agree: agreeable_server "objs_reconciler pools rpc" for pools rpc
proof unfold_locales
  fix a w
  show "fst (api_do (kube (objs_reconciler pools rpc)) a w) = None \<or>
      deletion a \<and> fst (api_do (kube (objs_reconciler pools rpc)) a w) = Some absent"
    by (cases a) (simp_all add: objs_reconciler_def demo_reconciler_def)
qed (simp_all add: objs_reconciler_def demo_reconciler_def demo_client_def)

lemma objs_deletes:
  assumes "rpc = labelled_rpc\<lparr>DeletionTimestamp := Some 3\<rparr>"
  shows "fst (run_state (Reconcile (objs_reconciler pools rpc) rpc) s) = None"
proof -
  let ?r = "objs_reconciler pools rpc"
  have rpc: "finalizerName \<in> set (Finalizers rpc)" "DeletionTimestamp rpc = Some 3"
    "RailTopologies (rpc_Spec rpc) = [demo_rail ''a'' [''p0'']]"
    by (simp_all add: assms labelled_rpc_def demo_rpc_def)
  have r: "ContainsFinalizer (lib ?r) rpc finalizerName" "api_do (kube ?r) = objs_do" "IsNotFound (lib ?r) absent"
    by (simp_all add: objs_reconciler_def demo_reconciler_def demo_lib_def rpc(1) absent_def)
  define u where "u ns n m t = snd (run_state (tear_down ?r ns n m) t)" for ns n m t
  have tear: "run_state (tear_down ?r ns n m) t = (None, u ns n m t)" for ns n m t
    using agree.tear_down_succeeds by (simp add: prod_eq_iff u_def succeeds_def)
  show ?thesis
    by (simp add: Reconcile_eq doReconcile_def handleDeletion_def rpc r tear delete_object_def api_call_def relevant_error_def)
qed

section \<open>Properties\<close>

text \<open>
  Property C5. A successful reconciliation of a live pool takes the store to the desired state: the
  pool configuration and the objects of every rail are stored as generated, and every policy that
  belongs to the pool is one of a current rail. Objects of other names, namespaces and pools
  are as before. Rails must be told apart by their names (\<open>store_wf\<close>).
\<close>

theorem Reconcile_reaches_desired:
  assumes "object_store r view pools"
    and "retry_law (lib r)" "errors_law (lib r)" "labels_law (lib r)" "finalizer_law (lib r)"
    and "finalizerName \<in> set (Finalizers rpc)" "DeletionTimestamp rpc = None"
    and "run_state (Reconcile r rpc) s = (None, s')" "store_wf rpc (view (env s))"
    and "v = view (env s)" "v' = view (env s')" "N = rail_names rpc \<union> policy_rail ` owned rpc v"
  shows "store_desired pools rpc v' \<and>
    (\<forall>k. fst k \<noteq> rpc_Namespace rpc \<or> snd k \<notin> policy_names N \<longrightarrow> st_policies v' k = st_policies v k) \<and>
    (\<forall>k. fst k \<noteq> rpc_Namespace rpc \<or> snd k \<notin> N \<longrightarrow> st_networks v' k = st_networks v k) \<and>
    (\<forall>k. k \<noteq> (rpc_Namespace rpc, rpc_Name rpc) \<longrightarrow> st_pools v' k = st_pools v k)"
proof -
  have "lawful_store r view pools" using assms(1-5) by (simp add: lawful_store_def lawful_reconciler_def)
  from refinesD [OF lawful_store.live_refines [OF this assms(6,7)] assms(8) [unfolded Reconcile_eq]]
  have v': "v' = reconcile_store pools rpc v" by (simp add: assms(10,11))
  have wf: "store_wf rpc v" using assms(9,10) by simp
  show ?thesis
    using reconcile_store_desired [OF wf, of pools] reconcile_store_frame [OF wf v' assms(12)] by (auto simp: v')
qed

text \<open>A store with the policy of a rail that is gone and the unused policy of rail \<open>a\<close>, which had a second PF.\<close>

definition old_unused :: SriovNetworkNodePolicy where
  "old_unused = secondary_policy labelled_rpc (demo_rail ''a'' [''p0'', ''p1'']) [''p1'']"

definition old_objs :: objs where
  "old_objs = \<lparr>objs_policies = [((''ns'', ''b''), old_policy ''b'' [''q0'']), ((''ns'', ''a-unused''), old_unused)],
     objs_networks = [], objs_pools = []\<rparr>"

lemma old_objs_wf: "store_wf labelled_rpc (objs_view old_objs)"
proof -
  have names: "rpc_Namespace labelled_rpc = ''ns''" "rail_names labelled_rpc = {''a''}"
    "map rt_Name (RailTopologies (rpc_Spec labelled_rpc)) = [''a'']"
    by (simp_all add: labelled_rpc_def rail_names_def demo_rpc_def demo_rail_def)
  have b: "policy_key (old_policy ''b'' [''q0'']) = (''ns'', ''b'')" "policy_rail (old_policy ''b'' [''q0'']) = ''b''"
    by (simp_all add: old_policy_facts) (simp add: old_policy_def demo_rpc_def demo_rail_def)
  have "rt_Name (demo_rail ''a'' [''p0'', ''p1'']) = ''a''" by (simp add: demo_rail_def)
  then have a: "policy_key old_unused = (''ns'', ''a-unused'')" "policy_rail old_unused = ''a''"
    by (simp_all add: old_unused_def names generated_rail) (simp add: unusedPolicySuffix_def)
  have in_list: "(k, p) \<in> set (objs_policies w)" if "st_policies (objs_view w) k = Some p" for k p w
    using that by (auto simp: objs_view_def dest: map_of_SomeD)
  have list: "snd ` set (objs_policies old_objs) = {old_policy ''b'' [''q0''], old_unused}" by (simp add: old_objs_def)
  have own: "owned labelled_rpc (objs_view old_objs) \<subseteq> {old_policy ''b'' [''q0''], old_unused}"
  proof
    fix p
    assume "p \<in> owned labelled_rpc (objs_view old_objs)"
    then obtain n where "st_policies (objs_view old_objs) (''ns'', n) = Some p"
      unfolding owned_def matching_def names by blast
    from imageI [OF in_list [OF this], of snd] show "p \<in> {old_policy ''b'' [''q0''], old_unused}" by (simp only: list snd_conv)
  qed
  have "names_apart {''a'', ''b''}" by (simp add: names_apart_def unusedPolicySuffix_def)
  moreover have "rail_names labelled_rpc \<union> policy_rail ` owned labelled_rpc (objs_view old_objs) \<subseteq> {''a'', ''b''}"
    using image_mono [OF own, of policy_rail] unfolding names(2) image_insert a(2) b(2) image_empty by blast
  ultimately have "names_apart (rail_names labelled_rpc \<union> policy_rail ` owned labelled_rpc (objs_view old_objs))"
    by (rule names_apart_mono)
  moreover have "np_Name p \<in> policy_names {policy_rail p}" if p: "p \<in> owned labelled_rpc (objs_view old_objs)" for p
  proof -
    consider "p = old_policy ''b'' [''q0'']" | "p = old_unused" using own p by blast
    then show ?thesis using a b by cases (simp_all add: policy_names_def policy_key_def unusedPolicySuffix_def)
  qed
  moreover have "policy_key p = k" if "st_policies (objs_view old_objs) k = Some p" for k p
    using in_list [OF that] a(1) b(1) by (auto simp: old_objs_def)
  ultimately show ?thesis by (simp add: store_wf_def names)
qed

abbreviation (input) reconcile_objs :: "SpectrumXRailPoolConfig \<Rightarrow> objs world \<Rightarrow> goerr option \<times> objs world" where
  "reconcile_objs rpc s \<equiv> run_state (Reconcile (objs_reconciler (\<lambda>_. no_object) rpc) rpc) s"

lemma objs_run:
  "reconcile_objs labelled_rpc s = (None, snd (reconcile_objs labelled_rpc s))"
  by (simp add: prod_eq_iff agree.labelled_succeeds)

lemma labelled_live: "finalizerName \<in> set (Finalizers labelled_rpc)" "DeletionTimestamp labelled_rpc = None"
  by (simp_all add: labelled_rpc_def demo_rpc_def)

theorem Reconcile_reaches_desired_witness:
  "let s' = snd (reconcile_objs labelled_rpc \<lparr>events = [], env = old_objs\<rparr>) in
   store_desired (\<lambda>_. no_object) labelled_rpc (objs_view (env s'))"
proof -
  have "store_wf labelled_rpc (objs_view (env \<lparr>events = [], env = old_objs\<rparr>))" using old_objs_wf by simp
  from Reconcile_reaches_desired [OF objs.object_store_axioms objs.laws labelled_live objs_run this refl refl refl]
  show ?thesis by (simp add: Let_def)
qed

text \<open>
  Reconciliations converge: a second successful reconciliation of the same pool
  changes no object.
\<close>

lemma Reconcile_converges:
  assumes "object_store r view pools"
    and "retry_law (lib r)" "errors_law (lib r)" "labels_law (lib r)" "finalizer_law (lib r)"
    and "finalizerName \<in> set (Finalizers rpc)" "DeletionTimestamp rpc = None"
    and "run_state (Reconcile r rpc) s = (None, s1)" "store_wf rpc (view (env s))"
    and "run_state (Reconcile r rpc) s1 = (None, s2)"
  shows "view (env s2) = view (env s1)"
proof -
  have lawful: "lawful_store r view pools" using assms(1-5) by (simp add: lawful_store_def lawful_reconciler_def)
  note ref = lawful_store.live_refines [OF lawful assms(6,7)]
  from refinesD [OF ref assms(8) [unfolded Reconcile_eq]] reconcile_store_desired [OF assms(9)]
  have "store_desired pools rpc (view (env s1))" by simp
  from reconcile_store_fixed [OF this] refinesD [OF ref assms(10) [unfolded Reconcile_eq]] show ?thesis by simp
qed

text \<open>
  Property C9. A successful reconciliation of a pool that is being deleted leaves no pool configuration
  and, of the rails in its current specification, no policy, no unused policy and no network. (Rails that
  were taken out of the specification before are not looked at.)
\<close>

theorem Reconcile_deletion_clears:
  assumes "object_store r view pools"
    and "retry_law (lib r)" "errors_law (lib r)" "labels_law (lib r)" "finalizer_law (lib r)"
    and "finalizerName \<in> set (Finalizers rpc)" "DeletionTimestamp rpc \<noteq> None"
    and "run_state (Reconcile r rpc) s = (None, s')" "v' = view (env s')"
  shows "st_pools v' (rpc_Namespace rpc, rpc_Name rpc) = None \<and>
    (\<forall>rt \<in> set (RailTopologies (rpc_Spec rpc)).
       st_policies v' (rpc_Namespace rpc, rt_Name rt) = None \<and>
       st_policies v' (rpc_Namespace rpc, rt_Name rt @ unusedPolicySuffix) = None \<and>
       st_networks v' (rpc_Namespace rpc, rt_Name rt) = None)"
proof -
  have "lawful_store r view pools" using assms(1-5) by (simp add: lawful_store_def lawful_reconciler_def)
  from refinesD [OF lawful_store.deletion_refines [OF this assms(6,7)] assms(8) [unfolded Reconcile_eq]]
  have "v' = clear_store rpc (view (env s))" by (simp add: assms(9))
  then show ?thesis by (simp add: clear_store_empty)
qed

theorem Reconcile_deletion_clears_witness:
  "let rpc = labelled_rpc\<lparr>DeletionTimestamp := Some 3\<rparr>;
       v' = objs_view (env (snd (reconcile_objs rpc \<lparr>events = [], env = old_objs\<rparr>))) in
   st_pools v' (''ns'', ''pool'') = None \<and> st_policies v' (''ns'', ''a'' @ unusedPolicySuffix) = None"
proof -
  let ?rpc = "labelled_rpc\<lparr>DeletionTimestamp := Some 3\<rparr>"
  let ?s' = "snd (reconcile_objs ?rpc \<lparr>events = [], env = old_objs\<rparr>)"
  have run: "reconcile_objs ?rpc \<lparr>events = [], env = old_objs\<rparr> = (None, ?s')"
    by (simp add: prod_eq_iff objs_deletes)
  have "finalizerName \<in> set (Finalizers ?rpc)" "DeletionTimestamp ?rpc \<noteq> None" using labelled_live(1) by simp_all
  from Reconcile_deletion_clears [OF objs.object_store_axioms objs.laws this run refl]
  show ?thesis by (simp add: Let_def labelled_rpc_def demo_rpc_def demo_rail_def)
qed

text \<open>
  Property C34. A rail that shrinks from several PFs to one keeps the policy of the PFs it no longer
  has: after a successful reconciliation an unused policy that was stored for such a rail is still
  stored, unchanged.
\<close>

theorem shrunk_rail_keeps_unused:
  assumes "object_store r view pools"
    and "retry_law (lib r)" "errors_law (lib r)" "labels_law (lib r)" "finalizer_law (lib r)"
    and "finalizerName \<in> set (Finalizers rpc)" "DeletionTimestamp rpc = None"
    and "run_state (Reconcile r rpc) s = (None, s')" "store_wf rpc (view (env s))"
    and "rt \<in> set (RailTopologies (rpc_Spec rpc))" "tl (pf_names rt) = []"
  shows "st_policies (view (env s')) (rpc_Namespace rpc, rt_Name rt @ unusedPolicySuffix) =
    st_policies (view (env s)) (rpc_Namespace rpc, rt_Name rt @ unusedPolicySuffix)"
proof -
  have "lawful_store r view pools" using assms(1-5) by (simp add: lawful_store_def lawful_reconciler_def)
  from refinesD [OF lawful_store.live_refines [OF this assms(6,7)] assms(8) [unfolded Reconcile_eq]]
  show ?thesis by (simp add: reconcile_store_unused [OF assms(9-11)])
qed

theorem shrunk_rail_keeps_unused_witness:
  "let s' = snd (reconcile_objs labelled_rpc \<lparr>events = [], env = old_objs\<rparr>) in
   st_policies (objs_view (env s')) (''ns'', ''a'' @ unusedPolicySuffix) = Some old_unused"
proof -
  have wf: "store_wf labelled_rpc (objs_view (env \<lparr>events = [], env = old_objs\<rparr>))" using old_objs_wf by simp
  have rt: "demo_rail ''a'' [''p0''] \<in> set (RailTopologies (rpc_Spec labelled_rpc))" "tl (pf_names (demo_rail ''a'' [''p0''])) = []"
    and names: "rpc_Namespace labelled_rpc = ''ns''" "rt_Name (demo_rail ''a'' [''p0'']) = ''a''"
    by (simp_all add: labelled_rpc_def demo_rpc_def demo_rail_def)
  from shrunk_rail_keeps_unused [OF objs.object_store_axioms objs.laws labelled_live objs_run wf rt, unfolded names]
  show ?thesis by (simp add: Let_def objs_view_def old_objs_def unusedPolicySuffix_def)
qed

text \<open>
  Property C35. Deletion goes by the rails in the specification and not by the labels: a policy of the pool whose rail was taken
  out of the specification, and not yet removed when the pool is deleted, is still stored after the deletion has succeeded and
  the finalizer is gone.
\<close>

theorem deletion_leaks_removed_rail:
  assumes "object_store r view pools"
    and "retry_law (lib r)" "errors_law (lib r)" "labels_law (lib r)" "finalizer_law (lib r)"
    and "finalizerName \<in> set (Finalizers rpc)" "DeletionTimestamp rpc \<noteq> None"
    and "run_state (Reconcile r rpc) s = (None, s')"
    and "p \<in> owned rpc (view (env s))" "st_policies (view (env s)) (rpc_Namespace rpc, n) = Some p" "n \<notin> policy_names (rail_names rpc)"
  shows "p \<in> owned rpc (view (env s')) \<and> st_policies (view (env s')) (rpc_Namespace rpc, n) = Some p"
proof -
  have "lawful_store r view pools" using assms(1-5) by (simp add: lawful_store_def lawful_reconciler_def)
  from refinesD [OF lawful_store.deletion_refines [OF this assms(6,7)] assms(8) [unfolded Reconcile_eq]]
  have "view (env s') = clear_store rpc (view (env s))" .
  with assms(9-11) show ?thesis by (auto simp: clear_store_def drop_rails_def owned_def matching_def)
qed

theorem deletion_leaks_removed_rail_witness:
  "let rpc = labelled_rpc\<lparr>DeletionTimestamp := Some 3\<rparr>;
       v' = objs_view (env (snd (reconcile_objs rpc \<lparr>events = [], env = old_objs\<rparr>))) in
   st_policies v' (''ns'', ''b'') = Some (old_policy ''b'' [''q0''])"
proof -
  let ?rpc = "labelled_rpc\<lparr>DeletionTimestamp := Some 3\<rparr>"
  let ?s' = "snd (reconcile_objs ?rpc \<lparr>events = [], env = old_objs\<rparr>)"
  have run: "reconcile_objs ?rpc \<lparr>events = [], env = old_objs\<rparr> = (None, ?s')"
    by (simp add: prod_eq_iff objs_deletes)
  have live: "finalizerName \<in> set (Finalizers ?rpc)" "DeletionTimestamp ?rpc \<noteq> None" using labelled_live(1) by simp_all
  have names: "rpc_Namespace ?rpc = ''ns''" "rail_names ?rpc = {''a''}" "rpc_Name ?rpc = ''pool''"
    by (simp_all add: labelled_rpc_def rail_names_def demo_rpc_def demo_rail_def)
  have stored: "st_policies (objs_view (env \<lparr>events = [], env = old_objs\<rparr>)) (rpc_Namespace ?rpc, ''b'') = Some (old_policy ''b'' [''q0''])"
    by (simp add: names objs_view_def old_objs_def)
  moreover have "np_Labels (old_policy ''b'' [''q0'']) labelOwnerName = Some ''pool''"
    by (simp add: old_policy_def primary_policy_def owner_labels_def demo_rpc_def demo_rail_def Let_def
        labelOwnerName_def labelRailTopologyName_def labelMultiplane_def)
  ultimately have own: "old_policy ''b'' [''q0''] \<in> owned ?rpc (objs_view (env \<lparr>events = [], env = old_objs\<rparr>))"
    unfolding owned_def matching_def names by (auto simp: map_le_def)
  have "''b'' \<notin> policy_names (rail_names ?rpc)" by (simp add: names policy_names_def unusedPolicySuffix_def)
  from deletion_leaks_removed_rail [OF objs.object_store_axioms objs.laws live run own stored this]
  show ?thesis by (simp add: Let_def names)
qed

end
