(* ===== verification/Status_Protocol.thy ===== *)
theory Status_Protocol
  imports Status
begin

text \<open>
  Several agents, one per node, report into the status of the same custom resource. This theory
  models the object on the API server as the sequence of its versions, with a step for every way
  in which it changes: the accepted status patch of an agent, and an edit of the specification by
  a user. Beside it the nodes of the cluster change: they are added, removed and relabelled at any
  time, and an agent lists them from a cache, so it may see what was selected some time ago. A patch carries the resource version it is based on (\<open>MergeFromWithOptimisticLock\<close>) and
  is accepted only if this is still the current one; what an agent reads may be any earlier
  version, since it reads from a cache. The contract of such a server is a locale; inside it,
  every run of \<open>patchSyncStatusWithMessage\<close>, interleaved in any way with what other agents do, is a
  sequence of these steps.
\<close>

section \<open>The object on the server\<close>

text \<open>
  \<open>history\<close> has the newest version first; \<open>accepted\<close> is what each node's agent last got accepted.
  \<open>memberships\<close>, again the newest first, says which names of nodes each selector selected, now and at
  every earlier time.
\<close>

type_synonym membership = "labels \<Rightarrow> string set"

record cluster =
  history :: "SpectrumXRailPoolConfig list"
  accepted :: "string \<Rightarrow> NodeState option"
  memberships :: "membership list"

abbreviation current :: "cluster \<Rightarrow> SpectrumXRailPoolConfig" where
  "current c \<equiv> hd (history c)"

abbreviation versions :: "cluster \<Rightarrow> string list" where
  "versions c \<equiv> map rpc_ResourceVersion (history c)"

text \<open>The server's object after the status of \<open>u\<close> was merged into it by the agent of node \<open>n\<close>.\<close>

definition merge_status :: "SpectrumXRailPoolConfig \<Rightarrow> SpectrumXRailPoolConfig \<Rightarrow> string \<Rightarrow> SpectrumXRailPoolConfig" where
  "merge_status cur u v = cur\<lparr>rpc_Status := rpc_Status u, rpc_ResourceVersion := v\<rparr>"

definition publish :: "string \<Rightarrow> SpectrumXRailPoolConfig \<Rightarrow> string \<Rightarrow> cluster \<Rightarrow> cluster" where
  "publish n u v c = c\<lparr>history := merge_status (current c) u v # history c,
     accepted := (accepted c)(n := node_state (NodeStates (rpc_Status u)) n)\<rparr>"

definition edit_spec :: "SpectrumXRailPoolConfigSpec \<Rightarrow> string \<Rightarrow> cluster \<Rightarrow> cluster" where
  "edit_spec spec v c = c\<lparr>history := (current c)\<lparr>rpc_Spec := spec, Generation := Generation (current c) + 1,
     rpc_ResourceVersion := v\<rparr> # history c\<rparr>"

text \<open>Nodes are added, removed or relabelled: from now on the selectors select as \<open>M\<close> says.\<close>

definition relabel :: "membership \<Rightarrow> cluster \<Rightarrow> cluster" where
  "relabel M c = c\<lparr>memberships := M # memberships c\<rparr>"

text \<open>A list of nodes that a selector may have given at some time up to now.\<close>

definition selected_once :: "labels \<Rightarrow> Node list \<Rightarrow> cluster \<Rightarrow> bool" where
  "selected_once sel nodes c \<longleftrightarrow> (\<exists>M \<in> set (memberships c). node_Name ` set nodes = M sel)"

inductive server_step :: "cluster \<Rightarrow> cluster \<Rightarrow> bool" where
  report: "latest \<in> set (history c) \<Longrightarrow> rpc_ResourceVersion latest = rpc_ResourceVersion (current c) \<Longrightarrow>
     selected_once (NodeSelector (rpc_Spec latest)) nodes c \<Longrightarrow>
     v \<notin> set (versions c) \<Longrightarrow> server_step c (publish n (status_update latest n st msg nodes) v c)"
| edit: "v \<notin> set (versions c) \<Longrightarrow> server_step c (edit_spec spec v c)"
| nodes_change: "server_step c (relabel M c)"

inductive_cases server_stepE: "server_step c c'"

abbreviation reach :: "cluster \<Rightarrow> cluster \<Rightarrow> bool" where
  "reach \<equiv> server_step\<^sup>*\<^sup>*"

text \<open>A resource that was just created: one version, nobody has reported; the cluster may be older.\<close>

definition fresh :: "SpectrumXRailPoolConfig \<Rightarrow> membership list \<Rightarrow> cluster" where
  "fresh rpc Ms = \<lparr>history = [rpc], accepted = (\<lambda>_. None), memberships = Ms\<rparr>"

section \<open>Invariant\<close>

text \<open>
  One entry per node, which is what that node's agent last got accepted; and when the status is
  for the current generation, the overall state is the specification applied to these entries and
  to the nodes that the selector selected now or at some earlier time.
\<close>

definition cluster_inv :: "cluster \<Rightarrow> bool" where
  "cluster_inv c \<longleftrightarrow> history c \<noteq> [] \<and> distinct (versions c) \<and>
     unique_names (NodeStates (rpc_Status (current c))) \<and>
     node_state (NodeStates (rpc_Status (current c))) = accepted c \<and>
     ObservedGeneration (rpc_Status (current c)) \<le> Generation (current c) \<and>
     (ObservedGeneration (rpc_Status (current c)) = Generation (current c) \<longrightarrow>
        (\<exists>M \<in> set (memberships c). SyncStatus (rpc_Status (current c)) =
          sync_spec (Generation (current c)) (accepted c) (M (NodeSelector (rpc_Spec (current c))))))"

definition unreported :: "SpectrumXRailPoolConfig \<Rightarrow> bool" where
  "unreported rpc \<longleftrightarrow> NodeStates (rpc_Status rpc) = [] \<and> ObservedGeneration (rpc_Status rpc) < Generation rpc"

lemma cluster_inv_fresh: "unreported rpc \<Longrightarrow> cluster_inv (fresh rpc Ms)"
  by (auto simp: cluster_inv_def fresh_def unique_names_def unreported_def)

text \<open>With distinct versions, an accepted patch is based on the current object itself.\<close>

lemma version_current:
  assumes "distinct (versions c)" "latest \<in> set (history c)" "rpc_ResourceVersion latest = rpc_ResourceVersion (current c)"
  shows "latest = current c"
proof -
  have "current c \<in> set (history c)" using assms(2) by (cases "history c") auto
  with assms show ?thesis by (auto simp: distinct_map dest: inj_onD)
qed

lemma inv_report:
  assumes "cluster_inv c" "latest = current c" "v \<notin> set (versions c)"
    and "selected_once (NodeSelector (rpc_Spec latest)) nodes c"
  shows "cluster_inv (publish n (status_update latest n st msg nodes) v c)"
proof -
  let ?u = "status_update latest n st msg nodes"
  obtain M where M: "M \<in> set (memberships c)" "node_Name ` set nodes = M (NodeSelector (rpc_Spec latest))"
    using assms(4) by (auto simp: selected_once_def)
  have u: "unique_names (NodeStates (rpc_Status ?u))"
    using assms(1,2) by (simp add: cluster_inv_def nstates.unique_put)
  have acc: "node_state (NodeStates (rpc_Status ?u)) =
      (accepted c)(n := node_state (NodeStates (rpc_Status ?u)) n)"
    using assms(1,2) by (auto simp: cluster_inv_def nstates.lookup_put_other)
  have "SyncStatus (rpc_Status ?u) = sync_spec (Generation latest) (node_state (NodeStates (rpc_Status ?u)))
      (M (NodeSelector (rpc_Spec latest)))"
    using aggregate_unique [OF u, of nodes] status_update_aggregate [of latest n st msg nodes] M(2) by simp
  with acc have sync: "SyncStatus (rpc_Status ?u) = sync_spec (Generation latest)
      ((accepted c)(n := node_state (NodeStates (rpc_Status ?u)) n)) (M (NodeSelector (rpc_Spec latest)))"
    by simp
  show ?thesis
    using assms(1-3) u acc sync unfolding cluster_inv_def publish_def merge_status_def by (auto intro!: bexI [OF _ M(1)])
qed

lemma inv_edit: "cluster_inv c \<Longrightarrow> v \<notin> set (versions c) \<Longrightarrow> cluster_inv (edit_spec spec v c)"
  by (auto simp: cluster_inv_def edit_spec_def)

lemma inv_relabel: "cluster_inv c \<Longrightarrow> cluster_inv (relabel M c)"
  by (auto simp: cluster_inv_def relabel_def)

lemma server_step_inv: "server_step c c' \<Longrightarrow> cluster_inv c \<Longrightarrow> cluster_inv c'"
proof (induction rule: server_step.induct)
  case (report latest c nodes v n st msg)
  then have "latest = current c" by (intro version_current) (auto simp: cluster_inv_def)
  with report show ?case by (intro inv_report)
qed (auto intro: inv_edit inv_relabel)

lemma reach_inv: "reach c c' \<Longrightarrow> cluster_inv c \<Longrightarrow> cluster_inv c'"
  by (induction rule: rtranclp_induct) (auto intro: server_step_inv)

lemma server_step_history: "server_step c c' \<Longrightarrow> set (history c) \<subseteq> set (history c')"
  by (erule server_stepE) (auto simp: publish_def edit_spec_def relabel_def)

lemma reach_history: "reach c c' \<Longrightarrow> set (history c) \<subseteq> set (history c')"
  by (induction rule: rtranclp_induct) (auto dest: server_step_history)

lemma server_step_memberships: "server_step c c' \<Longrightarrow> set (memberships c) \<subseteq> set (memberships c')"
  by (erule server_stepE) (auto simp: publish_def edit_spec_def relabel_def)

lemma reach_memberships: "reach c c' \<Longrightarrow> set (memberships c) \<subseteq> set (memberships c')"
  by (induction rule: rtranclp_induct) (auto dest: server_step_memberships)

lemma reach_selected: "reach c c' \<Longrightarrow> selected_once sel nodes c \<Longrightarrow> selected_once sel nodes c'"
  using reach_memberships by (fastforce simp: selected_once_def)

section \<open>The contract of the server\<close>

text \<open>
  Between any two calls of the agent, and during a call, others may change the object and the nodes
  (\<open>reach\<close>). A read returns some version of the object, and a list of nodes what the selector selected
  at some time up to then. A status patch that is accepted was based on the version that
  was current at that moment; the server merges the status and gives the result a new version.
\<close>

locale status_server =
  fixes cl :: "'w Client"
    and view :: "'w \<Rightarrow> cluster"
    and agent :: string
    and key :: nsname
  assumes get_reach: "get_RailPoolConfig cl key w = (got, w') \<Longrightarrow> reach (view w) (view w')"
    and get_version: "get_RailPoolConfig cl key w = (Inr latest, w') \<Longrightarrow> latest \<in> set (history (view w'))"
    and list_reach: "list_Nodes cl sel w = (listed, w') \<Longrightarrow> reach (view w) (view w')"
    and list_selected: "list_Nodes cl sel w = (Inr nodes, w') \<Longrightarrow> selected_once sel nodes (view w')"
    and patch_refused: "patch_status cl base u w = (Inl e, w') \<Longrightarrow> reach (view w) (view w')"
    and patch_accepted: "patch_status cl base u w = (Inr server, w') \<Longrightarrow> base \<in> set (history (view w)) \<Longrightarrow>
      \<exists>c1 v. reach (view w) c1 \<and> rpc_ResourceVersion base = rpc_ResourceVersion (current c1) \<and>
        v \<notin> set (versions c1) \<and> reach (publish agent u v c1) (view w')"
begin

lemma aggregate_reach:
  assumes "kube r = cl" "run_state (aggregateSyncStatus r rpc) s = (a, s')"
  shows "reach (view (env s)) (view (env s')) \<and> (\<forall>x. a = Inr x \<longrightarrow> (\<exists>nodes.
    selected_once (NodeSelector (rpc_Spec rpc)) nodes (view (env s')) \<and> x = aggregate rpc nodes))"
proof -
  obtain nodes w' where l: "list_Nodes cl (NodeSelector (rpc_Spec rpc)) (env s) = (nodes, w')" by fastforce
  show ?thesis
  proof (cases nodes)
    case (Inl e)
    with l assms list_reach [OF l] show ?thesis by (auto simp: aggregateSyncStatus_def)
  next
    case (Inr ns)
    with l list_selected have "selected_once (NodeSelector (rpc_Spec rpc)) ns (view w')" by blast
    with l Inr assms list_reach [OF l] show ?thesis by (auto simp: aggregateSyncStatus_def)
  qed
qed

lemma patch_reach:
  assumes "run_state (status_call cl latest (status_update latest agent st msg nodes)) s = (res, s')"
    and "latest \<in> set (history (view (env s)))"
    and "selected_once (NodeSelector (rpc_Spec latest)) nodes (view (env s))"
  shows "reach (view (env s)) (view (env s'))"
proof -
  let ?u = "status_update latest agent st msg nodes"
  have p: "patch_status cl latest ?u (env s) = (res, env s')"
    using assms(1) by (auto simp: status_call_def prod_eq_iff)
  show ?thesis
  proof (cases res)
    case (Inl e)
    with p patch_refused show ?thesis by blast
  next
    case (Inr server)
    with patch_accepted [OF _ assms(2)] p obtain c1 v where c1: "reach (view (env s)) c1"
      "rpc_ResourceVersion latest = rpc_ResourceVersion (current c1)" "v \<notin> set (versions c1)"
      "reach (publish agent ?u v c1) (view (env s'))" by blast
    have "latest \<in> set (history c1)" using reach_history [OF c1(1)] assms(2) by blast
    with c1 reach_selected [OF c1(1) assms(3)] have "server_step c1 (publish agent ?u v c1)" by (intro server_step.report)
    with c1 show ?thesis by (meson rtranclp_trans r_into_rtranclp)
  qed
qed

text \<open>One attempt: at most one report step of the own node, between steps of others.\<close>

lemma attempt_reach:
  assumes "kube r = cl" "nodeName r = agent" "(rpc_Namespace rpc, rpc_Name rpc) = key"
  shows "reach (view (env s)) (view (env (snd (run_state (sync_attempt r gen newState message rpc) s))))"
proof -
  obtain got w1 where g: "get_RailPoolConfig cl key (env s) = (got, w1)" by fastforce
  define s1 where "s1 = s\<lparr>env := w1\<rparr>"
  have r1: "reach (view (env s)) (view (env s1))" using get_reach [OF g] by (simp add: s1_def)
  show ?thesis
  proof (cases "\<exists>latest. got = Inr latest \<and> Generation latest = gen")
    case False
    then show ?thesis using r1 g assms by (cases got) (auto simp: sync_attempt_def s1_def)
  next
    case True
    then obtain latest where got: "got = Inr latest" "Generation latest = gen" by blast
    have old: "latest \<in> set (history (view (env s1)))" using get_version g got(1) by (simp add: s1_def)
    obtain a1 s2 where a1: "run_state (aggregateSyncStatus r latest) s1 = (a1, s2)" by fastforce
    note r2 = aggregate_reach [OF assms(1) a1]
    show ?thesis
    proof (cases "\<exists>agg. a1 = Inr agg \<and> \<not> status_unchanged latest agent newState message gen agg")
      case False
      then show ?thesis using r1 r2 g got a1 assms
        by (cases a1) (auto simp: sync_attempt_def s1_def intro: rtranclp_trans)
    next
      case True
      then obtain agg where agg: "a1 = Inr agg" "\<not> status_unchanged latest agent newState message gen agg" by blast
      let ?n = "with_node_state latest agent newState message gen"
      obtain a2 s3 where a2: "run_state (aggregateSyncStatus r ?n) s2 = (a2, s3)" by fastforce
      note r3 = aggregate_reach [OF assms(1) a2]
      have r13: "reach (view (env s)) (view (env s3))" using r1 r2 r3 by (meson rtranclp_trans)
      show ?thesis
      proof (cases a2)
        case (Inl e)
        then show ?thesis using r13 g got a1 agg a2 assms by (auto simp: sync_attempt_def s1_def)
      next
        case (Inr agg')
        with r3 obtain nodes where nodes: "agg' = aggregate ?n nodes"
          "selected_once (NodeSelector (rpc_Spec latest)) nodes (view (env s3))" by auto
        from nodes(1) have u: "with_sync_status ?n agg' gen = status_update latest agent newState message nodes"
          by (simp add: status_update_def Let_def got(2))
        obtain res s4 where p: "run_state (status_call cl latest (with_sync_status ?n agg' gen)) s3 = (res, s4)"
          by fastforce
        have "latest \<in> set (history (view (env s3)))"
          using old r2 r3 reach_history by (meson rtranclp_trans subsetD)
        with patch_reach [OF p [unfolded u] _ nodes(2)] r13 have "reach (view (env s)) (view (env s4))"
          by (meson rtranclp_trans)
        then show ?thesis using g got a1 agg a2 Inr p assms
          by (cases res) (auto simp: sync_attempt_def s1_def)
      qed
    qed
  qed
qed

lemma retry_reach:
  assumes "kube r = cl" "nodeName r = agent" "(rpc_Namespace rpc, rpc_Name rpc) = key"
  shows "reach (view (env s))
    (view (env (snd (run_state (retry_loop conflict n (sync_attempt r gen newState message) rpc) s))))"
  using assms(3)
proof (induction n arbitrary: rpc s)
  case 0
  then show ?case using attempt_reach [OF assms(1,2)] by simp
next
  case (Suc n)
  obtain err y s' where run: "run_state (sync_attempt r gen newState message rpc) s = ((err, y), s')"
    by (metis surj_pair)
  with trace_sync_attempt_object [of r gen newState message rpc] have "same_but_status rpc y"
    by (auto simp: trace_spec_def)
  then have "(rpc_Namespace y, rpc_Name y) = key" using Suc.prems same_but_status_simps by metis
  then have "reach (view (env s'))
      (view (env (snd (run_state (retry_loop conflict n (sync_attempt r gen newState message) y) s'))))"
    by (rule Suc.IH)
  moreover have "reach (view (env s)) (view (env s'))"
    using attempt_reach [OF assms(1,2) Suc.prems, of s gen newState message] run by simp
  ultimately show ?case using run by (auto split: option.splits intro: rtranclp_trans)
qed

lemma patchSyncStatus_reach:
  assumes "kube r = cl" "nodeName r = agent" "(rpc_Namespace rpc, rpc_Name rpc) = key" "retry_law (lib r)"
  shows "reach (view (env s)) (view (env (snd (run_state (patchSyncStatusWithMessage r rpc newState message) s))))"
  using retry_reach [OF assms(1-3)] assms(4) by (auto simp: patchSyncStatusWithMessage_def retry_law_def)

end

section \<open>A server that keeps the contract\<close>

text \<open>It answers reads with the current version, lists the same nodes as long as they were ever selected, and refuses a patch that is based on an older one.\<close>

definition new_version :: "cluster \<Rightarrow> string" where
  "new_version c = concat (versions c) @ ''+''"

lemma new_version_fresh: "new_version c \<notin> set (versions c)"
proof
  assume "new_version c \<in> set (versions c)"
  then have "length (new_version c) \<le> length (concat (versions c))"
    by (auto simp: length_concat intro!: member_le_sum_list)
  then show False by (simp add: new_version_def)
qed

definition server_client :: "string \<Rightarrow> Node list \<Rightarrow> cluster Client" where
  "server_client agent nodes = (demo_client (demo_rpc [] []) [])\<lparr>
     get_RailPoolConfig := (\<lambda>k c. (if history c = [] then no_object else Inr (current c), c)),
     list_Nodes := (\<lambda>sel c. (if selected_once sel nodes c then Inr nodes else no_object, c)),
     patch_status := (\<lambda>base u c.
       if history c \<noteq> [] \<and> rpc_ResourceVersion base = rpc_ResourceVersion (current c)
       then (Inr (merge_status (current c) u (new_version c)), publish agent u (new_version c) c)
       else (Inl (External ''Conflict'' ''the object has been modified''), c))\<rparr>"

interpretation simserver: status_server "server_client agent nodes" "\<lambda>c. c" agent key
  for agent nodes key
proof unfold_locales
  fix base u server and w w' :: cluster
  assume "patch_status (server_client agent nodes) base u w = (Inr server, w')"
  then have "rpc_ResourceVersion base = rpc_ResourceVersion (current w)" "w' = publish agent u (new_version w) w"
    by (auto simp: server_client_def split: if_splits)
  then show "\<exists>c1 v. reach w c1 \<and> rpc_ResourceVersion base = rpc_ResourceVersion (current c1) \<and>
      v \<notin> set (versions c1) \<and> reach (publish agent u v c1) w'"
    using new_version_fresh by blast
qed (auto simp: server_client_def no_object_def split: if_splits)

section \<open>Properties\<close>

text \<open>
  Property C2. Reports of different nodes never overwrite each other. Whatever agents and users
  did to the resource since it was created, and however the run of \<open>patchSyncStatusWithMessage\<close>
  is interleaved with others doing the same, afterwards the entry of every node in the current
  object is the one that this node's agent last got accepted, and there is one entry per node.
\<close>

theorem status_reports_not_lost:
  assumes "status_server (kube r) view (nodeName r) (rpc_Namespace rpc, rpc_Name rpc)"
    and "retry_law (lib r)" and "unreported rpc0" and "reach (fresh rpc0 Ms) (view (env s))"
    and "c = view (env (snd (run_state (patchSyncStatusWithMessage r rpc newState message) s)))"
  shows "reach (fresh rpc0 Ms) c \<and> unique_names (NodeStates (rpc_Status (current c))) \<and>
    (\<forall>n. node_state (NodeStates (rpc_Status (current c))) n = accepted c n)"
proof -
  have "reach (fresh rpc0 Ms) c"
    using assms(4) status_server.patchSyncStatus_reach [OF assms(1) refl refl refl assms(2)]
    unfolding assms(5) by (rule rtranclp_trans)
  with reach_inv [OF _ cluster_inv_fresh [OF assms(3)]] show ?thesis by (auto simp: cluster_inv_def)
qed

text \<open>
  Property C1. The overall status can be trusted, while nodes come, go and are relabelled and every agent
  lists them from a cache. In every state that is reached, if the status is marked as being for the current
  generation, then the overall state is the specification applied to what the agents last got accepted and
  to the nodes that the selector of the current specification selects or selected at some time. So
  \<open>Succeeded\<close> means that every node selected at that time has reported success for this generation, and
  \<open>Failed\<close> that some node selected then has failed. If the selector has selected the same nodes all the
  time, the overall state is exact. What is not promised is that the overall state follows a change of the
  selected nodes at once: it is computed anew only with the next report.
\<close>

theorem overall_status_trustworthy:
  assumes "status_server (kube r) view (nodeName r) (rpc_Namespace rpc, rpc_Name rpc)"
    and "retry_law (lib r)" and "unreported rpc0" and "reach (fresh rpc0 Ms) (view (env s))"
    and "c = view (env (snd (run_state (patchSyncStatusWithMessage r rpc newState message) s)))"
    and "ObservedGeneration (rpc_Status (current c)) = Generation (current c)"
  shows "(\<exists>M \<in> set (memberships c). SyncStatus (rpc_Status (current c)) =
      sync_spec (Generation (current c)) (accepted c) (M (NodeSelector (rpc_Spec (current c))))) \<and>
    (\<forall>S. (\<forall>M \<in> set (memberships c). M (NodeSelector (rpc_Spec (current c))) = S) \<longrightarrow>
      SyncStatus (rpc_Status (current c)) = sync_spec (Generation (current c)) (accepted c) S)"
proof -
  have "reach (fresh rpc0 Ms) c"
    using assms(4) status_server.patchSyncStatus_reach [OF assms(1) refl refl refl assms(2)]
    unfolding assms(5) by (rule rtranclp_trans)
  with reach_inv [OF _ cluster_inv_fresh [OF assms(3)]] assms(6) show ?thesis by (fastforce simp: cluster_inv_def)
qed

text \<open>A reconciler on the node named \<open>node\<close>, with the server above and one selected node.\<close>

definition quiet_os :: "'w Os" where
  "quiet_os = \<lparr>os_do = (\<lambda>_ w. (None, w)), os_ReadFile = (\<lambda>_ w. (Inr [], w))\<rparr>"

abbreviation server_agent :: "cluster HostReconciler" where
  "server_agent \<equiv> demo_reconciler (server_client ''node'' [demo_node ''node'']) all_ok_shell quiet_os"

definition one_node :: cluster where
  "one_node = fresh (demo_rpc [] []) [\<lambda>_. {''node''}]"

abbreviation new_resource :: "cluster world" where
  "new_resource \<equiv> \<lparr>events = [], env = one_node\<rparr>"

lemma server_agent_facts:
  "status_server (kube server_agent) (\<lambda>c. c) (nodeName server_agent) (''ns'', ''pool'')"
  "retry_law (lib server_agent)" "unreported (demo_rpc [] [])"
  "rpc_Namespace (demo_rpc [] []) = ''ns''" "rpc_Name (demo_rpc [] []) = ''pool''"
  using simserver.status_server_axioms [of "''node''" "[demo_node ''node'']" "(''ns'', ''pool'')"]
  by (simp_all add: demo_defs unreported_def)

theorem status_reports_not_lost_witness:
  "let c = env (snd (run_state (patchSyncStatusWithMessage server_agent (demo_rpc [] []) SyncStatusSucceeded []) new_resource))
   in \<forall>n. node_state (NodeStates (rpc_Status (current c))) n = accepted c n"
  using status_reports_not_lost [of server_agent "\<lambda>c. c" "demo_rpc [] []" "demo_rpc [] []" "[\<lambda>_. {''node''}]" new_resource,
      OF _ _ _ _ refl] server_agent_facts
  by (simp add: Let_def one_node_def)

lemma server_agent_reports:
  "env (snd (run_state (patchSyncStatusWithMessage server_agent (demo_rpc [] []) SyncStatusSucceeded []) new_resource)) =
   publish ''node'' (status_update (demo_rpc [] []) ''node'' SyncStatusSucceeded [] [demo_node ''node''])
     (new_version one_node) one_node"
proof -
  have l: "list_Nodes (kube server_agent) (NodeSelector (rpc_Spec (demo_rpc [] []))) one_node = (Inr [demo_node ''node''], one_node)"
    by (simp add: demo_reconciler_def server_client_def one_node_def fresh_def selected_once_def demo_node_def)
  then have "attempt_reads server_agent (demo_rpc [] []) (env new_resource) (demo_rpc [] []) [demo_node ''node''] one_node"
    by (simp add: attempt_reads_def) (simp add: demo_reconciler_def server_client_def one_node_def fresh_def)
  moreover have "\<not> status_unchanged (demo_rpc [] []) (nodeName server_agent) SyncStatusSucceeded [] (Generation (demo_rpc [] []))
      (aggregate (demo_rpc [] []) [demo_node ''node''])"
    by (simp add: status_unchanged_def demo_rpc_def)
  moreover have "patch_status (kube server_agent) (demo_rpc [] []) u one_node =
      (Inr (merge_status (demo_rpc [] []) u (new_version one_node)), publish ''node'' u (new_version one_node) one_node)" for u
    by (simp add: demo_reconciler_def server_client_def one_node_def fresh_def)
  ultimately show ?thesis
    using patch_settled [OF server_agent_facts(2) sync_attempt_patches [OF _ _ l refl]]
    by (simp add: demo_reconciler_def)
qed

theorem overall_status_trustworthy_witness:
  "let c = env (snd (run_state (patchSyncStatusWithMessage server_agent (demo_rpc [] []) SyncStatusSucceeded []) new_resource))
   in SyncStatus (rpc_Status (current c)) = sync_spec 1 (accepted c) {''node''}"
proof -
  let ?c = "env (snd (run_state (patchSyncStatusWithMessage server_agent (demo_rpc [] []) SyncStatusSucceeded []) new_resource))"
  have g: "Generation (current ?c) = 1" "ObservedGeneration (rpc_Status (current ?c)) = 1"
    and m: "memberships ?c = [\<lambda>_. {''node''}]"
    unfolding server_agent_reports by (simp_all add: publish_def merge_status_def one_node_def fresh_def demo_rpc_def)
  have "reach (fresh (demo_rpc [] []) [\<lambda>_. {''node''}]) (env new_resource)" by (simp add: one_node_def)
  with overall_status_trustworthy [of server_agent "\<lambda>c. c" "demo_rpc [] []" "demo_rpc [] []" "[\<lambda>_. {''node''}]" new_resource,
      OF _ _ _ _ refl, of SyncStatusSucceeded "[]"] server_agent_facts g m
  show ?thesis by (simp add: Let_def)
qed

end
