(* ===== verification/Status_Retry.thy ===== *)
theory Status_Retry
  imports Status
begin

text \<open>
  The retries of a status report. \<open>patchSyncStatusWithMessage\<close> runs under \<open>retry.RetryOnConflict\<close>:
  here it is shown how many patches a report can take, and that it gets through when there are not
  more conflicts with other writers than repetitions.
\<close>

section \<open>How often is patched\<close>

fun is_status :: "event \<Rightarrow> bool" where
  "is_status (Api (PatchStatus u) err) = True"
| "is_status e = False"

lemma attempt_count: "trace_spec (sync_attempt r gen st msg rpc) (\<lambda>x es. length es \<le> 1)"
  unfolding sync_attempt_def
  by (intro trace_bindI [OF trace_observe] trace_bindI [OF trace_aggregate] trace_bindI [OF trace_status_call]
      trace_case_sum trace_if trace_returnI) simp_all

lemma retry_count:
  assumes "\<And>x. trace_spec (fn x) (\<lambda>y es. length es \<le> 1)"
  shows "trace_spec (retry_loop conf n fn x) (\<lambda>y es. length es \<le> n + 1)"
proof (induction n arbitrary: x)
  case 0
  show ?case using assms by simp
next
  case (Suc n)
  show ?case
    unfolding retry_loop.simps
    by (intro trace_bindI [OF assms] trace_case_prod trace_case_option trace_if trace_returnI trace_spec_weaken [OF Suc]) auto
qed

text \<open>
  Property C22. A status report ends: with a back-off of \<open>n\<close> repetitions it sends at most \<open>n + 1\<close> patches
  and has no other effect, whatever the API server answers.
\<close>

theorem status_report_bounded:
  assumes "\<forall>fn. RetryOnConflict (lib r) fn = retry_loop (IsConflict (lib r)) n fn"
  shows "trace_spec (patchSyncStatusWithMessage r rpc st msg)
    (\<lambda>x es. length es \<le> n + 1 \<and> (\<forall>e \<in> set es. is_status e))"
proof -
  have law: "retry_law (lib r)" using assms by (auto simp: retry_law_def)
  have "emits is_status (patchSyncStatusWithMessage r rpc st msg)"
    by (rule emits_mono [OF patchSyncStatus_emits [OF law]]) (auto simp: status_write_def)
  moreover have "trace_spec (patchSyncStatusWithMessage r rpc st msg) (\<lambda>x es. length es \<le> n + 1)"
    unfolding patchSyncStatusWithMessage_def assms [rule_format] by (rule retry_count [OF attempt_count])
  ultimately show ?thesis unfolding emits_def by (intro trace_spec_conj)
qed

theorem status_report_bounded_witness:
  "trace_spec (patchSyncStatusWithMessage (demo (demo_rpc [] [])) (demo_rpc [] []) SyncStatusFailed ''m'')
     (\<lambda>x es. length es \<le> 5 \<and> (\<forall>e \<in> set es. is_status e))"
proof -
  have "\<forall>fn. RetryOnConflict (lib (demo (demo_rpc [] []))) fn = retry_loop (IsConflict (lib (demo (demo_rpc [] [])))) 4 fn"
    by (simp add: demo_reconciler_def demo_lib_def)
  from status_report_bounded [OF this] show ?thesis by simp
qed

section \<open>Getting through\<close>

text \<open>
  An API server on which the agent competes with other writers of the same object. \<open>version\<close> is the
  resource version of the object on the server and \<open>budget\<close> bounds the writes that others will still make
  and the reads that the cache will still answer with an older version. Whether a patch is accepted
  depends on the version it is based on: a patch based on another version than the server's is answered
  with a conflict, and one based on the server's version is accepted unless another write gets in first.
  Assumed are the good reads: they succeed, and the pool stays at the generation that is reconciled.
\<close>

locale contended_server =
  fixes r :: "'w HostReconciler" and key :: nsname and gen :: int
    and version :: "'w \<Rightarrow> string" and budget :: "'w \<Rightarrow> nat"
  assumes read_pool: "\<exists>latest w'. get_RailPoolConfig (kube r) key w = (Inr latest, w') \<and> Generation latest = gen \<and>
      (rpc_ResourceVersion latest = version w' \<and> budget w' \<le> budget w \<or> budget w' < budget w)"
    and read_nodes: "\<exists>nodes w'. list_Nodes (kube r) sel w = (Inr nodes, w') \<and>
      (version w' = version w \<and> budget w' \<le> budget w \<or> budget w' < budget w)"
    and patch_current: "patch_status (kube r) base u w = (res, w') \<Longrightarrow> rpc_ResourceVersion base = version w \<Longrightarrow>
      (\<exists>server. res = Inr server) \<or> (\<exists>e. res = Inl e \<and> IsConflict (lib r) e \<and> budget w' < budget w)"
    and patch_outdated: "patch_status (kube r) base u w = (res, w') \<Longrightarrow> rpc_ResourceVersion base \<noteq> version w \<Longrightarrow>
      \<exists>e. res = Inl e \<and> IsConflict (lib r) e \<and> budget w' \<le> budget w"
begin

text \<open>A patch whose base was read when \<open>b\<close> writes were to come is accepted, or at least one of them happened.\<close>

lemma patch_progress:
  assumes "patch_status (kube r) base u w = (res, w')"
    and "rpc_ResourceVersion base = version w \<and> budget w \<le> b \<or> budget w < b"
  shows "(\<exists>server. res = Inr server) \<or> (\<exists>e. res = Inl e \<and> IsConflict (lib r) e \<and> budget w' < b)"
proof (cases "rpc_ResourceVersion base = version w")
  case True
  with patch_current [OF assms(1)] assms(2) show ?thesis by fastforce
next
  case False
  with patch_outdated [OF assms(1)] assms(2) show ?thesis by fastforce
qed

lemma attempt_progress:
  assumes "key = (rpc_Namespace rpc, rpc_Name rpc)"
  shows "\<exists>err x s'. run_state (sync_attempt r gen st msg rpc) s = ((err, x), s') \<and>
    (err = None \<or> (\<exists>e. err = Some e \<and> IsConflict (lib r) e) \<and> x = rpc \<and> budget (env s') < budget (env s))"
proof -
  obtain latest w1 where get: "get_RailPoolConfig (kube r) key (env s) = (Inr latest, w1)" "Generation latest = gen"
    and v1: "rpc_ResourceVersion latest = version w1 \<and> budget w1 \<le> budget (env s) \<or> budget w1 < budget (env s)"
    using read_pool by blast
  obtain nodes w2 where n1: "list_Nodes (kube r) (NodeSelector (rpc_Spec latest)) w1 = (Inr nodes, w2)"
    and v2: "version w2 = version w1 \<and> budget w2 \<le> budget w1 \<or> budget w2 < budget w1"
    using read_nodes by blast
  show ?thesis
  proof (cases "status_unchanged latest (nodeName r) st msg gen (aggregate latest nodes)")
    case True
    then show ?thesis using get n1 assms by (simp add: sync_attempt_def run_aggregate)
  next
    case False
    let ?l = "with_node_state latest (nodeName r) st msg gen"
    obtain nodes2 w3 where n2: "list_Nodes (kube r) (NodeSelector (rpc_Spec ?l)) w2 = (Inr nodes2, w3)"
      and v3: "version w3 = version w2 \<and> budget w3 \<le> budget w2 \<or> budget w3 < budget w2"
      using read_nodes by blast
    let ?u = "with_sync_status ?l (aggregate ?l nodes2) gen"
    obtain res w4 where res: "patch_status (kube r) latest ?u w3 = (res, w4)" by fastforce
    have run: "run_state (sync_attempt r gen st msg rpc) s =
        (case res of Inl e \<Rightarrow> (Some e, rpc) | Inr server \<Rightarrow> (None, rpc\<lparr>rpc_Status := rpc_Status server\<rparr>),
         s\<lparr>env := w4, events := events s @ [Api (PatchStatus ?u) (error_of res)]\<rparr>)"
      using get n1(1) n2(1) res assms False
      by (simp add: sync_attempt_def run_aggregate status_call_def split: sum.splits)
    from v1 v2 v3 have "rpc_ResourceVersion latest = version w3 \<and> budget w3 \<le> budget (env s) \<or> budget w3 < budget (env s)"
      by (elim disjE conjE) simp_all
    with patch_progress [OF res] run show ?thesis by fastforce
  qed
qed

lemma retry_gets_through:
  assumes "key = (rpc_Namespace rpc, rpc_Name rpc)"
  shows "budget (env s) \<le> n \<Longrightarrow>
    fst (fst (run_state (retry_loop (IsConflict (lib r)) n (sync_attempt r gen st msg) rpc) s)) = None"
proof (induction n arbitrary: s)
  case 0
  from attempt_progress [OF assms, of st msg s] 0 show ?case by auto
next
  case (Suc n)
  from attempt_progress [OF assms, of st msg s] obtain err x s' where
    run: "run_state (sync_attempt r gen st msg rpc) s = ((err, x), s')" and
    prog: "err = None \<or> (\<exists>e. err = Some e \<and> IsConflict (lib r) e) \<and> x = rpc \<and> budget (env s') < budget (env s)" by blast
  show ?case
  proof (cases err)
    case None
    with run show ?thesis by simp
  next
    case (Some e)
    with prog Suc.prems have "IsConflict (lib r) e" "x = rpc" "budget (env s') \<le> n" by auto
    with run Some Suc.IH show ?thesis by simp
  qed
qed

end

text \<open>
  A server on which \<open>writers\<close> others are about to write: each gets in just before the next patch and gives
  the object a new version, so that this patch is based on an older one.
\<close>

record contest =
  c_version :: nat
  writers :: nat

definition version_of :: "contest \<Rightarrow> string" where
  "version_of c = replicate (c_version c) CHR ''v''"

definition contended_client :: "SpectrumXRailPoolConfig \<Rightarrow> contest Client" where
  "contended_client rpc = (demo_client (demo_rpc [] []) [])\<lparr>
     get_RailPoolConfig := (\<lambda>k c. (Inr (rpc\<lparr>rpc_ResourceVersion := version_of c\<rparr>), c)),
     patch_status := (\<lambda>base u c.
       if writers c = 0 \<and> rpc_ResourceVersion base = version_of c
       then (Inr u, c\<lparr>c_version := c_version c + 1\<rparr>)
       else (Inl (External ''Conflict'' ''the object has been modified''),
         if writers c = 0 then c else c\<lparr>c_version := c_version c + 1, writers := writers c - 1\<rparr>))\<rparr>"

definition contended :: "SpectrumXRailPoolConfig \<Rightarrow> contest HostReconciler" where
  "contended rpc = demo_reconciler (contended_client rpc) all_ok_shell
     \<lparr>os_do = (\<lambda>f w. (None, w)), os_ReadFile = (\<lambda>p w. (no_object, w))\<rparr>"

interpretation contd: contended_server "contended rpc" key "Generation rpc" version_of writers for rpc key
  by unfold_locales
    (auto simp: contended_def demo_reconciler_def contended_client_def demo_client_def demo_lib_def split: if_splits)

text \<open>
  Property C16. A report gets through: while reads succeed and the pool stays at the reconciled generation,
  if at most \<open>n\<close> writes of others (or outdated reads) come between the reads and the patches and the
  back-off allows \<open>n\<close> repetitions, the call returns without error. The server accepts only patches that
  are based on its own version, so this rests on reading the object again in each repetition.
\<close>

theorem status_report_gets_through:
  assumes "contended_server r (rpc_Namespace rpc, rpc_Name rpc) (Generation rpc) version budget"
    and "\<forall>fn. RetryOnConflict (lib r) fn = retry_loop (IsConflict (lib r)) n fn"
    and "budget (env s) \<le> n"
  shows "\<exists>rpc' s'. run_state (patchSyncStatusWithMessage r rpc st msg) s = ((None, rpc'), s')"
proof -
  from contended_server.retry_gets_through [OF assms(1) refl assms(3), of st msg] assms(2)
  have "fst (fst (run_state (patchSyncStatusWithMessage r rpc st msg) s)) = None"
    by (simp add: patchSyncStatusWithMessage_def)
  then show ?thesis by (metis prod.collapse)
qed

theorem status_report_gets_through_witness:
  "\<exists>rpc' s'. run_state (patchSyncStatusWithMessage (contended (demo_rpc [] [])) (demo_rpc [] []) SyncStatusFailed ''m'')
     \<lparr>events = [], env = \<lparr>c_version = 7, writers = 3\<rparr>\<rparr> = ((None, rpc'), s')"
proof -
  have "\<forall>fn. RetryOnConflict (lib (contended (demo_rpc [] []))) fn = retry_loop (IsConflict (lib (contended (demo_rpc [] [])))) 4 fn"
    by (simp add: contended_def demo_reconciler_def demo_lib_def)
  from status_report_gets_through [OF contd.contended_server_axioms this, of "\<lparr>events = [], env = \<lparr>c_version = 7, writers = 3\<rparr>\<rparr>"]
  show ?thesis by simp
qed

end
