(* ===== verification/Go_Memory.thy ===== *)
theory Go_Memory
  imports Api_Types "HOL-Library.Multiset" "HOL-Library.AList"
begin

text \<open>
  The memory of a Go program, as far as the custom resource needs it: arrays of the types that
  its fields refer to, and maps. In the other theories a value of the program is a HOL
  value, which nobody can change; here structs hold addresses, slices are windows on arrays that
  several of them may share, and a pointer is an array with an index. An access that Go would not
  allow (nil, out of range, another type) has no result.

  The locale \<open>deep_copier\<close> is the contract of a deep copy.
\<close>

section \<open>Memory\<close>

text \<open>A slice is a window on an array: its address, where the window begins, its length and capacity.\<close>

record slice =
  sl_arr :: nat
  sl_off :: nat
  sl_len :: nat
  sl_cap :: nat

type_synonym ptr = "nat \<times> nat"

text \<open>
  The structs of \<^verbatim>\<open>spectrumxrailpoolconfig_types.go\<close>, with the types of the fields that refer to memory
  as parameters: in memory these are slices (\<open>None\<close> is nil), pointers and addresses of maps; in a
  value, what is found there. Of the metadata the fields that the program uses.
\<close>

record 's NicSelector_g =
  g_PfNames :: 's

record 's RailTopology_g =
  g_rt_Name :: string
  g_NicSelector :: "'s NicSelector_g"
  g_CidrPoolRef :: string
  g_IPAM :: string
  g_MTU :: int
  g_SwPlane :: int

record ('b, 'm, 'i, 'r) Spec_g =
  g_DraEnabled :: bool
  g_VFStateFollow :: 'b
  g_NodeSelector :: 'm
  g_MaxUnavailable :: 'i
  g_NetworkNamespace :: string
  g_OvsConfig :: 'm
  g_NumVfs :: int
  g_RailTopology :: 'r

record 'n Status_g =
  g_SyncStatus :: State
  g_NodeStates :: 'n
  g_ObservedGeneration :: int

record TypeMeta =
  tm_Kind :: string
  tm_APIVersion :: string

record ('t, 's) ObjectMeta_g =
  g_Name :: string
  g_Namespace :: string
  g_ResourceVersion :: string
  g_Generation :: int
  g_DeletionTimestamp :: 't
  g_Finalizers :: 's

record 't ListMeta_g =
  g_lm_ResourceVersion :: string
  g_Continue :: string
  g_RemainingItemCount :: 't

record ('o, 'sp, 'st) Config_g =
  g_TypeMeta :: TypeMeta
  g_ObjectMeta :: 'o
  g_Spec :: 'sp
  g_Status :: 'st

record ('l, 'c) ConfigList_g =
  g_lst_TypeMeta :: TypeMeta
  g_ListMeta :: 'l
  g_Items :: 'c

type_synonym NicSelector_m = "slice option NicSelector_g"
type_synonym RailTopology_m = "slice option RailTopology_g"
type_synonym Spec_m = "(ptr option, nat option, ptr option, slice option) Spec_g"
type_synonym Status_m = "slice option Status_g"
type_synonym ObjectMeta_m = "(ptr option, slice option) ObjectMeta_g"
type_synonym ListMeta_m = "ptr option ListMeta_g"
type_synonym Config_m = "(ObjectMeta_m, Spec_m, Status_m) Config_g"
type_synonym ConfigList_m = "(ListMeta_m, slice option) ConfigList_g"

text \<open>What an address can hold: an array, with one element if it was made by \<open>new\<close>, or a map.\<close>

datatype obj =
    Strings "string list"
  | Bools "bool list"
  | Int64s "int list"
  | IntOrStrings "IntOrString list"
  | MapObj "(string \<times> string) list"
  | NicSelectors "NicSelector_m list"
  | RailTopologyArray "RailTopology_m list"
  | Specs "Spec_m list"
  | NodeStateArray "NodeState list"
  | Statuses "Status_m list"
  | Configs "Config_m list"
  | ConfigLists "ConfigList_m list"

type_synonym mem = "obj list"

text \<open>The type of an array's elements, as the pair of the constructor and its inverse.\<close>

record 'a kind =
  pack :: "'a list \<Rightarrow> obj"
  unpack :: "obj \<Rightarrow> 'a list option"

definition strings :: "string kind" where
  "strings = \<lparr>pack = Strings, unpack = (\<lambda>x. case x of Strings a \<Rightarrow> Some a | _ \<Rightarrow> None)\<rparr>"
definition bools :: "bool kind" where
  "bools = \<lparr>pack = Bools, unpack = (\<lambda>x. case x of Bools a \<Rightarrow> Some a | _ \<Rightarrow> None)\<rparr>"
definition int64s :: "int kind" where
  "int64s = \<lparr>pack = Int64s, unpack = (\<lambda>x. case x of Int64s a \<Rightarrow> Some a | _ \<Rightarrow> None)\<rparr>"
definition intOrStrings :: "IntOrString kind" where
  "intOrStrings = \<lparr>pack = IntOrStrings, unpack = (\<lambda>x. case x of IntOrStrings a \<Rightarrow> Some a | _ \<Rightarrow> None)\<rparr>"
definition mapEntries :: "(string \<times> string) kind" where
  "mapEntries = \<lparr>pack = MapObj, unpack = (\<lambda>x. case x of MapObj a \<Rightarrow> Some a | _ \<Rightarrow> None)\<rparr>"
definition nicSelectors :: "NicSelector_m kind" where
  "nicSelectors = \<lparr>pack = NicSelectors, unpack = (\<lambda>x. case x of NicSelectors a \<Rightarrow> Some a | _ \<Rightarrow> None)\<rparr>"
definition railTopologies :: "RailTopology_m kind" where
  "railTopologies = \<lparr>pack = RailTopologyArray, unpack = (\<lambda>x. case x of RailTopologyArray a \<Rightarrow> Some a | _ \<Rightarrow> None)\<rparr>"
definition specs :: "Spec_m kind" where
  "specs = \<lparr>pack = Specs, unpack = (\<lambda>x. case x of Specs a \<Rightarrow> Some a | _ \<Rightarrow> None)\<rparr>"
definition nodeStates :: "NodeState kind" where
  "nodeStates = \<lparr>pack = NodeStateArray, unpack = (\<lambda>x. case x of NodeStateArray a \<Rightarrow> Some a | _ \<Rightarrow> None)\<rparr>"
definition statuses :: "Status_m kind" where
  "statuses = \<lparr>pack = Statuses, unpack = (\<lambda>x. case x of Statuses a \<Rightarrow> Some a | _ \<Rightarrow> None)\<rparr>"
definition configs :: "Config_m kind" where
  "configs = \<lparr>pack = Configs, unpack = (\<lambda>x. case x of Configs a \<Rightarrow> Some a | _ \<Rightarrow> None)\<rparr>"
definition configLists :: "ConfigList_m kind" where
  "configLists = \<lparr>pack = ConfigLists, unpack = (\<lambda>x. case x of ConfigLists a \<Rightarrow> Some a | _ \<Rightarrow> None)\<rparr>"

lemmas kind_defs = strings_def bools_def int64s_def intOrStrings_def mapEntries_def nicSelectors_def
  railTopologies_def specs_def nodeStates_def statuses_def configs_def configLists_def

section \<open>Access\<close>

definition array :: "'a kind \<Rightarrow> mem \<Rightarrow> nat \<Rightarrow> 'a list option" where
  "array k m a = (if a < length m then unpack k (m ! a) else None)"

definition load :: "'a kind \<Rightarrow> ptr \<Rightarrow> mem \<Rightarrow> 'a option" where
  "load k p m = (case array k m (fst p) of
      None \<Rightarrow> None
    | Some xs \<Rightarrow> if snd p < length xs then Some (xs ! snd p) else None)"

definition store :: "'a kind \<Rightarrow> ptr \<Rightarrow> 'a \<Rightarrow> mem \<Rightarrow> mem option" where
  "store k p v m = (case array k m (fst p) of
      None \<Rightarrow> None
    | Some xs \<Rightarrow> if snd p < length xs then Some (m[fst p := pack k (xs[snd p := v])]) else None)"

text \<open>\<open>new(T)\<close>, \<open>make([]T, n)\<close>, \<open>s[i]\<close>, \<open>s[i] = v\<close> and the elements of a slice.\<close>

definition new :: "'a kind \<Rightarrow> 'a \<Rightarrow> mem \<Rightarrow> ptr \<times> mem" where
  "new k zero m = ((length m, 0), m @ [pack k [zero]])"

definition make :: "'a kind \<Rightarrow> 'a \<Rightarrow> nat \<Rightarrow> mem \<Rightarrow> slice \<times> mem" where
  "make k zero n m = (\<lparr>sl_arr = length m, sl_off = 0, sl_len = n, sl_cap = n\<rparr>, m @ [pack k (replicate n zero)])"

definition elem :: "slice \<Rightarrow> nat \<Rightarrow> ptr option" where
  "elem s i = (if i < sl_len s then Some (sl_arr s, sl_off s + i) else None)"

definition window :: "'a kind \<Rightarrow> mem \<Rightarrow> slice \<Rightarrow> 'a list option" where
  "window k m s = (case array k m (sl_arr s) of
      None \<Rightarrow> None
    | Some xs \<Rightarrow> if sl_off s + sl_len s \<le> length xs then Some (take (sl_len s) (drop (sl_off s) xs)) else None)"

text \<open>\<open>copy(dst, src)\<close>: as many elements as both have, as if read before they are written.\<close>

definition copy_slice :: "'a kind \<Rightarrow> slice \<Rightarrow> slice \<Rightarrow> mem \<Rightarrow> mem option" where
  "copy_slice k dst src m = do {
     xs \<leftarrow> window k m src;
     ys \<leftarrow> array k m (sl_arr dst);
     let n = min (sl_len dst) (sl_len src);
     Some (m[sl_arr dst := pack k (take (sl_off dst) ys @ take n xs @ drop (sl_off dst + n) ys)])
   }"

text \<open>
  \<open>append(s, v)\<close>: in place while the capacity lasts, otherwise into a new array whose capacity
  the runtime chooses (\<open>grow\<close>); its further elements have the zero value.
\<close>

definition append_slice :: "'a kind \<Rightarrow> 'a \<Rightarrow> (nat \<Rightarrow> nat) \<Rightarrow> slice option \<Rightarrow> 'a \<Rightarrow> mem \<Rightarrow> (slice \<times> mem) option" where
  "append_slice k zero grow so v m = (case so of
      None \<Rightarrow> Some (\<lparr>sl_arr = length m, sl_off = 0, sl_len = 1, sl_cap = Suc (grow 0)\<rparr>, m @ [pack k (v # replicate (grow 0) zero)])
    | Some s \<Rightarrow>
        if sl_len s < sl_cap s then do {
          m1 \<leftarrow> store k (sl_arr s, sl_off s + sl_len s) v m;
          Some (s\<lparr>sl_len := Suc (sl_len s)\<rparr>, m1)
        } else do {
          xs \<leftarrow> window k m s;
          Some (\<lparr>sl_arr = length m, sl_off = 0, sl_len = Suc (sl_len s), sl_cap = Suc (sl_len s) + grow (sl_len s)\<rparr>,
                m @ [pack k (xs @ v # replicate (grow (sl_len s)) zero)])
        })"

text \<open>
  \<open>make(map[string]string, n)\<close>, \<open>m[key] = val\<close>, and the loop over the entries of a map. In which order Go
  ranges over a map is not specified: it is a parameter, of which only that it is a permutation
  may be used.
\<close>

definition make_map :: "mem \<Rightarrow> nat \<times> mem" where
  "make_map m = (length m, m @ [MapObj []])"

definition map_assign :: "nat \<Rightarrow> string \<Rightarrow> string \<Rightarrow> mem \<Rightarrow> mem option" where
  "map_assign a key val m = do {
     es \<leftarrow> array mapEntries m a;
     Some (m[a := MapObj (AList.update key val es)])
   }"

fun assign_all :: "nat \<Rightarrow> (string \<times> string) list \<Rightarrow> mem \<Rightarrow> mem option" where
  "assign_all a [] m = Some m"
| "assign_all a ((key, val) # es) m = do { m1 \<leftarrow> map_assign a key val m; assign_all a es m1 }"

definition range_law :: "((string \<times> string) list \<Rightarrow> (string \<times> string) list) \<Rightarrow> bool" where
  "range_law order \<longleftrightarrow> (\<forall>xs. mset (order xs) = mset xs)"

section \<open>Copies of references\<close>

text \<open>The blocks that a generated deep copy has for a field that refers to memory.\<close>

definition copy_opt :: "('a \<Rightarrow> mem \<Rightarrow> ('a \<times> mem) option) \<Rightarrow> 'a option \<Rightarrow> mem \<Rightarrow> ('a option \<times> mem) option" where
  "copy_opt f x m = (case x of
      None \<Rightarrow> Some (None, m)
    | Some r \<Rightarrow> do { (r', m1) \<leftarrow> f r m; Some (Some r', m1) })"

definition copy_ptr :: "'a kind \<Rightarrow> 'a \<Rightarrow> ptr \<Rightarrow> mem \<Rightarrow> (ptr \<times> mem) option" where
  "copy_ptr k zero p m = do {
     let (q, m1) = new k zero m;
     v \<leftarrow> load k p m1;
     m2 \<leftarrow> store k q v m1;
     Some (q, m2)
   }"

definition copy_map :: "((string \<times> string) list \<Rightarrow> (string \<times> string) list) \<Rightarrow> nat \<Rightarrow> mem \<Rightarrow> (nat \<times> mem) option" where
  "copy_map order a m = do {
     let (b, m1) = make_map m;
     es \<leftarrow> array mapEntries m1 a;
     m2 \<leftarrow> assign_all b (order es) m1;
     Some (b, m2)
   }"

definition copy_values :: "'a kind \<Rightarrow> 'a \<Rightarrow> slice \<Rightarrow> mem \<Rightarrow> (slice \<times> mem) option" where
  "copy_values k zero s m = do {
     let (t, m1) = make k zero (sl_len s) m;
     m2 \<leftarrow> copy_slice k t s m1;
     Some (t, m2)
   }"

text \<open>A loop that copies element by element, with the elements' own deep copy.\<close>

fun copy_each :: "'a kind \<Rightarrow> ('a \<Rightarrow> mem \<Rightarrow> ('a \<times> mem) option) \<Rightarrow> slice \<Rightarrow> slice \<Rightarrow> nat list \<Rightarrow> mem \<Rightarrow> mem option" where
  "copy_each k f s t [] m = Some m"
| "copy_each k f s t (i # is) m = do {
     p \<leftarrow> elem s i;
     v \<leftarrow> load k p m;
     (w, m1) \<leftarrow> f v m;
     q \<leftarrow> elem t i;
     m2 \<leftarrow> store k q w m1;
     copy_each k f s t is m2
   }"

definition copy_structs :: "'a kind \<Rightarrow> 'a \<Rightarrow> ('a \<Rightarrow> mem \<Rightarrow> ('a \<times> mem) option) \<Rightarrow> slice \<Rightarrow> mem \<Rightarrow> (slice \<times> mem) option" where
  "copy_structs k zero f s m = do {
     let (t, m1) = make k zero (sl_len s) m;
     m2 \<leftarrow> copy_each k f s t [0..<sl_len s] m1;
     Some (t, m2)
   }"

text \<open>
  The body of every \<open>DeepCopy\<close>: nil gives nil, otherwise a new struct is filled by the type's \<open>DeepCopyInto\<close>.
\<close>

definition copy_new :: "'a kind \<Rightarrow> 'a \<Rightarrow> ('a \<Rightarrow> mem \<Rightarrow> ('a \<times> mem) option) \<Rightarrow> ptr \<Rightarrow> mem \<Rightarrow> (ptr \<times> mem) option" where
  "copy_new k zero f p m = do {
     let (out, m1) = new k zero m;
     v \<leftarrow> load k p m1;
     (w, m2) \<leftarrow> f v m1;
     m3 \<leftarrow> store k out w m2;
     Some (out, m3)
   }"

section \<open>Frames\<close>

definition lawful_kind :: "'a kind \<Rightarrow> bool" where
  "lawful_kind k \<longleftrightarrow> (\<forall>xs x. unpack k x = Some xs \<longleftrightarrow> x = pack k xs)"

lemma kinds_lawful [simp]:
  "lawful_kind strings" "lawful_kind bools" "lawful_kind int64s" "lawful_kind intOrStrings" "lawful_kind mapEntries"
  "lawful_kind nicSelectors" "lawful_kind railTopologies" "lawful_kind specs" "lawful_kind nodeStates"
  "lawful_kind statuses" "lawful_kind configs" "lawful_kind configLists"
  by (auto simp: lawful_kind_def kind_defs split: obj.splits)

lemma kindD [simp]: "lawful_kind k \<Longrightarrow> unpack k (pack k xs) = Some xs"
  by (simp add: lawful_kind_def)

text \<open>The addresses in \<open>A\<close> hold the same in both memories.\<close>

definition agree :: "nat set \<Rightarrow> mem \<Rightarrow> mem \<Rightarrow> bool" where
  "agree A m m' \<longleftrightarrow> (\<forall>a \<in> A. a < length m \<longrightarrow> a < length m' \<and> m' ! a = m ! a)"

lemma agree_append [simp]: "agree A m (m @ k)"
  by (simp add: agree_def nth_append)

lemma agree_mono: "agree B m m' \<Longrightarrow> A \<subseteq> B \<Longrightarrow> agree A m m'"
  by (auto simp: agree_def)

lemma agree_trans: "agree A m m1 \<Longrightarrow> agree A m1 m2 \<Longrightarrow> agree A m m2"
  by (auto simp: agree_def)

lemma agree_update: "a \<notin> A \<Longrightarrow> agree A m (m[a := x])"
  unfolding agree_def by (metis length_list_update nth_list_update_neq)

lemma array_agree: "array k m a = Some xs \<Longrightarrow> agree {a} m m' \<Longrightarrow> array k m' a = Some xs"
  by (auto simp: array_def agree_def split: if_splits)

lemma array_present: "array k m a = Some xs \<Longrightarrow> a < length m"
  by (simp add: array_def split: if_splits)

lemma array_new [simp]: "lawful_kind k \<Longrightarrow> array k (m @ [pack k xs]) (length m) = Some xs"
  by (simp add: array_def)

lemma array_append: "array k m a = Some xs \<Longrightarrow> array k (m @ l) a = Some xs"
  by (erule array_agree) simp

lemma array_update [simp]: "lawful_kind k \<Longrightarrow> a < length m \<Longrightarrow> array k (m[a := pack k xs]) a = Some xs"
  by (simp add: array_def)

lemma update_above: "length m \<le> a \<Longrightarrow> (m @ l)[a := x] = m @ l[a - length m := x]"
  by (simp add: list_update_append)

section \<open>The contract of a deep copy\<close>

text \<open>
  \<open>y\<close> in the memory \<open>m'\<close> is a deep copy of \<open>x\<close> in \<open>m\<close>: what was in the memory is still there, the
  copy stands for the same value, and nothing it refers to existed before.
\<close>

definition copied :: "(mem \<Rightarrow> 'a \<Rightarrow> 'v) \<Rightarrow> (mem \<Rightarrow> 'a \<Rightarrow> nat set) \<Rightarrow> (mem \<Rightarrow> 'a \<Rightarrow> bool) \<Rightarrow>
    mem \<Rightarrow> 'a \<Rightarrow> mem \<Rightarrow> 'a \<Rightarrow> bool" where
  "copied rd refs ok m x m' y \<longleftrightarrow>
     (\<exists>l. m' = m @ l) \<and> ok m' y \<and> rd m' y = rd m x \<and> (\<forall>a \<in> refs m' y. length m \<le> a)"

text \<open>
  \<open>rd\<close> is the value that is found behind the references of \<open>x\<close>, \<open>refs\<close> the addresses it is found at, and \<open>ok\<close> says
  that the references lead to objects of the right type.
\<close>

locale deep_copier =
  fixes cp :: "'a \<Rightarrow> mem \<Rightarrow> ('a \<times> mem) option"
    and rd :: "mem \<Rightarrow> 'a \<Rightarrow> 'v"
    and refs :: "mem \<Rightarrow> 'a \<Rightarrow> nat set"
    and ok :: "mem \<Rightarrow> 'a \<Rightarrow> bool"
  assumes refs_present: "ok m x \<Longrightarrow> a \<in> refs m x \<Longrightarrow> a < length m"
    and local_ok: "ok m x \<Longrightarrow> agree (refs m x) m m' \<Longrightarrow> ok m' x"
    and local_rd: "ok m x \<Longrightarrow> agree (refs m x) m m' \<Longrightarrow> rd m' x = rd m x"
    and local_refs: "ok m x \<Longrightarrow> agree (refs m x) m m' \<Longrightarrow> refs m' x = refs m x"
    and copies: "ok m x \<Longrightarrow> \<exists>y m'. cp x m = Some (y, m') \<and> copied rd refs ok m x m' y"
begin

lemma copied_later:
  assumes "copied rd refs ok m x m1 y" "agree (refs m1 y) m1 m2" "\<exists>l. m2 = m @ l"
  shows "copied rd refs ok m x m2 y"
  using assms local_ok [of m1 y m2] local_rd [of m1 y m2] local_refs [of m1 y m2] by (auto simp: copied_def)

lemma copied_earlier:
  assumes "ok m x" "copied rd refs ok (m @ l) x m2 y"
  shows "copied rd refs ok m x m2 y"
  using assms local_rd [of m x "m @ l"] by (auto simp: copied_def)

lemma copy_step:
  assumes "ok m x"
  obtains y m' where "cp x (m @ l) = Some (y, m')" "copied rd refs ok m x m' y" "copied rd refs ok (m @ l) x m' y"
  using copies [OF local_ok [OF assms agree_append], of l] copied_earlier [OF assms] by blast

text \<open>Neither of the original and the copy sees what happens to the other, or to memory that is allocated later.\<close>

lemma original_kept:
  assumes "ok m x" "copied rd refs ok m x m' y" "agree (- refs m' y) m' m''"
  shows "ok m'' x \<and> rd m'' x = rd m x \<and> refs m'' x = refs m x"
proof -
  obtain l where l: "m' = m @ l" "\<And>a. a \<in> refs m' y \<Longrightarrow> length m \<le> a"
    using assms(2) unfolding copied_def by blast
  have "refs m x \<subseteq> - refs m' y" using l(2) refs_present [OF assms(1)] by force
  from agree_mono [OF assms(3) this] have "agree (refs m x) m m''"
    using agree_trans [OF agree_append] l(1) by blast
  then show ?thesis using local_ok local_rd local_refs assms(1) by blast
qed

lemma copy_kept:
  assumes "copied rd refs ok m x m' y" "agree (- {..<length m}) m' m''"
  shows "ok m'' y \<and> rd m'' y = rd m x"
proof -
  have "refs m' y \<subseteq> - {..<length m}" "ok m' y" using assms(1) by (auto simp: copied_def)
  with agree_mono [OF assms(2)] show ?thesis
    using local_ok local_rd assms(1) by (auto simp: copied_def)
qed

lemma copy_independent:
  assumes "ok m x"
  shows "\<exists>y m'. cp x m = Some (y, m') \<and> ok m' x \<and> ok m' y \<and> rd m' y = rd m x \<and> rd m' x = rd m x \<and>
    (\<forall>m''. agree (- refs m' y) m' m'' \<longrightarrow> rd m'' x = rd m x) \<and>
    (\<forall>m''. agree (- refs m' x) m' m'' \<longrightarrow> rd m'' y = rd m x)"
proof -
  obtain y m' where y: "cp x m = Some (y, m')" "copied rd refs ok m x m' y" using copies [OF assms] by blast
  have self: "ok m' x \<and> rd m' x = rd m x \<and> refs m' x = refs m x"
    by (rule original_kept [OF assms y(2)]) (simp add: agree_def)
  have "rd m'' y = rd m x" if "agree (- refs m' x) m' m''" for m''
  proof -
    have "- {..<length m} \<subseteq> - refs m' x" using self refs_present [OF assms] by force
    from copy_kept [OF y(2) agree_mono [OF that this]] show ?thesis by simp
  qed
  with self y original_kept [OF assms y(2)] show ?thesis by (auto simp: copied_def)
qed

end

section \<open>Copiers\<close>

definition opt_rd :: "(mem \<Rightarrow> 'a \<Rightarrow> 'v) \<Rightarrow> mem \<Rightarrow> 'a option \<Rightarrow> 'v option" where
  "opt_rd rd m x = map_option (rd m) x"

definition opt_refs :: "(mem \<Rightarrow> 'a \<Rightarrow> nat set) \<Rightarrow> mem \<Rightarrow> 'a option \<Rightarrow> nat set" where
  "opt_refs refs m x = (case x of None \<Rightarrow> {} | Some r \<Rightarrow> refs m r)"

definition opt_ok :: "(mem \<Rightarrow> 'a \<Rightarrow> bool) \<Rightarrow> mem \<Rightarrow> 'a option \<Rightarrow> bool" where
  "opt_ok ok m x = (case x of None \<Rightarrow> True | Some r \<Rightarrow> ok m r)"

lemmas opt_defs = opt_rd_def opt_refs_def opt_ok_def

lemma opt_copier:
  assumes "deep_copier f rd refs ok"
  shows "deep_copier (copy_opt f) (opt_rd rd) (opt_refs refs) (opt_ok ok)"
proof (unfold_locales, goal_cases)
  case (5 m x)
  show ?case
  proof (cases x)
    case (Some r)
    with 5 obtain y m' where "f r m = Some (y, m')" "copied rd refs ok m r m' y"
      using deep_copier.copies [OF assms, of m r] by (auto simp: opt_defs)
    then have "copy_opt f x m = Some (Some y, m')" "copied (opt_rd rd) (opt_refs refs) (opt_ok ok) m x m' (Some y)"
      using Some by (auto simp: copy_opt_def copied_def opt_defs)
    then show ?thesis by blast
  qed (simp add: copy_opt_def copied_def opt_defs)
qed (auto simp: opt_defs split: option.splits intro: deep_copier.refs_present [OF assms]
    deep_copier.local_ok [OF assms] deep_copier.local_rd [OF assms] dest: deep_copier.local_refs [OF assms])

lemma load_agree: "load k p m = Some v \<Longrightarrow> agree {fst p} m m' \<Longrightarrow> load k p m' = Some v"
  by (auto simp: load_def dest: array_agree split: option.splits if_splits)

lemma load_present: "load k p m = Some v \<Longrightarrow> fst p < length m"
  by (auto simp: load_def dest: array_present split: option.splits)

lemma load_append: "load k p m = Some v \<Longrightarrow> load k p (m @ l) = Some v"
  by (erule load_agree) simp

lemma load_new [simp]: "lawful_kind k \<Longrightarrow> load k (length m, 0) (m @ [pack k [v]]) = Some v"
  by (simp add: load_def)

lemma copy_ptr_run:
  assumes "lawful_kind k" "load k p m = Some v"
  shows "copy_ptr k zero p m = Some ((length m, 0), m @ [pack k [v]])"
  using load_append [OF assms(2), of "[pack k [zero]]"] assms(1)
  by (simp add: copy_ptr_def new_def Let_def store_def)

lemma ptr_copier:
  assumes "lawful_kind k"
  shows "deep_copier (copy_ptr k zero) (\<lambda>m p. load k p m) (\<lambda>m p. {fst p}) (\<lambda>m p. load k p m \<noteq> None)"
proof (unfold_locales, goal_cases)
  case (5 m p)
  then obtain v where v: "load k p m = Some v" by blast
  from copy_ptr_run [OF assms this] assms v show ?case by (auto simp: copied_def)
qed (auto dest: load_present load_agree [where p = "(a, b)" for a b, simplified])

definition map_rd :: "mem \<Rightarrow> nat \<Rightarrow> labels option" where
  "map_rd m a = map_option map_of (array mapEntries m a)"

definition map_ok :: "mem \<Rightarrow> nat \<Rightarrow> bool" where
  "map_ok m a = (case array mapEntries m a of None \<Rightarrow> False | Some es \<Rightarrow> distinct (map fst es))"

lemma pack_mapEntries: "pack mapEntries = MapObj"
  by (simp add: mapEntries_def)

lemma assign_all_run:
  "distinct (map fst (fs @ es)) \<Longrightarrow> assign_all (length m) es (m @ [MapObj fs]) = Some (m @ [MapObj (fs @ es)])"
proof (induction es arbitrary: fs)
  case (Cons e es)
  obtain key val where e: "e = (key, val)" by (cases e)
  have "key \<notin> fst ` set fs" using Cons.prems e by auto
  then have upd: "AList.update key val fs = fs @ [(key, val)]" by (induction fs) auto
  have "map_assign (length m) key val (m @ [MapObj fs]) = Some (m @ [MapObj (fs @ [(key, val)])])"
    using array_new [of mapEntries m fs] by (simp add: map_assign_def pack_mapEntries upd)
  moreover have "assign_all (length m) es (m @ [MapObj (fs @ [(key, val)])]) = Some (m @ [MapObj ((fs @ [(key, val)]) @ es)])"
    by (rule Cons.IH) (use Cons.prems e in auto)
  ultimately show ?case by (simp add: e)
qed simp

lemma range_law_perm:
  assumes "range_law order" "distinct (map fst es)"
  shows "distinct (map fst (order es))" "map_of (order es) = map_of es"
proof -
  have m: "mset (order es) = mset es" using assms(1) by (simp add: range_law_def)
  then have "mset (map fst (order es)) = mset (map fst es)" by simp
  then show d: "distinct (map fst (order es))" using assms(2) mset_eq_imp_distinct_iff by blast
  show "map_of (order es) = map_of es"
    by (rule map_of_inject_set [THEN iffD2]) (use d assms(2) mset_eq_setD [OF m] in simp_all)
qed

lemma map_copier:
  assumes "range_law order"
  shows "deep_copier (copy_map order) map_rd (\<lambda>m a. {a}) map_ok"
proof (unfold_locales, goal_cases)
  case (5 m a)
  then obtain es where es: "array mapEntries m a = Some es" "distinct (map fst es)"
    by (auto simp: map_ok_def split: option.splits)
  note perm = range_law_perm [OF assms es(2)]
  have "copy_map order a m = Some (length m, m @ [MapObj (order es)])"
    using array_append [OF es(1), of "[MapObj []]"] assign_all_run [of "[]" "order es" m] perm(1)
    by (simp add: copy_map_def make_map_def Let_def)
  moreover have "array mapEntries (m @ [MapObj (order es)]) (length m) = Some (order es)"
    using array_new [of mapEntries m "order es"] by (simp add: pack_mapEntries)
  ultimately show ?case using perm es(1) by (auto simp: copied_def map_rd_def map_ok_def)
qed (auto simp: map_ok_def map_rd_def dest: array_agree array_present split: option.splits)

definition slice_ok :: "'a kind \<Rightarrow> mem \<Rightarrow> slice \<Rightarrow> bool" where
  "slice_ok k m s = (case array k m (sl_arr s) of
      None \<Rightarrow> False
    | Some xs \<Rightarrow> sl_len s \<le> sl_cap s \<and> sl_off s + sl_cap s \<le> length xs)"

lemma slice_okE:
  assumes "slice_ok k m s"
  obtains xs where "array k m (sl_arr s) = Some xs" "sl_len s \<le> sl_cap s" "sl_off s + sl_cap s \<le> length xs"
    "window k m s = Some (take (sl_len s) (drop (sl_off s) xs))"
  using assms by (auto simp: slice_ok_def window_def split: option.splits)

lemma slice_agree:
  "slice_ok k m s \<Longrightarrow> agree {sl_arr s} m m' \<Longrightarrow> slice_ok k m' s \<and> window k m' s = window k m s"
  by (auto simp: slice_ok_def window_def dest: array_agree split: option.splits)

lemma slice_present: "slice_ok k m s \<Longrightarrow> sl_arr s < length m"
  by (auto elim!: slice_okE dest: array_present)

lemma window_length: "window k m s = Some vs \<Longrightarrow> length vs = sl_len s"
  by (auto simp: window_def split: option.splits if_splits)

lemma slice_new:
  assumes "lawful_kind k"
  shows "slice_ok k (m @ [pack k xs]) \<lparr>sl_arr = length m, sl_off = 0, sl_len = length xs, sl_cap = length xs\<rparr>"
    and "window k (m @ [pack k xs]) \<lparr>sl_arr = length m, sl_off = 0, sl_len = length xs, sl_cap = length xs\<rparr> = Some xs"
  using assms by (simp_all add: slice_ok_def window_def)

lemma values_copier:
  assumes "lawful_kind k"
  shows "deep_copier (copy_values k zero) (window k) (\<lambda>m s. {sl_arr s}) (slice_ok k)"
proof (unfold_locales, goal_cases)
  case (5 m s)
  then obtain vs where vs: "window k m s = Some vs" by (auto elim: slice_okE)
  let ?t = "\<lparr>sl_arr = length m, sl_off = 0, sl_len = length vs, sl_cap = length vs\<rparr>"
  have "window k (m @ l) s = Some vs" for l using slice_agree [OF 5, of "m @ l"] vs by simp
  then have "copy_values k zero s m = Some (?t, m @ [pack k vs])"
    using window_length [OF vs] assms by (simp add: copy_values_def make_def Let_def copy_slice_def)
  then show ?case using slice_new [OF assms, of m vs] vs by (auto simp: copied_def)
qed (auto dest: slice_present slice_agree)

text \<open>Slices of structs that refer to memory themselves.\<close>

definition structs_rd :: "'a kind \<Rightarrow> (mem \<Rightarrow> 'a \<Rightarrow> 'v) \<Rightarrow> mem \<Rightarrow> slice \<Rightarrow> 'v list option" where
  "structs_rd k rd m s = map_option (map (rd m)) (window k m s)"

definition structs_refs :: "'a kind \<Rightarrow> (mem \<Rightarrow> 'a \<Rightarrow> nat set) \<Rightarrow> mem \<Rightarrow> slice \<Rightarrow> nat set" where
  "structs_refs k refs m s = insert (sl_arr s) (case window k m s of None \<Rightarrow> {} | Some vs \<Rightarrow> \<Union> (refs m ` set vs))"

definition structs_ok :: "'a kind \<Rightarrow> (mem \<Rightarrow> 'a \<Rightarrow> bool) \<Rightarrow> mem \<Rightarrow> slice \<Rightarrow> bool" where
  "structs_ok k ok m s = (slice_ok k m s \<and> (case window k m s of None \<Rightarrow> False | Some vs \<Rightarrow> list_all (ok m) vs))"

lemma structs_okE:
  assumes "structs_ok k ok m s"
  obtains vs where "slice_ok k m s" "window k m s = Some vs" "\<And>v. v \<in> set vs \<Longrightarrow> ok m v" "length vs = sl_len s"
  using assms by (auto simp: structs_ok_def list_all_iff dest: window_length split: option.splits)

lemma elem_load:
  assumes "slice_ok k m s" "window k m s = Some vs" "i < sl_len s"
  shows "elem s i = Some (sl_arr s, sl_off s + i)" "load k (sl_arr s, sl_off s + i) m = Some (vs ! i)"
  using assms by (auto simp: elem_def load_def elim!: slice_okE)

definition struct_rd :: "'a kind \<Rightarrow> (mem \<Rightarrow> 'a \<Rightarrow> 'v) \<Rightarrow> mem \<Rightarrow> ptr \<Rightarrow> 'v option" where
  "struct_rd k rd m p = map_option (rd m) (load k p m)"

definition struct_refs :: "'a kind \<Rightarrow> (mem \<Rightarrow> 'a \<Rightarrow> nat set) \<Rightarrow> mem \<Rightarrow> ptr \<Rightarrow> nat set" where
  "struct_refs k refs m p = insert (fst p) (case load k p m of None \<Rightarrow> {} | Some v \<Rightarrow> refs m v)"

definition struct_ok :: "'a kind \<Rightarrow> (mem \<Rightarrow> 'a \<Rightarrow> bool) \<Rightarrow> mem \<Rightarrow> ptr \<Rightarrow> bool" where
  "struct_ok k ok m p = (case load k p m of None \<Rightarrow> False | Some v \<Rightarrow> ok m v)"

text \<open>
  In the loop the elements before \<open>i\<close> are copied into the array at \<open>length m\<close>, and what they refer to has been
  allocated after that array.
\<close>

context deep_copier
begin

lemma step_kept:
  assumes "ok M y" "a \<notin> refs M y" "\<exists>l. M1 = M @ l"
  shows "ok (M1[a := v]) y \<and> rd (M1[a := v]) y = rd M y \<and> refs (M1[a := v]) y = refs M y"
proof -
  have "agree (refs M y) M (M1[a := v])"
    using assms(3) agree_trans [OF agree_append agree_update [OF assms(2)]] by blast
  with assms(1) show ?thesis using local_ok local_rd local_refs by blast
qed

lemma copy_each_run:
  assumes kind: "lawful_kind k" and s: "slice_ok k m s" "window k m s = Some xs" "\<And>v. v \<in> set xs \<Longrightarrow> ok m v"
    and t: "t = \<lparr>sl_arr = length m, sl_off = 0, sl_len = length xs, sl_cap = length xs\<rparr>"
  shows "\<lbrakk>i \<le> length xs; array k M (length m) = Some ys; length ys = length xs; \<exists>l. M = m @ l;
     \<forall>j < i. ok M (ys ! j) \<and> rd M (ys ! j) = rd m (xs ! j) \<and> (\<forall>a \<in> refs M (ys ! j). length m < a)\<rbrakk> \<Longrightarrow>
   \<exists>M' zs. copy_each k cp s t [i..<length xs] M = Some M' \<and> array k M' (length m) = Some zs \<and> length zs = length xs \<and>
     (\<exists>l. M' = m @ l) \<and> (\<forall>j < length xs. ok M' (zs ! j) \<and> rd M' (zs ! j) = rd m (xs ! j) \<and> (\<forall>a \<in> refs M' (zs ! j). length m < a))"
proof (induction "length xs - i" arbitrary: i M ys)
  case 0
  then show ?case by (intro exI [of _ M] exI [of _ ys]) simp
next
  case (Suc d)
  let ?a = "length m"
  from Suc.hyps(2) have i: "i < length xs" by simp
  with s(2) have len: "i < sl_len s" by (simp add: window_length)
  obtain l where l: "M = m @ l" using Suc.prems(4) by blast
  have load: "load k (sl_arr s, sl_off s + i) M = Some (xs ! i)"
    unfolding l by (rule load_append [OF elem_load(2) [OF s(1,2) len]])
  have "ok m (xs ! i)" using s(3) i by simp
  from copy_step [OF this, of l] obtain w M1 where cp: "cp (xs ! i) M = Some (w, M1)"
    and w: "copied rd refs ok m (xs ! i) M1 w" "copied rd refs ok M (xs ! i) M1 w" by (metis l)
  from w(2) obtain l1 where l1: "M1 = M @ l1" by (auto simp: copied_def)
  have a: "?a < length M" using Suc.prems(2) by (rule array_present)
  define M2 where "M2 = M1[?a := pack k (ys[i := w])]"
  have store: "store k (?a, i) w M1 = Some M2"
    using array_append [OF Suc.prems(2), of l1] Suc.prems(3) i by (simp add: l1 store_def M2_def)
  have M2: "\<exists>l. M2 = m @ l" by (simp add: M2_def l1 l update_above)
  have arr: "array k M2 ?a = Some (ys[i := w])" using kind a by (simp add: M2_def l1)
  have "ok M2 w \<and> rd M2 w = rd m (xs ! i) \<and> (\<forall>b \<in> refs M2 w. ?a < b)"
  proof -
    have above: "\<forall>b \<in> refs M1 w. ?a < b" using w(2) a by (auto simp: copied_def)
    with w(1) step_kept [of M1 w ?a M1 "pack k (ys[i := w])"] show ?thesis by (auto simp: M2_def copied_def)
  qed
  moreover have "ok M2 (ys ! j) \<and> rd M2 (ys ! j) = rd m (xs ! j) \<and> (\<forall>b \<in> refs M2 (ys ! j). ?a < b)" if "j < i" for j
    using Suc.prems(5) that step_kept [of M "ys ! j" ?a M1 "pack k (ys[i := w])"] l1 by (auto simp: M2_def)
  ultimately have inv: "\<forall>j < Suc i. ok M2 (ys[i := w] ! j) \<and> rd M2 (ys[i := w] ! j) = rd m (xs ! j) \<and>
      (\<forall>b \<in> refs M2 (ys[i := w] ! j). ?a < b)"
    using i Suc.prems(3) by (simp add: less_Suc_eq nth_list_update)
  have "copy_each k cp s t [i..<length xs] M = copy_each k cp s t [Suc i..<length xs] M2"
    using i len load cp store by (simp add: upt_conv_Cons elem_def t)
  with Suc.hyps(1) [OF _ _ arr _ M2 inv] Suc.hyps(2) Suc.prems(3) i show ?case by simp
qed

lemma struct_frame:
  assumes "struct_ok k ok m p" "agree (struct_refs k refs m p) m m'"
  shows "struct_ok k ok m' p \<and> struct_rd k rd m' p = struct_rd k rd m p \<and> struct_refs k refs m' p = struct_refs k refs m p"
proof -
  from assms(1) obtain v where v: "load k p m = Some v" "ok m v" by (auto simp: struct_ok_def split: option.splits)
  have "agree {fst p} m m'" "agree (refs m v) m m'"
    by (rule agree_mono [OF assms(2)], force simp: struct_refs_def v(1))+
  with v load_agree [OF v(1)] local_ok [OF v(2)] local_rd [OF v(2)] local_refs [OF v(2)] show ?thesis
    by (simp add: struct_ok_def struct_rd_def struct_refs_def)
qed

lemma structs_frame:
  assumes "structs_ok k ok m s" "agree (structs_refs k refs m s) m m'"
  shows "structs_ok k ok m' s \<and> structs_rd k rd m' s = structs_rd k rd m s \<and> structs_refs k refs m' s = structs_refs k refs m s"
proof -
  from assms(1) obtain vs where vs: "slice_ok k m s" "window k m s = Some vs" "\<And>v. v \<in> set vs \<Longrightarrow> ok m v"
    by (elim structs_okE) blast
  have "agree {sl_arr s} m m'" "\<And>v. v \<in> set vs \<Longrightarrow> agree (refs m v) m m'"
    by (rule agree_mono [OF assms(2)], force simp: structs_refs_def vs(2))+
  then have "window k m' s = Some vs \<and> slice_ok k m' s" "\<And>v. v \<in> set vs \<Longrightarrow> ok m' v \<and> rd m' v = rd m v \<and> refs m' v = refs m v"
    using slice_agree [OF vs(1)] vs(2) local_ok [OF vs(3)] local_rd [OF vs(3)] local_refs [OF vs(3)] by simp_all
  with vs(2) show ?thesis by (simp add: structs_ok_def structs_rd_def structs_refs_def list_all_iff)
qed

lemma structs_copier:
  assumes kind: "lawful_kind k"
  shows "deep_copier (copy_structs k zero cp) (structs_rd k rd) (structs_refs k refs) (structs_ok k ok)"
proof (unfold_locales, goal_cases)
  case (1 m s a)
  then show ?case
    by (elim structs_okE) (auto simp: structs_refs_def dest: slice_present refs_present split: option.splits)
next
  case (5 m s)
  then obtain xs where xs: "slice_ok k m s" "window k m s = Some xs" "\<And>v. v \<in> set xs \<Longrightarrow> ok m v" "length xs = sl_len s"
    by (elim structs_okE) blast
  let ?t = "\<lparr>sl_arr = length m, sl_off = 0, sl_len = length xs, sl_cap = length xs\<rparr>"
    and ?m1 = "m @ [pack k (replicate (length xs) zero)]"
  have arr: "array k ?m1 (length m) = Some (replicate (length xs) zero)" by (simp add: kind)
  from copy_each_run [OF kind xs(1-3) refl _ arr, of 0]
  obtain M zs l where run: "copy_each k cp s ?t [0..<length xs] ?m1 = Some M" and M: "M = m @ l"
    and zs: "array k M (length m) = Some zs" "length zs = length xs"
    and each: "\<And>j. j < length xs \<Longrightarrow> ok M (zs ! j) \<and> rd M (zs ! j) = rd m (xs ! j) \<and> (\<forall>a \<in> refs M (zs ! j). length m < a)"
    by auto
  have win: "window k M ?t = Some zs" "slice_ok k M ?t" using zs by (simp_all add: window_def slice_ok_def)
  have "map (rd M) zs = map (rd m) xs" using each zs(2) by (simp add: list_eq_iff_nth_eq)
  moreover have "\<forall>z \<in> set zs. ok M z \<and> (\<forall>a \<in> refs M z. length m < a)" using each zs(2) by (auto simp: in_set_conv_nth)
  ultimately have "copied (structs_rd k rd) (structs_refs k refs) (structs_ok k ok) m s M ?t"
    using win M xs(2) by (auto simp: copied_def structs_rd_def structs_refs_def structs_ok_def list_all_iff dest: less_imp_le)
  moreover have "copy_structs k zero cp s m = Some (?t, M)"
    using run xs(4) by (simp add: copy_structs_def make_def Let_def)
  ultimately show ?case by blast
qed (use structs_frame in blast)+

text \<open>Pointers to structs.\<close>

lemma new_copier:
  assumes kind: "lawful_kind k"
  shows "deep_copier (copy_new k zero cp) (struct_rd k rd) (struct_refs k refs) (struct_ok k ok)"
proof (unfold_locales, goal_cases)
  case (1 m p a)
  then show ?case by (auto simp: struct_ok_def struct_refs_def dest: load_present refs_present split: option.splits)
next
  case (5 m p)
  then obtain v where v: "load k p m = Some v" "ok m v" by (auto simp: struct_ok_def split: option.splits)
  let ?out = "(length m, 0)" and ?l = "[pack k [zero]]"
  from copy_step [OF v(2), of ?l] obtain w m2 where cp: "cp v (m @ ?l) = Some (w, m2)"
    and w: "copied rd refs ok m v m2 w" "copied rd refs ok (m @ ?l) v m2 w" by metis
  from w(2) obtain l where m2: "m2 = (m @ ?l) @ l" and above: "length m \<notin> refs m2 w" by (force simp: copied_def)
  define m3 where "m3 = m2[length m := pack k [w]]"
  have "array k m2 (length m) = Some [zero]" unfolding m2 by (rule array_append) (simp add: kind)
  then have store: "store k ?out w m2 = Some m3" by (simp add: store_def m3_def)
  have m3: "m3 = m @ [pack k [w]] @ l" by (simp add: m3_def m2)
  have load: "load k ?out m3 = Some w"
    using load_append [OF load_new [OF kind], of m w l] by (simp add: m3)
  have "ok m3 w \<and> rd m3 w = rd m v \<and> refs m3 w = refs m2 w"
    using w(1) above step_kept [of m2 w "length m" m2 "pack k [w]"] by (simp add: m3_def copied_def)
  moreover have "\<forall>a \<in> refs m2 w. length m \<le> a" using w(1) by (simp add: copied_def)
  ultimately have "copied (struct_rd k rd) (struct_refs k refs) (struct_ok k ok) m p m3 ?out"
    using load v(1) m3 by (auto simp: copied_def struct_rd_def struct_refs_def struct_ok_def)
  moreover have "copy_new k zero cp p m = Some (?out, m3)"
    using load_append [OF v(1), of ?l] cp store by (simp add: copy_new_def new_def Let_def)
  ultimately show ?case by blast
qed (use struct_frame in blast)+

end

text \<open>Two references of a struct, one after the other, and a struct of which some fields are references.\<close>

definition copy_pair :: "('a \<Rightarrow> mem \<Rightarrow> ('a \<times> mem) option) \<Rightarrow> ('b \<Rightarrow> mem \<Rightarrow> ('b \<times> mem) option) \<Rightarrow>
    'a \<times> 'b \<Rightarrow> mem \<Rightarrow> (('a \<times> 'b) \<times> mem) option" where
  "copy_pair f g xy m = do { (x, m1) \<leftarrow> f (fst xy) m; (y, m2) \<leftarrow> g (snd xy) m1; Some ((x, y), m2) }"

lemma pair_copier:
  assumes f: "deep_copier f rd refs ok" and g: "deep_copier g rd' refs' ok'"
  shows "deep_copier (copy_pair f g) (\<lambda>m xy. (rd m (fst xy), rd' m (snd xy)))
    (\<lambda>m xy. refs m (fst xy) \<union> refs' m (snd xy)) (\<lambda>m xy. ok m (fst xy) \<and> ok' m (snd xy))"
proof (unfold_locales, goal_cases)
  case (5 m xy)
  then have ok: "ok m (fst xy)" "ok' m (snd xy)" by simp_all
  from deep_copier.copies [OF f ok(1)] obtain x m1 where x: "f (fst xy) m = Some (x, m1)" "copied rd refs ok m (fst xy) m1 x"
    by blast
  then obtain l where l: "m1 = m @ l" by (auto simp: copied_def)
  from deep_copier.copy_step [OF g ok(2), of l] obtain y m2 where y: "g (snd xy) m1 = Some (y, m2)"
    "copied rd' refs' ok' m (snd xy) m2 y" "copied rd' refs' ok' m1 (snd xy) m2 y" by (metis l)
  then obtain l' where l': "m2 = m1 @ l'" by (auto simp: copied_def)
  have "copied rd refs ok m (fst xy) m2 x"
    by (rule deep_copier.copied_later [OF f x(2)]) (simp_all add: l' l agree_append [of _ "m @ l", simplified])
  with x(1) y(1,2) show ?case by (auto simp: copy_pair_def copied_def)
qed (auto dest: deep_copier.refs_present [OF f] deep_copier.refs_present [OF g]
    intro: deep_copier.local_ok [OF f] deep_copier.local_ok [OF g] deep_copier.local_rd [OF f] deep_copier.local_rd [OF g]
    elim: agree_mono simp: deep_copier.local_refs [OF f _ agree_mono] deep_copier.local_refs [OF g _ agree_mono])

lemma field_copier:
  assumes f: "deep_copier f rd refs ok" and "\<And>x b. get (upd x b) = b" "\<And>x b v. mk (upd x b) v = mk x v"
  shows "deep_copier (\<lambda>x m. do { (b, m1) \<leftarrow> f (get x) m; Some (upd x b, m1) })
    (\<lambda>m x. mk x (rd m (get x))) (\<lambda>m x. refs m (get x)) (\<lambda>m x. ok m (get x))"
proof (unfold_locales, goal_cases)
  case (5 m x)
  from deep_copier.copies [OF f this] obtain b m1 where "f (get x) m = Some (b, m1)" "copied rd refs ok m (get x) m1 b"
    by blast
  then show ?case by (auto simp: copied_def assms(2,3))
qed (auto dest: deep_copier.refs_present [OF f] deep_copier.local_ok [OF f] simp: deep_copier.local_rd [OF f] deep_copier.local_refs [OF f])

text \<open>A struct without references.\<close>

lemma plain_copier: "deep_copier (\<lambda>x m. Some (x, m)) (\<lambda>m x. x) (\<lambda>m x. {}) (\<lambda>m x. True)"
  by unfold_locales (auto simp: copied_def)

end
