(* ===== verification/Deep_Copy.thy ===== *)
theory Deep_Copy
  imports Go_Memory
begin

text \<open>
  \<^verbatim>\<open>api/v1alpha2/zz_generated.deepcopy.go\<close>: the deep copies of the custom resource, type by type, on the memory of
  \<open>Go_Memory\<close>. Every \<open>DeepCopyInto\<close> starts with \<open>*out = *in\<close>, so it is a function from
  \<open>*in\<close> to \<open>*out\<close> that also changes the memory. The deep copies of the two metadata types are in the Kubernetes libraries and are
  parameters. Every function is shown to be a \<open>deep_copier\<close>.
\<close>

section \<open>The functions\<close>

text \<open>Zero values, which \<open>new\<close> and \<open>make\<close> fill memory with.\<close>

definition zero_NicSelector :: NicSelector_m where "zero_NicSelector = \<lparr>g_PfNames = None\<rparr>"

definition zero_RailTopology :: RailTopology_m where
  "zero_RailTopology = \<lparr>g_rt_Name = [], g_NicSelector = zero_NicSelector, g_CidrPoolRef = [], g_IPAM = [], g_MTU = 0, g_SwPlane = 0\<rparr>"

definition zero_NodeState :: NodeState where
  "zero_NodeState = \<lparr>ns_Name = [], ns_State = [], ns_ObservedGeneration = 0, ns_Message = []\<rparr>"

definition zero_Spec :: Spec_m where
  "zero_Spec = \<lparr>g_DraEnabled = False, g_VFStateFollow = None, g_NodeSelector = None, g_MaxUnavailable = None,
     g_NetworkNamespace = [], g_OvsConfig = None, g_NumVfs = 0, g_RailTopology = None\<rparr>"

definition zero_Status :: Status_m where
  "zero_Status = \<lparr>g_SyncStatus = [], g_NodeStates = None, g_ObservedGeneration = 0\<rparr>"

definition zero_Config :: Config_m where
  "zero_Config = \<lparr>g_TypeMeta = \<lparr>tm_Kind = [], tm_APIVersion = []\<rparr>,
     g_ObjectMeta = \<lparr>g_Name = [], g_Namespace = [], g_ResourceVersion = [], g_Generation = 0, g_DeletionTimestamp = None,
       g_Finalizers = None\<rparr>, g_Spec = zero_Spec, g_Status = zero_Status\<rparr>"

definition zero_ConfigList :: ConfigList_m where
  "zero_ConfigList = \<lparr>g_lst_TypeMeta = \<lparr>tm_Kind = [], tm_APIVersion = []\<rparr>,
     g_ListMeta = \<lparr>g_lm_ResourceVersion = [], g_Continue = [], g_RemainingItemCount = None\<rparr>, g_Items = None\<rparr>"

definition NicSelector_DeepCopyInto :: "NicSelector_m \<Rightarrow> mem \<Rightarrow> (NicSelector_m \<times> mem) option" where
  "NicSelector_DeepCopyInto inp m = do {
     (pfs, m1) \<leftarrow> copy_opt (copy_values strings []) (g_PfNames inp) m;
     Some (inp\<lparr>g_PfNames := pfs\<rparr>, m1)
   }"

definition NicSelector_DeepCopy :: "ptr option \<Rightarrow> mem \<Rightarrow> (ptr option \<times> mem) option" where
  "NicSelector_DeepCopy = copy_opt (copy_new nicSelectors zero_NicSelector NicSelector_DeepCopyInto)"

definition NodeState_DeepCopyInto :: "NodeState \<Rightarrow> mem \<Rightarrow> (NodeState \<times> mem) option" where
  "NodeState_DeepCopyInto inp m = Some (inp, m)"

definition NodeState_DeepCopy :: "ptr option \<Rightarrow> mem \<Rightarrow> (ptr option \<times> mem) option" where
  "NodeState_DeepCopy = copy_opt (copy_new nodeStates zero_NodeState NodeState_DeepCopyInto)"

definition RailTopology_DeepCopyInto :: "RailTopology_m \<Rightarrow> mem \<Rightarrow> (RailTopology_m \<times> mem) option" where
  "RailTopology_DeepCopyInto inp m = do {
     (nic, m1) \<leftarrow> NicSelector_DeepCopyInto (g_NicSelector inp) m;
     Some (inp\<lparr>g_NicSelector := nic\<rparr>, m1)
   }"

definition RailTopology_DeepCopy :: "ptr option \<Rightarrow> mem \<Rightarrow> (ptr option \<times> mem) option" where
  "RailTopology_DeepCopy = copy_opt (copy_new railTopologies zero_RailTopology RailTopology_DeepCopyInto)"

type_synonym map_order = "(string \<times> string) list \<Rightarrow> (string \<times> string) list"

definition Spec_DeepCopyInto :: "map_order \<Rightarrow> Spec_m \<Rightarrow> mem \<Rightarrow> (Spec_m \<times> mem) option" where
  "Spec_DeepCopyInto order inp m = do {
     (vf, m1) \<leftarrow> copy_opt (copy_ptr bools False) (g_VFStateFollow inp) m;
     (sel, m2) \<leftarrow> copy_opt (copy_map order) (g_NodeSelector inp) m1;
     (mu, m3) \<leftarrow> copy_opt (copy_ptr intOrStrings (IntVal 0)) (g_MaxUnavailable inp) m2;
     (ovs, m4) \<leftarrow> copy_opt (copy_map order) (g_OvsConfig inp) m3;
     (rails, m5) \<leftarrow> copy_opt (copy_structs railTopologies zero_RailTopology RailTopology_DeepCopyInto) (g_RailTopology inp) m4;
     Some (inp\<lparr>g_VFStateFollow := vf, g_NodeSelector := sel, g_MaxUnavailable := mu, g_OvsConfig := ovs, g_RailTopology := rails\<rparr>, m5)
   }"

definition Spec_DeepCopy :: "map_order \<Rightarrow> ptr option \<Rightarrow> mem \<Rightarrow> (ptr option \<times> mem) option" where
  "Spec_DeepCopy order = copy_opt (copy_new specs zero_Spec (Spec_DeepCopyInto order))"

definition Status_DeepCopyInto :: "Status_m \<Rightarrow> mem \<Rightarrow> (Status_m \<times> mem) option" where
  "Status_DeepCopyInto inp m = do {
     (states, m1) \<leftarrow> copy_opt (copy_values nodeStates zero_NodeState) (g_NodeStates inp) m;
     Some (inp\<lparr>g_NodeStates := states\<rparr>, m1)
   }"

definition Status_DeepCopy :: "ptr option \<Rightarrow> mem \<Rightarrow> (ptr option \<times> mem) option" where
  "Status_DeepCopy = copy_opt (copy_new statuses zero_Status Status_DeepCopyInto)"

text \<open>What the functions do not define themselves: the order of map entries, and the deep copies of the metadata.\<close>

record copy_lib =
  map_range :: map_order
  ObjectMeta_DeepCopyInto :: "ObjectMeta_m \<Rightarrow> mem \<Rightarrow> (ObjectMeta_m \<times> mem) option"
  ListMeta_DeepCopyInto :: "ListMeta_m \<Rightarrow> mem \<Rightarrow> (ListMeta_m \<times> mem) option"

definition Config_DeepCopyInto :: "copy_lib \<Rightarrow> Config_m \<Rightarrow> mem \<Rightarrow> (Config_m \<times> mem) option" where
  "Config_DeepCopyInto cl inp m = do {
     (om, m1) \<leftarrow> ObjectMeta_DeepCopyInto cl (g_ObjectMeta inp) m;
     (sp, m2) \<leftarrow> Spec_DeepCopyInto (map_range cl) (g_Spec inp) m1;
     (st, m3) \<leftarrow> Status_DeepCopyInto (g_Status inp) m2;
     Some (inp\<lparr>g_ObjectMeta := om, g_Spec := sp, g_Status := st\<rparr>, m3)
   }"

definition Config_DeepCopy :: "copy_lib \<Rightarrow> ptr option \<Rightarrow> mem \<Rightarrow> (ptr option \<times> mem) option" where
  "Config_DeepCopy cl = copy_opt (copy_new configs zero_Config (Config_DeepCopyInto cl))"

definition ConfigList_DeepCopyInto :: "copy_lib \<Rightarrow> ConfigList_m \<Rightarrow> mem \<Rightarrow> (ConfigList_m \<times> mem) option" where
  "ConfigList_DeepCopyInto cl inp m = do {
     (lm, m1) \<leftarrow> ListMeta_DeepCopyInto cl (g_ListMeta inp) m;
     (items, m2) \<leftarrow> copy_opt (copy_structs configs zero_Config (Config_DeepCopyInto cl)) (g_Items inp) m1;
     Some (inp\<lparr>g_ListMeta := lm, g_Items := items\<rparr>, m2)
   }"

definition ConfigList_DeepCopy :: "copy_lib \<Rightarrow> ptr option \<Rightarrow> mem \<Rightarrow> (ptr option \<times> mem) option" where
  "ConfigList_DeepCopy cl = copy_opt (copy_new configLists zero_ConfigList (ConfigList_DeepCopyInto cl))"

text \<open>The interface \<open>runtime.Object\<close>: a nil pointer becomes a nil interface, not an interface that holds nil.\<close>

datatype runtime_Object = Object_Config "ptr option" | Object_ConfigList "ptr option"

definition Config_DeepCopyObject :: "copy_lib \<Rightarrow> ptr option \<Rightarrow> mem \<Rightarrow> (runtime_Object option \<times> mem) option" where
  "Config_DeepCopyObject cl inp m = do {
     (c, m1) \<leftarrow> Config_DeepCopy cl inp m;
     Some (if c \<noteq> None then Some (Object_Config c) else None, m1)
   }"

definition ConfigList_DeepCopyObject :: "copy_lib \<Rightarrow> ptr option \<Rightarrow> mem \<Rightarrow> (runtime_Object option \<times> mem) option" where
  "ConfigList_DeepCopyObject cl inp m = do {
     (c, m1) \<leftarrow> ConfigList_DeepCopy cl inp m;
     Some (if c \<noteq> None then Some (Object_ConfigList c) else None, m1)
   }"

section \<open>Values in memory\<close>

text \<open>
  For every type: the value that a struct stands for, the addresses it is found at, and that all
  references lead to objects of their type. Nil and empty are different values.
\<close>

definition NicSelector_rd :: "mem \<Rightarrow> NicSelector_m \<Rightarrow> string list option option NicSelector_g" where
  "NicSelector_rd m x = \<lparr>g_PfNames = opt_rd (window strings) m (g_PfNames x)\<rparr>"

definition NicSelector_refs :: "mem \<Rightarrow> NicSelector_m \<Rightarrow> nat set" where
  "NicSelector_refs m x = opt_refs (\<lambda>m s. {sl_arr s}) m (g_PfNames x)"

definition NicSelector_ok :: "mem \<Rightarrow> NicSelector_m \<Rightarrow> bool" where
  "NicSelector_ok m x = opt_ok (slice_ok strings) m (g_PfNames x)"

definition RailTopology_rd :: "mem \<Rightarrow> RailTopology_m \<Rightarrow> string list option option RailTopology_g" where
  "RailTopology_rd m x = \<lparr>g_rt_Name = g_rt_Name x, g_NicSelector = NicSelector_rd m (g_NicSelector x),
     g_CidrPoolRef = g_CidrPoolRef x, g_IPAM = g_IPAM x, g_MTU = g_MTU x, g_SwPlane = g_SwPlane x\<rparr>"

definition RailTopology_refs :: "mem \<Rightarrow> RailTopology_m \<Rightarrow> nat set" where
  "RailTopology_refs m x = NicSelector_refs m (g_NicSelector x)"

definition RailTopology_ok :: "mem \<Rightarrow> RailTopology_m \<Rightarrow> bool" where
  "RailTopology_ok m x = NicSelector_ok m (g_NicSelector x)"

type_synonym Spec_v = "(bool option option, labels option option, IntOrString option option,
  string list option option RailTopology_g list option option) Spec_g"

definition Spec_rd :: "mem \<Rightarrow> Spec_m \<Rightarrow> Spec_v" where
  "Spec_rd m x = \<lparr>g_DraEnabled = g_DraEnabled x,
     g_VFStateFollow = opt_rd (\<lambda>m p. load bools p m) m (g_VFStateFollow x),
     g_NodeSelector = opt_rd map_rd m (g_NodeSelector x),
     g_MaxUnavailable = opt_rd (\<lambda>m p. load intOrStrings p m) m (g_MaxUnavailable x),
     g_NetworkNamespace = g_NetworkNamespace x, g_OvsConfig = opt_rd map_rd m (g_OvsConfig x), g_NumVfs = g_NumVfs x,
     g_RailTopology = opt_rd (structs_rd railTopologies RailTopology_rd) m (g_RailTopology x)\<rparr>"

definition Spec_refs :: "mem \<Rightarrow> Spec_m \<Rightarrow> nat set" where
  "Spec_refs m x = opt_refs (\<lambda>m p. {fst p}) m (g_VFStateFollow x) \<union> (opt_refs (\<lambda>m a. {a}) m (g_NodeSelector x) \<union>
     (opt_refs (\<lambda>m p. {fst p}) m (g_MaxUnavailable x) \<union> (opt_refs (\<lambda>m a. {a}) m (g_OvsConfig x) \<union>
      opt_refs (structs_refs railTopologies RailTopology_refs) m (g_RailTopology x))))"

definition Spec_ok :: "mem \<Rightarrow> Spec_m \<Rightarrow> bool" where
  "Spec_ok m x \<longleftrightarrow> opt_ok (\<lambda>m p. load bools p m \<noteq> None) m (g_VFStateFollow x) \<and> opt_ok map_ok m (g_NodeSelector x) \<and>
     opt_ok (\<lambda>m p. load intOrStrings p m \<noteq> None) m (g_MaxUnavailable x) \<and> opt_ok map_ok m (g_OvsConfig x) \<and>
     opt_ok (structs_ok railTopologies RailTopology_ok) m (g_RailTopology x)"

definition Status_rd :: "mem \<Rightarrow> Status_m \<Rightarrow> NodeState list option option Status_g" where
  "Status_rd m x = \<lparr>g_SyncStatus = g_SyncStatus x, g_NodeStates = opt_rd (window nodeStates) m (g_NodeStates x),
     g_ObservedGeneration = g_ObservedGeneration x\<rparr>"

definition Status_refs :: "mem \<Rightarrow> Status_m \<Rightarrow> nat set" where
  "Status_refs m x = opt_refs (\<lambda>m s. {sl_arr s}) m (g_NodeStates x)"

definition Status_ok :: "mem \<Rightarrow> Status_m \<Rightarrow> bool" where
  "Status_ok m x = opt_ok (slice_ok nodeStates) m (g_NodeStates x)"

type_synonym ObjectMeta_v = "(int option option, string list option option) ObjectMeta_g"

definition ObjectMeta_rd :: "mem \<Rightarrow> ObjectMeta_m \<Rightarrow> ObjectMeta_v" where
  "ObjectMeta_rd m x = \<lparr>g_Name = g_Name x, g_Namespace = g_Namespace x, g_ResourceVersion = g_ResourceVersion x,
     g_Generation = g_Generation x, g_DeletionTimestamp = opt_rd (\<lambda>m p. load int64s p m) m (g_DeletionTimestamp x),
     g_Finalizers = opt_rd (window strings) m (g_Finalizers x)\<rparr>"

definition ObjectMeta_refs :: "mem \<Rightarrow> ObjectMeta_m \<Rightarrow> nat set" where
  "ObjectMeta_refs m x = opt_refs (\<lambda>m p. {fst p}) m (g_DeletionTimestamp x) \<union> opt_refs (\<lambda>m s. {sl_arr s}) m (g_Finalizers x)"

definition ObjectMeta_ok :: "mem \<Rightarrow> ObjectMeta_m \<Rightarrow> bool" where
  "ObjectMeta_ok m x \<longleftrightarrow> opt_ok (\<lambda>m p. load int64s p m \<noteq> None) m (g_DeletionTimestamp x) \<and> opt_ok (slice_ok strings) m (g_Finalizers x)"

definition ListMeta_rd :: "mem \<Rightarrow> ListMeta_m \<Rightarrow> int option option ListMeta_g" where
  "ListMeta_rd m x = \<lparr>g_lm_ResourceVersion = g_lm_ResourceVersion x, g_Continue = g_Continue x,
     g_RemainingItemCount = opt_rd (\<lambda>m p. load int64s p m) m (g_RemainingItemCount x)\<rparr>"

definition ListMeta_refs :: "mem \<Rightarrow> ListMeta_m \<Rightarrow> nat set" where
  "ListMeta_refs m x = opt_refs (\<lambda>m p. {fst p}) m (g_RemainingItemCount x)"

definition ListMeta_ok :: "mem \<Rightarrow> ListMeta_m \<Rightarrow> bool" where
  "ListMeta_ok m x = opt_ok (\<lambda>m p. load int64s p m \<noteq> None) m (g_RemainingItemCount x)"

type_synonym Config_v = "(ObjectMeta_v, Spec_v, NodeState list option option Status_g) Config_g"

definition Config_rd :: "mem \<Rightarrow> Config_m \<Rightarrow> Config_v" where
  "Config_rd m x = \<lparr>g_TypeMeta = g_TypeMeta x, g_ObjectMeta = ObjectMeta_rd m (g_ObjectMeta x),
     g_Spec = Spec_rd m (g_Spec x), g_Status = Status_rd m (g_Status x)\<rparr>"

definition Config_refs :: "mem \<Rightarrow> Config_m \<Rightarrow> nat set" where
  "Config_refs m x = ObjectMeta_refs m (g_ObjectMeta x) \<union> (Spec_refs m (g_Spec x) \<union> Status_refs m (g_Status x))"

definition Config_ok :: "mem \<Rightarrow> Config_m \<Rightarrow> bool" where
  "Config_ok m x \<longleftrightarrow> ObjectMeta_ok m (g_ObjectMeta x) \<and> Spec_ok m (g_Spec x) \<and> Status_ok m (g_Status x)"

definition ConfigList_rd :: "mem \<Rightarrow> ConfigList_m \<Rightarrow> (int option option ListMeta_g, Config_v list option option) ConfigList_g" where
  "ConfigList_rd m x = \<lparr>g_lst_TypeMeta = g_lst_TypeMeta x, g_ListMeta = ListMeta_rd m (g_ListMeta x),
     g_Items = opt_rd (structs_rd configs Config_rd) m (g_Items x)\<rparr>"

definition ConfigList_refs :: "mem \<Rightarrow> ConfigList_m \<Rightarrow> nat set" where
  "ConfigList_refs m x = ListMeta_refs m (g_ListMeta x) \<union> opt_refs (structs_refs configs Config_refs) m (g_Items x)"

definition ConfigList_ok :: "mem \<Rightarrow> ConfigList_m \<Rightarrow> bool" where
  "ConfigList_ok m x \<longleftrightarrow> ListMeta_ok m (g_ListMeta x) \<and> opt_ok (structs_ok configs Config_ok) m (g_Items x)"

section \<open>Every copy is deep\<close>

interpretation nicSelector: deep_copier NicSelector_DeepCopyInto NicSelector_rd NicSelector_refs NicSelector_ok
proof -
  note field_copier [OF opt_copier [OF values_copier [OF kinds_lawful(1)]], where get = g_PfNames and upd = "\<lambda>x b. x\<lparr>g_PfNames := b\<rparr>"
      and mk = "\<lambda>x v. \<lparr>g_PfNames = v\<rparr>"]
  then show "deep_copier NicSelector_DeepCopyInto NicSelector_rd NicSelector_refs NicSelector_ok"
    unfolding NicSelector_DeepCopyInto_def [abs_def] NicSelector_rd_def [abs_def] NicSelector_refs_def [abs_def]
      NicSelector_ok_def [abs_def] by simp
qed

interpretation nodeState: deep_copier NodeState_DeepCopyInto "\<lambda>m x. x" "\<lambda>m x. {}" "\<lambda>m x. True"
  unfolding NodeState_DeepCopyInto_def [abs_def] by (rule plain_copier)

interpretation railTopology: deep_copier RailTopology_DeepCopyInto RailTopology_rd RailTopology_refs RailTopology_ok
proof -
  note field_copier [OF nicSelector.deep_copier_axioms, where get = g_NicSelector and upd = "\<lambda>x b. x\<lparr>g_NicSelector := b\<rparr>"
      and mk = "\<lambda>x v. \<lparr>g_rt_Name = g_rt_Name x, g_NicSelector = v, g_CidrPoolRef = g_CidrPoolRef x, g_IPAM = g_IPAM x,
        g_MTU = g_MTU x, g_SwPlane = g_SwPlane x\<rparr>"]
  then show "deep_copier RailTopology_DeepCopyInto RailTopology_rd RailTopology_refs RailTopology_ok"
    unfolding RailTopology_DeepCopyInto_def [abs_def] RailTopology_rd_def [abs_def] RailTopology_refs_def [abs_def]
      RailTopology_ok_def [abs_def] by simp
qed

interpretation status: deep_copier Status_DeepCopyInto Status_rd Status_refs Status_ok
proof -
  note field_copier [OF opt_copier [OF values_copier [OF kinds_lawful(9)]], where get = g_NodeStates and upd = "\<lambda>x b. x\<lparr>g_NodeStates := b\<rparr>"
      and mk = "\<lambda>x v. \<lparr>g_SyncStatus = g_SyncStatus x, g_NodeStates = v, g_ObservedGeneration = g_ObservedGeneration x\<rparr>"]
  then show "deep_copier Status_DeepCopyInto Status_rd Status_refs Status_ok"
    unfolding Status_DeepCopyInto_def [abs_def] Status_rd_def [abs_def] Status_refs_def [abs_def] Status_ok_def [abs_def] by simp
qed

text \<open>The fields of a spec that refer to memory, as one reference.\<close>

definition spec_fields :: "Spec_m \<Rightarrow> ptr option \<times> nat option \<times> ptr option \<times> nat option \<times> slice option" where
  "spec_fields x = (g_VFStateFollow x, g_NodeSelector x, g_MaxUnavailable x, g_OvsConfig x, g_RailTopology x)"

definition with_spec_fields :: "Spec_m \<Rightarrow> ptr option \<times> nat option \<times> ptr option \<times> nat option \<times> slice option \<Rightarrow> Spec_m" where
  "with_spec_fields x = (\<lambda>(vf, sel, mu, ovs, rails). x\<lparr>g_VFStateFollow := vf, g_NodeSelector := sel, g_MaxUnavailable := mu,
     g_OvsConfig := ovs, g_RailTopology := rails\<rparr>)"

lemma Spec_DeepCopyInto_fields:
  "Spec_DeepCopyInto order = (\<lambda>x m. do {
     (b, m1) \<leftarrow> copy_pair (copy_opt (copy_ptr bools False)) (copy_pair (copy_opt (copy_map order))
       (copy_pair (copy_opt (copy_ptr intOrStrings (IntVal 0))) (copy_pair (copy_opt (copy_map order))
         (copy_opt (copy_structs railTopologies zero_RailTopology RailTopology_DeepCopyInto))))) (spec_fields x) m;
     Some (with_spec_fields x b, m1) })"
  by (simp add: fun_eq_iff Spec_DeepCopyInto_def copy_pair_def spec_fields_def with_spec_fields_def split_def)

lemma spec_copier:
  assumes "range_law order"
  shows "deep_copier (Spec_DeepCopyInto order) Spec_rd Spec_refs Spec_ok"
proof -
  note maps = opt_copier [OF map_copier [OF assms]]
  note field_copier [OF pair_copier [OF opt_copier [OF ptr_copier [OF kinds_lawful(2)]] pair_copier [OF maps
          pair_copier [OF opt_copier [OF ptr_copier [OF kinds_lawful(4)]] pair_copier [OF maps
              opt_copier [OF railTopology.structs_copier [OF kinds_lawful(7)]]]]]],
      where get = spec_fields and upd = with_spec_fields and
        mk = "\<lambda>x (vf, sel, mu, ovs, rails). \<lparr>g_DraEnabled = g_DraEnabled x, g_VFStateFollow = vf, g_NodeSelector = sel,
          g_MaxUnavailable = mu, g_NetworkNamespace = g_NetworkNamespace x, g_OvsConfig = ovs, g_NumVfs = g_NumVfs x,
          g_RailTopology = rails\<rparr>"]
  then show ?thesis
    unfolding Spec_DeepCopyInto_fields Spec_rd_def [abs_def] Spec_refs_def [abs_def] Spec_ok_def [abs_def]
    by (simp add: spec_fields_def with_spec_fields_def split_def)
qed

text \<open>What the deep copies rely on: ranging over a map meets every entry once, and the metadata is copied deeply.\<close>

locale copy_library =
  fixes cl :: copy_lib
  assumes ranges: "range_law (map_range cl)"
    and object_meta: "deep_copier (ObjectMeta_DeepCopyInto cl) ObjectMeta_rd ObjectMeta_refs ObjectMeta_ok"
    and list_meta: "deep_copier (ListMeta_DeepCopyInto cl) ListMeta_rd ListMeta_refs ListMeta_ok"

sublocale copy_library \<subseteq> spec: deep_copier "Spec_DeepCopyInto (map_range cl)" Spec_rd Spec_refs Spec_ok
  by (rule spec_copier [OF ranges])

sublocale copy_library \<subseteq> config: deep_copier "Config_DeepCopyInto cl" Config_rd Config_refs Config_ok
proof -
  let ?get = "\<lambda>x. (g_ObjectMeta x, g_Spec x, g_Status x)"
    and ?upd = "\<lambda>x b. x\<lparr>g_ObjectMeta := fst b, g_Spec := fst (snd b), g_Status := snd (snd b)\<rparr>"
  have eq: "Config_DeepCopyInto cl = (\<lambda>x m. do {
      (b, m1) \<leftarrow> copy_pair (ObjectMeta_DeepCopyInto cl) (copy_pair (Spec_DeepCopyInto (map_range cl)) Status_DeepCopyInto) (?get x) m;
      Some (?upd x b, m1) })"
    by (simp add: fun_eq_iff Config_DeepCopyInto_def copy_pair_def split_def)
  note field_copier [OF pair_copier [OF object_meta pair_copier [OF spec.deep_copier_axioms status.deep_copier_axioms]],
      where get = ?get and upd = ?upd and
        mk = "\<lambda>x v. \<lparr>g_TypeMeta = g_TypeMeta x, g_ObjectMeta = fst v, g_Spec = fst (snd v), g_Status = snd (snd v)\<rparr>"]
  then show "deep_copier (Config_DeepCopyInto cl) Config_rd Config_refs Config_ok"
    unfolding eq Config_rd_def [abs_def] Config_refs_def [abs_def] Config_ok_def [abs_def] by simp
qed

sublocale copy_library \<subseteq> configList: deep_copier "ConfigList_DeepCopyInto cl" ConfigList_rd ConfigList_refs ConfigList_ok
proof -
  let ?get = "\<lambda>x. (g_ListMeta x, g_Items x)"
    and ?upd = "\<lambda>x b. x\<lparr>g_ListMeta := fst b, g_Items := snd b\<rparr>"
  have eq: "ConfigList_DeepCopyInto cl = (\<lambda>x m. do {
      (b, m1) \<leftarrow> copy_pair (ListMeta_DeepCopyInto cl) (copy_opt (copy_structs configs zero_Config (Config_DeepCopyInto cl))) (?get x) m;
      Some (?upd x b, m1) })"
    by (simp add: fun_eq_iff ConfigList_DeepCopyInto_def copy_pair_def split_def)
  note field_copier [OF pair_copier [OF list_meta opt_copier [OF config.structs_copier [OF kinds_lawful(11)]]],
      where get = ?get and upd = ?upd and
        mk = "\<lambda>x v. \<lparr>g_lst_TypeMeta = g_lst_TypeMeta x, g_ListMeta = fst v, g_Items = snd v\<rparr>"]
  then show "deep_copier (ConfigList_DeepCopyInto cl) ConfigList_rd ConfigList_refs ConfigList_ok"
    unfolding eq ConfigList_rd_def [abs_def] ConfigList_refs_def [abs_def] ConfigList_ok_def [abs_def] by simp
qed

sublocale copy_library \<subseteq> configs: deep_copier "Config_DeepCopy cl" "opt_rd (struct_rd configs Config_rd)"
    "opt_refs (struct_refs configs Config_refs)" "opt_ok (struct_ok configs Config_ok)"
  unfolding Config_DeepCopy_def by (rule opt_copier [OF config.new_copier [OF kinds_lawful(11)]])

sublocale copy_library \<subseteq> lists: deep_copier "ConfigList_DeepCopy cl" "opt_rd (struct_rd configLists ConfigList_rd)"
    "opt_refs (struct_refs configLists ConfigList_refs)" "opt_ok (struct_ok configLists ConfigList_ok)"
  unfolding ConfigList_DeepCopy_def by (rule opt_copier [OF configList.new_copier [OF kinds_lawful(12)]])

text \<open>A library that keeps the contract: entries in reverse order, the metadata copied field by field.\<close>

definition demo_copy_lib :: copy_lib where
  "demo_copy_lib = \<lparr>map_range = rev,
     ObjectMeta_DeepCopyInto = (\<lambda>x m. do {
       (b, m1) \<leftarrow> copy_pair (copy_opt (copy_ptr int64s 0)) (copy_opt (copy_values strings [])) (g_DeletionTimestamp x, g_Finalizers x) m;
       Some (x\<lparr>g_DeletionTimestamp := fst b, g_Finalizers := snd b\<rparr>, m1) }),
     ListMeta_DeepCopyInto = (\<lambda>x m. do {
       (b, m1) \<leftarrow> copy_opt (copy_ptr int64s 0) (g_RemainingItemCount x) m;
       Some (x\<lparr>g_RemainingItemCount := b\<rparr>, m1) })\<rparr>"

interpretation democl: copy_library demo_copy_lib
proof (rule copy_library.intro)
  note times = opt_copier [OF ptr_copier [OF kinds_lawful(3)]] and strs = opt_copier [OF values_copier [OF kinds_lawful(1)]]
  show "range_law (map_range demo_copy_lib)" by (simp add: demo_copy_lib_def range_law_def)
  note field_copier [OF pair_copier [OF times strs], where get = "\<lambda>x. (g_DeletionTimestamp x, g_Finalizers x)" and
      upd = "\<lambda>x b. x\<lparr>g_DeletionTimestamp := fst b, g_Finalizers := snd b\<rparr>" and
      mk = "\<lambda>x v. \<lparr>g_Name = g_Name x, g_Namespace = g_Namespace x, g_ResourceVersion = g_ResourceVersion x,
        g_Generation = g_Generation x, g_DeletionTimestamp = fst v, g_Finalizers = snd v\<rparr>"]
  then show "deep_copier (ObjectMeta_DeepCopyInto demo_copy_lib) ObjectMeta_rd ObjectMeta_refs ObjectMeta_ok"
    unfolding ObjectMeta_rd_def [abs_def] ObjectMeta_refs_def [abs_def] ObjectMeta_ok_def [abs_def] demo_copy_lib_def by simp
  note field_copier [OF times, where get = g_RemainingItemCount and upd = "\<lambda>x b. x\<lparr>g_RemainingItemCount := b\<rparr>" and
      mk = "\<lambda>x v. \<lparr>g_lm_ResourceVersion = g_lm_ResourceVersion x, g_Continue = g_Continue x, g_RemainingItemCount = v\<rparr>"]
  then show "deep_copier (ListMeta_DeepCopyInto demo_copy_lib) ListMeta_rd ListMeta_refs ListMeta_ok"
    unfolding ListMeta_rd_def [abs_def] ListMeta_refs_def [abs_def] ListMeta_ok_def [abs_def] demo_copy_lib_def by simp
qed

context copy_library
begin

lemmas config_independent = configs.copy_independent
lemmas list_copies = lists.copies
lemmas config_local = config.local_ok
lemmas configList_local = configList.local_ok

end

text \<open>
  A pool configuration in memory. Its rail has a slice in the middle of an array with spare capacity, and the second
  object of the list shares all references with the first.
\<close>

definition demo_config_m :: Config_m where
  "demo_config_m = zero_Config\<lparr>
     g_ObjectMeta := (g_ObjectMeta zero_Config)\<lparr>g_Name := ''pool'', g_Namespace := ''ns'', g_Generation := 1,
       g_Finalizers := Some \<lparr>sl_arr = 1, sl_off = 0, sl_len = 1, sl_cap = 1\<rparr>\<rparr>,
     g_Spec := zero_Spec\<lparr>g_VFStateFollow := Some (2, 0), g_NodeSelector := Some 3, g_NumVfs := 1,
       g_RailTopology := Some \<lparr>sl_arr = 4, sl_off = 0, sl_len = 1, sl_cap = 1\<rparr>\<rparr>,
     g_Status := zero_Status\<lparr>g_NodeStates := Some \<lparr>sl_arr = 5, sl_off = 0, sl_len = 1, sl_cap = 2\<rparr>\<rparr>\<rparr>"

definition demo_mem :: mem where
  "demo_mem = [Configs [demo_config_m, demo_config_m], Strings [''fin'', ''p0'', ''p1''], Bools [True],
     MapObj [(''rack'', ''1''), (''zone'', ''a'')],
     RailTopologyArray [zero_RailTopology\<lparr>g_rt_Name := ''a'', g_NicSelector := \<lparr>g_PfNames = Some \<lparr>sl_arr = 1, sl_off = 1, sl_len = 1, sl_cap = 2\<rparr>\<rparr>\<rparr>],
     NodeStateArray [zero_NodeState\<lparr>ns_Name := ''node''\<rparr>, zero_NodeState],
     ConfigLists [zero_ConfigList\<lparr>g_Items := Some \<lparr>sl_arr = 0, sl_off = 0, sl_len = 2, sl_cap = 2\<rparr>\<rparr>]]"

lemmas demo_mem_simps = demo_mem_def demo_config_m_def zero_Config_def zero_Spec_def zero_Status_def zero_RailTopology_def
  zero_NicSelector_def zero_NodeState_def zero_ConfigList_def

lemma demo_config_ok: "Config_ok demo_mem demo_config_m"
  by (auto simp: demo_mem_simps Config_ok_def ObjectMeta_ok_def Spec_ok_def Status_ok_def RailTopology_ok_def NicSelector_ok_def
      opt_ok_def map_ok_def slice_ok_def structs_ok_def window_def load_def array_def kind_defs)

lemma demo_load: "load configs (0, Suc 0) demo_mem = Some demo_config_m"
  by (simp add: load_def array_def demo_mem_def kind_defs)

section \<open>Properties\<close>

text \<open>
  Property C8. A deep copy of a pool configuration always succeeds, on any well-typed object however it shares
  memory; the copy is nil exactly for nil and otherwise stands for the same value, nil and empty
  fields told apart. From then on the two are independent: whatever is written behind the references of
  the copy, the original keeps its value, and the other way round.
\<close>

theorem Config_DeepCopy_independent:
  assumes "copy_library cl" "opt_ok (struct_ok configs Config_ok) m p"
    and "rd = opt_rd (struct_rd configs Config_rd)" "refs = opt_refs (struct_refs configs Config_refs)"
  shows "\<exists>q m'. Config_DeepCopy cl p m = Some (q, m') \<and> (q = None \<longleftrightarrow> p = None) \<and>
    rd m' q = rd m p \<and> rd m' p = rd m p \<and>
    (\<forall>m''. agree (- refs m' q) m' m'' \<longrightarrow> rd m'' p = rd m p) \<and>
    (\<forall>m''. agree (- refs m' p) m' m'' \<longrightarrow> rd m'' q = rd m p)"
proof -
  from copy_library.config_independent [OF assms(1,2)] obtain q m' where q: "Config_DeepCopy cl p m = Some (q, m')"
    "rd m' q = rd m p" "rd m' p = rd m p" "\<forall>m''. agree (- refs m' q) m' m'' \<longrightarrow> rd m'' p = rd m p"
    "\<forall>m''. agree (- refs m' p) m' m'' \<longrightarrow> rd m'' q = rd m p" by (auto simp: assms(3,4))
  have "q = None \<longleftrightarrow> p = None" using q(2) by (cases p; cases q) (simp_all add: assms(3) opt_rd_def)
  with q show ?thesis by blast
qed

theorem Config_DeepCopy_independent_witness:
  "\<exists>q m'. Config_DeepCopy demo_copy_lib (Some (0, 1)) demo_mem = Some (Some q, m') \<and>
     struct_rd configs Config_rd m' q = Some (Config_rd demo_mem demo_config_m) \<and>
     (\<forall>m''. agree (- struct_refs configs Config_refs m' q) m' m'' \<longrightarrow>
        struct_rd configs Config_rd m'' (0, 1) = Some (Config_rd demo_mem demo_config_m))"
proof -
  have ok: "opt_ok (struct_ok configs Config_ok) demo_mem (Some (0, 1))"
    by (simp add: opt_ok_def struct_ok_def demo_load demo_config_ok)
  have rd: "opt_rd (struct_rd configs Config_rd) demo_mem (Some (0, 1)) = Some (Some (Config_rd demo_mem demo_config_m))"
    by (simp add: opt_rd_def struct_rd_def demo_load)
  from Config_DeepCopy_independent [OF democl.copy_library_axioms ok refl refl]
  show ?thesis unfolding rd by (auto simp: opt_rd_def opt_refs_def)
qed

text \<open>
  Property C26. Deep copies keep memory well typed. \<open>DeepCopyObject\<close> of a list of pool configurations goes through without a
  nil dereference, an index out of range or an access at another type; for nil it returns the nil
  interface, never an interface that holds a nil pointer. In the resulting memory every reference of the copy and of any object
  that was there before leads to an object of its type, and what was stored is unchanged.
\<close>

theorem ConfigList_DeepCopyObject_typed:
  assumes "copy_library cl" "opt_ok (struct_ok configLists ConfigList_ok) m p"
  shows "\<exists>r m'. ConfigList_DeepCopyObject cl p m = Some (r, m') \<and> (\<exists>l. m' = m @ l) \<and>
    (case r of None \<Rightarrow> p = None | Some (Object_Config c) \<Rightarrow> False
     | Some (Object_ConfigList c) \<Rightarrow> p \<noteq> None \<and> c \<noteq> None \<and> opt_ok (struct_ok configLists ConfigList_ok) m' c) \<and>
    (\<forall>x. Config_ok m x \<longrightarrow> Config_ok m' x) \<and> (\<forall>x. ConfigList_ok m x \<longrightarrow> ConfigList_ok m' x)"
proof -
  from copy_library.list_copies [OF assms] obtain q m' l where q: "ConfigList_DeepCopy cl p m = Some (q, m')" "m' = m @ l"
    "opt_ok (struct_ok configLists ConfigList_ok) m' q"
    "opt_rd (struct_rd configLists ConfigList_rd) m' q = opt_rd (struct_rd configLists ConfigList_rd) m p"
    by (auto simp: copied_def)
  have "q = None \<longleftrightarrow> p = None" using q(4) by (cases p; cases q) (simp_all add: opt_rd_def)
  moreover have "Config_ok m x \<longrightarrow> Config_ok m' x" "ConfigList_ok m y \<longrightarrow> ConfigList_ok m' y" for x y
    using copy_library.config_local [OF assms(1), of m x m'] copy_library.configList_local [OF assms(1), of m y m'] q(2) by simp_all
  ultimately show ?thesis using q by (auto simp: ConfigList_DeepCopyObject_def)
qed

theorem ConfigList_DeepCopyObject_typed_witness:
  "\<exists>c m'. ConfigList_DeepCopyObject demo_copy_lib (Some (6, 0)) demo_mem = Some (Some (Object_ConfigList (Some c)), m') \<and>
     struct_ok configLists ConfigList_ok m' c \<and> Config_ok m' demo_config_m"
proof -
  have "struct_ok configLists ConfigList_ok demo_mem (6, 0)"
    using demo_config_ok by (simp add: struct_ok_def load_def array_def window_def slice_ok_def ConfigList_ok_def structs_ok_def
        ListMeta_ok_def opt_ok_def kind_defs demo_mem_def zero_ConfigList_def)
  then have ok: "opt_ok (struct_ok configLists ConfigList_ok) demo_mem (Some (6, 0))" by (simp add: opt_ok_def)
  from ConfigList_DeepCopyObject_typed [OF democl.copy_library_axioms ok] demo_config_ok
  show ?thesis by (fastforce simp: opt_ok_def split: option.splits runtime_Object.splits)
qed

end
