(* ===== verification/Status_Memory.thy ===== *)
theory Status_Memory
  imports Deep_Copy Status
begin

text \<open>
  The write of a status report in memory. \<open>patchSyncStatusWithMessage\<close> changes the object through a pointer into the slice
  of node states, or appends to the slice, and afterwards takes the object that was read as the base of the patch. \<open>Status\<close>
  describes the write as a function on values; here it is shown that the code computes that function, which it
  only does because the object it changes is a deep copy.
\<close>

section \<open>The value of an object\<close>

definition slice_value :: "'a list option option \<Rightarrow> 'a list" where
  "slice_value v = (case v of Some (Some xs) \<Rightarrow> xs | _ \<Rightarrow> [])"

definition map_value :: "labels option option \<Rightarrow> labels" where
  "map_value v = (case v of Some (Some l) \<Rightarrow> l | _ \<Rightarrow> Map.empty)"

definition RailTopology_value :: "string list option option RailTopology_g \<Rightarrow> RailTopology" where
  "RailTopology_value x = \<lparr>rt_Name = g_rt_Name x, rt_NicSelector = \<lparr>PfNames = slice_value (g_PfNames (g_NicSelector x))\<rparr>,
     CidrPoolRef = g_CidrPoolRef x, IPAM = g_IPAM x, rt_MTU = g_MTU x, SwPlane = g_SwPlane x\<rparr>"

definition Spec_value :: "Spec_v \<Rightarrow> SpectrumXRailPoolConfigSpec" where
  "Spec_value x = \<lparr>DraEnabled = g_DraEnabled x, VFStateFollow = Option.bind (g_VFStateFollow x) id,
     NodeSelector = map_value (g_NodeSelector x), MaxUnavailable = Option.bind (g_MaxUnavailable x) id,
     NetworkNamespace = g_NetworkNamespace x, OvsConfig = map_value (g_OvsConfig x), NumVfs = g_NumVfs x,
     RailTopologies = map RailTopology_value (slice_value (g_RailTopology x))\<rparr>"

definition Status_value :: "NodeState list option option Status_g \<Rightarrow> SpectrumXRailPoolConfigStatus" where
  "Status_value x = \<lparr>SyncStatus = g_SyncStatus x, NodeStates = slice_value (g_NodeStates x), ObservedGeneration = g_ObservedGeneration x\<rparr>"

definition Config_value :: "Config_v \<Rightarrow> SpectrumXRailPoolConfig" where
  "Config_value x = (let om = g_ObjectMeta x in
     \<lparr>rpc_Name = g_Name om, rpc_Namespace = g_Namespace om, rpc_ResourceVersion = g_ResourceVersion om, Generation = g_Generation om,
      DeletionTimestamp = Option.bind (g_DeletionTimestamp om) id, Finalizers = slice_value (g_Finalizers om),
      rpc_Spec = Spec_value (g_Spec x), rpc_Status = Status_value (g_Status x)\<rparr>)"

definition config_at :: "mem \<Rightarrow> ptr \<Rightarrow> SpectrumXRailPoolConfig option" where
  "config_at m p = map_option Config_value (struct_rd configs Config_rd m p)"

section \<open>The code\<close>

text \<open>\<open>GetNodeState\<close> with the pointer it returns.\<close>

fun scan_states :: "slice \<Rightarrow> string \<Rightarrow> nat list \<Rightarrow> mem \<Rightarrow> ptr result option" where
  "scan_states s node [] m = Some (Inl (ErrorString (''failed get state for node: '' @ node)))"
| "scan_states s node (i # is) m = do {
     p \<leftarrow> elem s i;
     v \<leftarrow> load nodeStates p m;
     if ns_Name v = node then Some (Inr p) else scan_states s node is m
   }"

definition GetNodeState_p :: "slice option \<Rightarrow> string \<Rightarrow> mem \<Rightarrow> ptr result option" where
  "GetNodeState_p states node m = (case states of
      None \<Rightarrow> Some (Inl (ErrorString (''failed get state for node: '' @ node)))
    | Some s \<Rightarrow> scan_states s node [0..<sl_len s] m)"

text \<open>The assignments through \<open>current\<close>, or to \<open>updated.Status.NodeStates\<close>.\<close>

definition set_node_state :: "(nat \<Rightarrow> nat) \<Rightarrow> ptr \<Rightarrow> ptr result \<Rightarrow> string \<Rightarrow> State \<Rightarrow> string \<Rightarrow> int \<Rightarrow> mem \<Rightarrow> mem option" where
  "set_node_state grow updated current node newState message gen m =
     (case current of
        Inr p \<Rightarrow> do {
          c \<leftarrow> load nodeStates p m;
          store nodeStates p (c\<lparr>ns_State := newState, ns_Message := message, ns_ObservedGeneration := gen\<rparr>) m
        }
      | Inl _ \<Rightarrow> do {
          u \<leftarrow> load configs updated m;
          (s, m1) \<leftarrow> append_slice nodeStates zero_NodeState grow (g_NodeStates (g_Status u))
            \<lparr>ns_Name = node, ns_State = newState, ns_ObservedGeneration = gen, ns_Message = message\<rparr> m;
          store configs updated (u\<lparr>g_Status := (g_Status u)\<lparr>g_NodeStates := Some s\<rparr>\<rparr>) m1
        })"

definition set_sync_status :: "ptr \<Rightarrow> State \<Rightarrow> int \<Rightarrow> mem \<Rightarrow> mem option" where
  "set_sync_status updated agg gen m = do {
     u \<leftarrow> load configs updated m;
     store configs updated (u\<lparr>g_Status := (g_Status u)\<lparr>g_SyncStatus := agg, g_ObservedGeneration := gen\<rparr>\<rparr>) m
   }"

text \<open>The test for a report that is already there, through the pointer to the entry.\<close>

definition report_unchanged :: "Status_m \<Rightarrow> ptr result \<Rightarrow> State \<Rightarrow> string \<Rightarrow> int \<Rightarrow> State \<Rightarrow> mem \<Rightarrow> bool option" where
  "report_unchanged status current newState message gen agg m =
     (case current of
        Inl _ \<Rightarrow> Some False
      | Inr p \<Rightarrow> do {
          c \<leftarrow> load nodeStates p m;
          Some (ns_State c = newState \<and> ns_Message c = message \<and> ns_ObservedGeneration c = gen \<and>
            g_SyncStatus status = agg \<and> g_ObservedGeneration status = gen)
        })"

text \<open>
  From the copy of the object that was read to the patch. The result is an error of the aggregation, the object that needs no
  patch, or the object that is sent together with the base of the patch. The two aggregations read the object and the
  list of nodes; what they return is a function of the object each.
\<close>

datatype report = Report_Error goerr | Report_Unchanged ptr | Report_Patch ptr ptr

definition write_report :: "copy_lib \<Rightarrow> (nat \<Rightarrow> nat) \<Rightarrow> (SpectrumXRailPoolConfig \<Rightarrow> State result) \<Rightarrow> (SpectrumXRailPoolConfig \<Rightarrow> State result) \<Rightarrow>
    ptr \<Rightarrow> string \<Rightarrow> State \<Rightarrow> string \<Rightarrow> int \<Rightarrow> mem \<Rightarrow> (report \<times> mem) option" where
  "write_report cl grow first second latest node newState message gen m = do {
     (copy, m1) \<leftarrow> Config_DeepCopy cl (Some latest) m;
     updated \<leftarrow> copy;
     u \<leftarrow> load configs updated m1;
     current \<leftarrow> GetNodeState_p (g_NodeStates (g_Status u)) node m1;
     rpc \<leftarrow> config_at m1 updated;
     case first rpc of
       Inl err \<Rightarrow> Some (Report_Error err, m1)
     | Inr agg \<Rightarrow> do {
         same \<leftarrow> report_unchanged (g_Status u) current newState message gen agg m1;
         if same then Some (Report_Unchanged updated, m1)
         else do {
           m2 \<leftarrow> set_node_state grow updated current node newState message gen m1;
           rpc2 \<leftarrow> config_at m2 updated;
           case second rpc2 of
             Inl err \<Rightarrow> Some (Report_Error err, m2)
           | Inr agg' \<Rightarrow> do {
               m3 \<leftarrow> set_sync_status updated agg' gen m2;
               (base, m4) \<leftarrow> Config_DeepCopy cl (Some latest) m3;
               b \<leftarrow> base;
               Some (Report_Patch updated b, m4)
             }
         }
       }
   }"

section \<open>Refinement\<close>

lemma scan_states_run:
  assumes "slice_ok nodeStates m s" "window nodeStates m s = Some vs"
  shows "i \<le> length vs \<Longrightarrow> scan_states s n [i..<length vs] m =
    Some (map_sum id (\<lambda>j. (sl_arr s, sl_off s + (i + j))) (GetNodeState (drop i vs) n))"
proof (induction "length vs - i" arbitrary: i)
  case (Suc d)
  then have i: "i < length vs" by simp
  with assms have "elem s i = Some (sl_arr s, sl_off s + i)" "load nodeStates (sl_arr s, sl_off s + i) m = Some (vs ! i)"
    using elem_load [OF assms] by (simp_all add: window_length)
  moreover have "drop i vs = vs ! i # drop (Suc i) vs" using i by (simp add: Cons_nth_drop_Suc)
  moreover have "[i..<length vs] = i # [Suc i..<length vs]" using i by (rule upt_conv_Cons)
  ultimately show ?case using Suc(1) [of "Suc i"] Suc(2) i
    by (cases "GetNodeState (drop (Suc i) vs) n") simp_all
qed simp

text \<open>Arrays of node states and of pool configurations are not where the metadata and the spec are found.\<close>

definition same_spec :: "mem \<Rightarrow> mem \<Rightarrow> bool" where
  "same_spec m m' \<longleftrightarrow> array strings m' = array strings m \<and> array bools m' = array bools m \<and> array int64s m' = array int64s m \<and>
     array intOrStrings m' = array intOrStrings m \<and> array mapEntries m' = array mapEntries m \<and>
     array railTopologies m' = array railTopologies m"

lemma same_specI:
  "array nodeStates m a = Some xs \<Longrightarrow> same_spec m (m[a := pack nodeStates ys])"
  "array configs m a = Some cs \<Longrightarrow> same_spec m (m[a := pack configs ds])"
  "same_spec m (m @ [pack nodeStates ys])"
  by (auto simp: same_spec_def array_def fun_eq_iff kind_defs nth_list_update nth_append split: obj.splits if_splits)

lemma same_spec_trans: "same_spec m m1 \<Longrightarrow> same_spec m1 m2 \<Longrightarrow> same_spec m m2"
  by (simp add: same_spec_def)

lemma same_spec_rd:
  assumes "same_spec m m'"
  shows "Spec_rd m' x = Spec_rd m x" "Spec_ok m' x = Spec_ok m x" "ObjectMeta_rd m' y = ObjectMeta_rd m y" "ObjectMeta_ok m' y = ObjectMeta_ok m y"
proof -
  have strs: "window strings m' = window strings m" "slice_ok strings m' = slice_ok strings m"
    "window railTopologies m' = window railTopologies m" "slice_ok railTopologies m' = slice_ok railTopologies m"
    and maps: "map_rd m' = map_rd m" "map_ok m' = map_ok m"
    and loads: "load bools p m' = load bools p m" "load intOrStrings p m' = load intOrStrings p m" "load int64s p m' = load int64s p m" for p
    using assms by (simp_all add: same_spec_def fun_eq_iff window_def slice_ok_def map_rd_def map_ok_def load_def)
  then have rails: "RailTopology_rd m' = RailTopology_rd m" "RailTopology_ok m' = RailTopology_ok m"
    by (rule_tac [!] ext) (simp_all add: RailTopology_rd_def RailTopology_ok_def NicSelector_rd_def NicSelector_ok_def opt_rd_def opt_ok_def
        split: option.split)
  then have "structs_rd railTopologies RailTopology_rd m' = structs_rd railTopologies RailTopology_rd m"
    "structs_ok railTopologies RailTopology_ok m' = structs_ok railTopologies RailTopology_ok m"
    using strs by (rule_tac [!] ext) (simp_all add: structs_rd_def structs_ok_def split: option.split)
  then show "Spec_rd m' x = Spec_rd m x" "Spec_ok m' x = Spec_ok m x" "ObjectMeta_rd m' y = ObjectMeta_rd m y" "ObjectMeta_ok m' y = ObjectMeta_ok m y"
    using strs maps loads by (simp_all add: Spec_rd_def Spec_ok_def ObjectMeta_rd_def ObjectMeta_ok_def opt_rd_def opt_ok_def split: option.split)
qed

lemma store_run:
  assumes "lawful_kind k" "load k p m = Some v"
  obtains xs where "array k m (fst p) = Some xs" "snd p < length xs" "store k p w m = Some (m[fst p := pack k (xs[snd p := w])])"
    "load k p (m[fst p := pack k (xs[snd p := w])]) = Some w"
  using assms load_present [OF assms(2)] by (auto simp: load_def store_def split: option.splits if_splits)

lemma config_store:
  assumes "load configs p m = Some u"
  obtains m' where "store configs p w m = Some m'" "load configs p m' = Some w" "same_spec m m'" "array nodeStates m' = array nodeStates m"
    "\<And>b. b \<le> fst p \<Longrightarrow> take b m' = take b m"
proof -
  from store_run [OF kinds_lawful(11) assms] obtain xs where xs: "array configs m (fst p) = Some xs"
    "store configs p w m = Some (m[fst p := pack configs (xs[snd p := w])])" "load configs p (m[fst p := pack configs (xs[snd p := w])]) = Some w"
    by metis
  have "array nodeStates (m[fst p := pack configs ys]) = array nodeStates m" for ys
    using xs(1) by (auto simp: array_def fun_eq_iff kind_defs nth_list_update split: obj.splits if_splits)
  with xs same_specI(2) [OF xs(1)] show ?thesis by (auto intro: that)
qed

text \<open>Writing the entry of a node makes the slice hold the list that \<open>put_node_state\<close> gives.\<close>

lemma append_states:
  assumes "opt_ok (slice_ok nodeStates) m so" "vs = slice_value (opt_rd (window nodeStates) m so)"
  obtains s' m' where "append_slice nodeStates zero_NodeState grow so v m = Some (s', m')" "slice_ok nodeStates m' s'"
    "window nodeStates m' s' = Some (vs @ [v])" "same_spec m m'" "array configs m' = array configs m"
    "\<And>b. \<forall>a \<in> opt_refs (\<lambda>m s. {sl_arr s}) m so. b \<le> a \<Longrightarrow> b \<le> length m \<Longrightarrow> take b m' = take b m"
proof -
  have fresh: "array configs (m @ [pack nodeStates ys]) = array configs m" for ys
    by (auto simp: array_def fun_eq_iff kind_defs nth_append split: obj.splits if_splits)
  have inplace: "array configs (m[a := pack nodeStates ys]) = array configs m" if "array nodeStates m a = Some xs" for a xs ys
    using that by (auto simp: array_def fun_eq_iff kind_defs nth_list_update split: obj.splits if_splits)
  show ?thesis
  proof (cases so)
    case None
    show ?thesis
      by (rule that [of "\<lparr>sl_arr = length m, sl_off = 0, sl_len = 1, sl_cap = Suc (grow 0)\<rparr>" "m @ [pack nodeStates (v # replicate (grow 0) zero_NodeState)]"])
        (use None assms(2) same_specI(3) fresh in \<open>simp_all add: append_slice_def slice_ok_def window_def opt_defs slice_value_def\<close>)
  next
    case (Some s)
    with assms(1) obtain xs where xs: "array nodeStates m (sl_arr s) = Some xs" "sl_len s \<le> sl_cap s" "sl_off s + sl_cap s \<le> length xs"
      "window nodeStates m s = Some (take (sl_len s) (drop (sl_off s) xs))" by (auto simp: opt_defs elim: slice_okE)
    with assms(2) Some have vs: "vs = take (sl_len s) (drop (sl_off s) xs)" by (simp add: opt_defs slice_value_def)
    show ?thesis
    proof (cases "sl_len s < sl_cap s")
      case True
      let ?i = "sl_off s + sl_len s"
      have i: "?i < length xs" using True xs(3) by simp
      have "take (Suc (sl_len s)) (drop (sl_off s) (xs[?i := v])) = vs @ [v]"
        using i by (simp add: vs drop_update_swap take_Suc_conv_app_nth)
      then show ?thesis
        by (intro that [of "s\<lparr>sl_len := Suc (sl_len s)\<rparr>" "m[sl_arr s := pack nodeStates (xs[?i := v])]"])
          (use True Some xs i array_present [OF xs(1)] same_specI(1) [OF xs(1)] inplace [OF xs(1)] in
            \<open>simp_all add: append_slice_def store_def slice_ok_def window_def opt_defs\<close>)
    next
      case False
      show ?thesis
        by (rule that [of "\<lparr>sl_arr = length m, sl_off = 0, sl_len = Suc (sl_len s), sl_cap = Suc (sl_len s) + grow (sl_len s)\<rparr>"
              "m @ [pack nodeStates (vs @ v # replicate (grow (sl_len s)) zero_NodeState)]"])
          (use Some False xs vs same_specI(3) fresh in \<open>simp_all add: append_slice_def slice_ok_def window_def opt_defs\<close>)
    qed
  qed
qed

lemma states_window:
  assumes "slice_ok nodeStates m s" "window nodeStates m s = Some vs" "GetNodeState vs n = Inr j"
  obtains m' where "store nodeStates (sl_arr s, sl_off s + j) w m = Some m'" "window nodeStates m' s = Some (vs[j := w])"
    "slice_ok nodeStates m' s" "load nodeStates (sl_arr s, sl_off s + j) m = Some (vs ! j)" "same_spec m m'"
    "array configs m' = array configs m" "\<And>b. b \<le> sl_arr s \<Longrightarrow> take b m' = take b m"
proof -
  have j: "j < length vs" "j < sl_len s" using GetNodeState_Inr [OF assms(3)] window_length [OF assms(2)] by simp_all
  from assms(1,2) obtain xs where xs: "array nodeStates m (sl_arr s) = Some xs" "sl_len s \<le> sl_cap s" "sl_off s + sl_cap s \<le> length xs"
    "vs = take (sl_len s) (drop (sl_off s) xs)" by (auto elim!: slice_okE)
  let ?m' = "m[sl_arr s := pack nodeStates (xs[sl_off s + j := w])]"
  have "array configs ?m' = array configs m"
    using xs(1) by (auto simp: array_def fun_eq_iff kind_defs nth_list_update split: obj.splits if_splits)
  moreover have "take (sl_len s) (drop (sl_off s) (xs[sl_off s + j := w])) = vs[j := w]"
    using j(2) by (simp add: xs(4) drop_update_swap take_update_swap)
  ultimately show ?thesis
    by (intro that [of ?m'])
      (use j xs array_present [OF xs(1)] same_specI(1) [OF xs(1)] elem_load(2) [OF assms(1,2) j(2)] in
        \<open>simp_all add: store_def window_def slice_ok_def\<close>)
qed

text \<open>The object that \<open>p\<close> points to, with what it is worth.\<close>

definition holds :: "mem \<Rightarrow> ptr \<Rightarrow> Config_m \<Rightarrow> ObjectMeta_v \<Rightarrow> Spec_v \<Rightarrow> NodeState list \<Rightarrow> bool" where
  "holds m p u om sp vs \<longleftrightarrow> load configs p m = Some u \<and> Config_ok m u \<and> ObjectMeta_rd m (g_ObjectMeta u) = om \<and>
     Spec_rd m (g_Spec u) = sp \<and> slice_value (opt_rd (window nodeStates) m (g_NodeStates (g_Status u))) = vs"

lemma config_at_holds:
  "holds m p u om sp vs \<Longrightarrow> config_at m p = Some \<lparr>rpc_Name = g_Name om, rpc_Namespace = g_Namespace om,
     rpc_ResourceVersion = g_ResourceVersion om, Generation = g_Generation om, DeletionTimestamp = Option.bind (g_DeletionTimestamp om) id,
     Finalizers = slice_value (g_Finalizers om), rpc_Spec = Spec_value sp,
     rpc_Status = \<lparr>SyncStatus = g_SyncStatus (g_Status u), NodeStates = vs, ObservedGeneration = g_ObservedGeneration (g_Status u)\<rparr>\<rparr>"
  by (auto simp: holds_def config_at_def struct_rd_def Config_rd_def Config_value_def Let_def Status_rd_def Status_value_def)

lemma GetNodeState_p_run:
  assumes "holds m p u om sp vs"
  shows "GetNodeState_p (g_NodeStates (g_Status u)) n m =
    Some (map_sum id (\<lambda>j. (sl_arr (the (g_NodeStates (g_Status u))), sl_off (the (g_NodeStates (g_Status u))) + j)) (GetNodeState vs n))"
proof -
  let ?so = "g_NodeStates (g_Status u)"
  have u: "opt_ok (slice_ok nodeStates) m ?so" "vs = slice_value (opt_rd (window nodeStates) m ?so)"
    using assms(1) by (auto simp: holds_def Config_ok_def Status_ok_def)
  show ?thesis
  proof (cases ?so)
    case (Some s)
    with u have "slice_ok nodeStates m s" "window nodeStates m s = Some vs" by (auto simp: opt_defs slice_value_def elim: slice_okE)
    from scan_states_run [OF this, of 0 n] window_length [OF this(2)] Some show ?thesis by (simp add: GetNodeState_p_def)
  qed (use u(2) in \<open>simp add: GetNodeState_p_def opt_defs slice_value_def\<close>)
qed

lemma report_unchanged_run:
  assumes "holds m p u om sp vs" "GetNodeState_p (g_NodeStates (g_Status u)) n m = Some current" "config_at m p = Some rpc"
  shows "report_unchanged (g_Status u) current st msg gen agg m = Some (status_unchanged rpc n st msg gen agg)"
proof -
  let ?so = "g_NodeStates (g_Status u)"
  have u: "opt_ok (slice_ok nodeStates) m ?so" "vs = slice_value (opt_rd (window nodeStates) m ?so)"
    using assms(1) by (auto simp: holds_def Config_ok_def Status_ok_def)
  have rpc: "NodeStates (rpc_Status rpc) = vs" "SyncStatus (rpc_Status rpc) = g_SyncStatus (g_Status u)"
    "ObservedGeneration (rpc_Status rpc) = g_ObservedGeneration (g_Status u)"
    using config_at_holds [OF assms(1)] assms(3) by auto
  show ?thesis
  proof (cases "GetNodeState vs n")
    case (Inr j)
    then obtain s where s: "?so = Some s" "slice_ok nodeStates m s" "window nodeStates m s = Some vs"
      using u by (cases ?so) (auto simp: opt_defs slice_value_def elim: slice_okE)
    from states_window [OF s(2,3) Inr] have "load nodeStates (sl_arr s, sl_off s + j) m = Some (vs ! j)" by metis
    with Inr s assms(2) GetNodeState_p_run [OF assms(1), of n] rpc show ?thesis
      by (auto simp: report_unchanged_def status_unchanged_def node_state_def)
  qed (use assms(2) GetNodeState_p_run [OF assms(1), of n] rpc in \<open>auto simp: report_unchanged_def status_unchanged_def node_state_def\<close>)
qed

lemma set_node_state_run:
  assumes "holds m p u om sp vs" "GetNodeState_p (g_NodeStates (g_Status u)) n m = Some current" "b \<le> fst p" "\<forall>a \<in> Status_refs m (g_Status u). b \<le> a"
  obtains m' u' where "set_node_state grow p current n st msg gen m = Some m'" "holds m' p u' om sp (put_node_state vs n st msg gen)"
    "g_TypeMeta u' = g_TypeMeta u" "g_SyncStatus (g_Status u') = g_SyncStatus (g_Status u)"
    "g_ObservedGeneration (g_Status u') = g_ObservedGeneration (g_Status u)" "take b m' = take b m"
proof -
  let ?so = "g_NodeStates (g_Status u)"
  have u: "load configs p m = Some u" "ObjectMeta_ok m (g_ObjectMeta u)" "Spec_ok m (g_Spec u)" "opt_ok (slice_ok nodeStates) m ?so"
    "ObjectMeta_rd m (g_ObjectMeta u) = om" "Spec_rd m (g_Spec u) = sp" "vs = slice_value (opt_rd (window nodeStates) m ?so)"
    using assms(1) by (auto simp: holds_def Config_ok_def Status_ok_def)
  have b: "b \<le> length m" using load_present [OF u(1)] assms(3) by simp
  note get = GetNodeState_p_run [OF assms(1), of n, unfolded assms(2), THEN option.inject [THEN iffD1]]
  show ?thesis
  proof (cases "GetNodeState vs n")
    case (Inr j)
    then obtain s where s: "?so = Some s" "slice_ok nodeStates m s" "window nodeStates m s = Some vs"
      using u(4,7) by (cases ?so) (auto simp: opt_defs slice_value_def elim: slice_okE)
    from states_window [OF s(2,3) Inr, of "(vs ! j)\<lparr>ns_State := st, ns_Message := msg, ns_ObservedGeneration := gen\<rparr>"]
    obtain m' where m': "store nodeStates (sl_arr s, sl_off s + j) ((vs ! j)\<lparr>ns_State := st, ns_Message := msg, ns_ObservedGeneration := gen\<rparr>) m = Some m'"
      "window nodeStates m' s = Some (put_node_state vs n st msg gen)" "slice_ok nodeStates m' s"
      "load nodeStates (sl_arr s, sl_off s + j) m = Some (vs ! j)" "same_spec m m'" "array configs m' = array configs m"
      "\<And>b. b \<le> sl_arr s \<Longrightarrow> take b m' = take b m"
      unfolding put_node_state_def Inr sum.case by metis
    show ?thesis
    proof (rule that [of m' u])
      show "set_node_state grow p current n st msg gen m = Some m'" using u(1) get Inr s(1) m'(1,4) by (simp add: set_node_state_def)
      show "holds m' p u om sp (put_node_state vs n st msg gen)"
        using u s m' by (simp add: holds_def Config_ok_def Status_ok_def same_spec_rd [OF m'(5)] load_def opt_defs slice_value_def)
      show "take b m' = take b m" using assms(4) s(1) by (intro m'(7)) (simp add: Status_refs_def opt_defs)
    qed simp_all
  next
    case (Inl e)
    let ?v = "\<lparr>ns_Name = n, ns_State = st, ns_ObservedGeneration = gen, ns_Message = msg\<rparr>"
    from append_states [OF u(4,7), of grow ?v] obtain s' m1 where s': "append_slice nodeStates zero_NodeState grow ?so ?v m = Some (s', m1)"
      "slice_ok nodeStates m1 s'" "window nodeStates m1 s' = Some (vs @ [?v])" "same_spec m m1" "array configs m1 = array configs m"
      "take b m1 = take b m" using assms(4) b by (metis Status_refs_def)
    let ?u' = "u\<lparr>g_Status := (g_Status u)\<lparr>g_NodeStates := Some s'\<rparr>\<rparr>"
    have "load configs p m1 = Some u" using u(1) s'(5) by (simp add: load_def)
    from config_store [OF this, of ?u'] obtain m' where m': "store configs p ?u' m1 = Some m'" "load configs p m' = Some ?u'" "same_spec m1 m'"
      "array nodeStates m' = array nodeStates m1" "take b m' = take b m1" using assms(3) by metis
    note same = same_spec_trans [OF s'(4) m'(3)]
    have "slice_ok nodeStates m' s'" "window nodeStates m' s' = Some (put_node_state vs n st msg gen)"
      using s'(2,3) m'(4) Inl by (simp_all add: slice_ok_def window_def put_node_state_def)
    then have "holds m' p ?u' om sp (put_node_state vs n st msg gen)"
      using u m'(2) by (simp add: holds_def Config_ok_def Status_ok_def same_spec_rd [OF same] opt_defs slice_value_def)
    moreover have "set_node_state grow p current n st msg gen m = Some m'"
      using u(1) get Inl s'(1) m'(1) by (simp add: set_node_state_def)
    ultimately show ?thesis using m'(5) s'(6) by (intro that [of m' ?u']) simp_all
  qed
qed

lemma holdsI: "load configs p m = Some u \<Longrightarrow> Config_ok m u \<Longrightarrow>
   holds m p u (ObjectMeta_rd m (g_ObjectMeta u)) (Spec_rd m (g_Spec u)) (slice_value (g_NodeStates (Status_rd m (g_Status u))))"
  by (simp add: holds_def Status_rd_def)

lemma set_sync_status_run:
  assumes "holds m p u om sp vs" "b \<le> fst p"
  obtains m' u' where "set_sync_status p agg gen m = Some m'" "holds m' p u' om sp vs" "g_SyncStatus (g_Status u') = agg"
    "g_ObservedGeneration (g_Status u') = gen" "take b m' = take b m"
proof -
  have u: "load configs p m = Some u" using assms(1) by (simp add: holds_def)
  let ?u' = "u\<lparr>g_Status := (g_Status u)\<lparr>g_SyncStatus := agg, g_ObservedGeneration := gen\<rparr>\<rparr>"
  from config_store [OF u, of ?u'] obtain m' where m': "store configs p ?u' m = Some m'" "load configs p m' = Some ?u'" "same_spec m m'"
    "array nodeStates m' = array nodeStates m" "take b m' = take b m" using assms(2) by metis
  have "slice_ok nodeStates m' = slice_ok nodeStates m" "window nodeStates m' = window nodeStates m"
    using m'(4) by (simp_all add: fun_eq_iff slice_ok_def window_def)
  then have "holds m' p ?u' om sp vs"
    using assms(1) m'(2) by (simp add: holds_def Config_ok_def Status_ok_def same_spec_rd [OF m'(3)] opt_rd_def opt_ok_def
        split: option.splits)
  with m' u show ?thesis by (intro that [of m' ?u']) (simp_all add: set_sync_status_def)
qed

context copy_library
begin

lemma copy_at:
  assumes "struct_ok configs Config_ok m p"
  obtains q l u where "Config_DeepCopy cl (Some p) m = Some (Some q, m @ l)" "struct_ok configs Config_ok (m @ l) q"
    "load configs q (m @ l) = Some u" "Config_ok (m @ l) u" "config_at (m @ l) q = config_at m p"
    "length m \<le> fst q" "\<forall>a \<in> Config_refs (m @ l) u. length m \<le> a"
proof -
  from configs.copies [of m "Some p"] assms obtain y l where y: "Config_DeepCopy cl (Some p) m = Some (y, m @ l)"
    "copied (opt_rd (struct_rd configs Config_rd)) (opt_refs (struct_refs configs Config_refs)) (opt_ok (struct_ok configs Config_ok)) m (Some p) (m @ l) y"
    by (auto simp: opt_ok_def copied_def)
  then obtain q where q: "y = Some q" "struct_ok configs Config_ok (m @ l) q" by (cases y) (auto simp: copied_def opt_defs)
  then obtain u where u: "load configs q (m @ l) = Some u" "Config_ok (m @ l) u" by (auto simp: struct_ok_def split: option.splits)
  with y q show ?thesis
    by (intro that [of q l u]) (auto simp: copied_def opt_defs config_at_def struct_refs_def)
qed

lemma config_at_append: "struct_ok configs Config_ok m p \<Longrightarrow> config_at (m @ l) p = config_at m p \<and> struct_ok configs Config_ok (m @ l) p"
  using configs.local_rd [of m "Some p" "m @ l"] configs.local_ok [of m "Some p" "m @ l"] by (simp add: opt_defs config_at_def)

lemma patch_base:
  assumes "struct_ok configs Config_ok m p" "config_at m p = Some rpc" "take (length m) m3 = m"
    and "struct_ok configs Config_ok m3 q" "config_at m3 q = Some v"
  obtains base l where "Config_DeepCopy cl (Some p) m3 = Some (Some base, m @ l)" "config_at (m @ l) base = Some rpc"
    "config_at (m @ l) q = Some v"
proof -
  obtain l3 where l3: "m3 = m @ l3" using assms(3) by (metis append_take_drop_id)
  have "struct_ok configs Config_ok m3 p" "config_at m3 p = Some rpc" using config_at_append [OF assms(1), of l3] l3 assms(2) by simp_all
  with copy_at obtain base l4 where "Config_DeepCopy cl (Some p) m3 = Some (Some base, m3 @ l4)" "config_at (m3 @ l4) base = Some rpc"
    by metis
  with config_at_append [OF assms(4), of l4] l3 assms(5) show ?thesis by (intro that [of base "l3 @ l4"]) auto
qed

lemma write_report_run:
  assumes "struct_ok configs Config_ok m p" "config_at m p = Some rpc"
    and "mid = with_node_state rpc n st msg gen"
  shows "\<exists>res l. write_report cl grow first second p n st msg gen m = Some (res, m @ l) \<and>
    (case first rpc of
       Inl err \<Rightarrow> res = Report_Error err
     | Inr agg \<Rightarrow>
         if status_unchanged rpc n st msg gen agg then \<exists>q. res = Report_Unchanged q \<and> config_at (m @ l) q = Some rpc
         else (case second mid of
             Inl err \<Rightarrow> res = Report_Error err
           | Inr agg' \<Rightarrow> \<exists>q base. res = Report_Patch q base \<and> config_at (m @ l) q = Some (with_sync_status mid agg' gen) \<and>
               config_at (m @ l) base = Some rpc))"
proof -
  from copy_at [OF assms(1)] obtain q l u where q: "Config_DeepCopy cl (Some p) m = Some (Some q, m @ l)"
    "load configs q (m @ l) = Some u" "Config_ok (m @ l) u" "config_at (m @ l) q = Some rpc" "length m \<le> fst q"
    "\<forall>a \<in> Config_refs (m @ l) u. length m \<le> a" using assms(2) by metis
  let ?om = "ObjectMeta_rd (m @ l) (g_ObjectMeta u)" and ?sp = "Spec_rd (m @ l) (g_Spec u)"
    and ?vs = "slice_value (g_NodeStates (Status_rd (m @ l) (g_Status u)))"
  note h1 = holdsI [OF q(2,3)]
  note rpc = config_at_holds [OF h1, unfolded q(4), THEN option.inject [THEN iffD1]]
  obtain current where current: "GetNodeState_p (g_NodeStates (g_Status u)) n (m @ l) = Some current"
    using GetNodeState_p_run [OF h1] by blast
  have refs: "\<forall>a \<in> Status_refs (m @ l) (g_Status u). length m \<le> a" using q(6) by (simp add: Config_refs_def)
  from set_node_state_run [OF h1 current q(5) refs, of grow st msg gen] obtain m2 u2 where
    m2: "set_node_state grow q current n st msg gen (m @ l) = Some m2" "holds m2 q u2 ?om ?sp (put_node_state ?vs n st msg gen)"
      "g_SyncStatus (g_Status u2) = g_SyncStatus (g_Status u)" "g_ObservedGeneration (g_Status u2) = g_ObservedGeneration (g_Status u)"
      "take (length m) m2 = m" by (metis append_eq_conv_conj)
  have mid: "config_at m2 q = Some mid"
    using config_at_holds [OF m2(2)] m2(3,4) by (simp add: assms(3) rpc with_node_state_def)
  note same = report_unchanged_run [OF h1 current q(4), of st msg gen]
  have start: "write_report cl grow first second p n st msg gen m = (case first rpc of Inl err \<Rightarrow> Some (Report_Error err, m @ l)
     | Inr agg \<Rightarrow> if status_unchanged rpc n st msg gen agg then Some (Report_Unchanged q, m @ l)
         else (case second mid of Inl err \<Rightarrow> Some (Report_Error err, m2)
           | Inr agg' \<Rightarrow> do { m3 \<leftarrow> set_sync_status q agg' gen m2; (base, m4) \<leftarrow> Config_DeepCopy cl (Some p) m3;
                b \<leftarrow> base; Some (Report_Patch q b, m4) }))"
    using q(1,2,4) current same m2(1) mid by (simp add: write_report_def split: sum.split)
  have patch: "\<exists>b l. do { m3 \<leftarrow> set_sync_status q agg' gen m2; (base, m4) \<leftarrow> Config_DeepCopy cl (Some p) m3; b \<leftarrow> base; Some (Report_Patch q b, m4) } =
      Some (Report_Patch q b, m @ l) \<and> config_at (m @ l) q = Some (with_sync_status mid agg' gen) \<and> config_at (m @ l) b = Some rpc" for agg'
  proof -
    from set_sync_status_run [OF m2(2) q(5), of agg' gen] m2(5) obtain m3 u3 where
      m3: "set_sync_status q agg' gen m2 = Some m3" "holds m3 q u3 ?om ?sp (put_node_state ?vs n st msg gen)"
        "g_SyncStatus (g_Status u3) = agg'" "g_ObservedGeneration (g_Status u3) = gen" "take (length m) m3 = m" by metis
    have upd: "config_at m3 q = Some (with_sync_status mid agg' gen)" "struct_ok configs Config_ok m3 q"
      using config_at_holds [OF m3(2)] m3(2-4)
      by (simp_all add: assms(3) rpc with_node_state_def with_sync_status_def holds_def struct_ok_def)
    obtain b l4 where "Config_DeepCopy cl (Some p) m3 = Some (Some b, m @ l4)" "config_at (m @ l4) b = Some rpc"
      "config_at (m @ l4) q = Some (with_sync_status mid agg' gen)" by (rule patch_base [OF assms(1,2) m3(5) upd(2,1)])
    with m3(1) show ?thesis by auto
  qed
  obtain l2 where "m2 = m @ l2" using m2(5) by (metis append_take_drop_id)
  with start patch q(4) show ?thesis
    by (cases "first rpc"; cases "second mid") (simp_all del: split_paired_Ex, blast+)
qed

end

section \<open>Properties\<close>

text \<open>
  Property C7. The write of a status report in memory, through pointers and shared slices, computes the functions with which
  \<open>sync_attempt\<close> describes it, on every branch: it fails if an aggregation fails, sends nothing exactly if the report is already
  there, and otherwise the object that is sent is the one that was read with the entry of the node and the overall status
  replaced, whatever spare capacity slices have. The base of the patch is the object as it was read, so the patch contains every change.
  The object that was read, and all the memory that was there before, are unchanged.
\<close>

theorem write_report_refines:
  assumes "copy_library cl" "struct_ok configs Config_ok m latest" "config_at m latest = Some rpc"
    and "mid = with_node_state rpc node newState message gen"
  shows "\<exists>res l. write_report cl grow first second latest node newState message gen m = Some (res, m @ l) \<and>
    config_at (m @ l) latest = Some rpc \<and>
    (case first rpc of
       Inl err \<Rightarrow> res = Report_Error err
     | Inr agg \<Rightarrow>
         if status_unchanged rpc node newState message gen agg
         then \<exists>updated. res = Report_Unchanged updated \<and> config_at (m @ l) updated = Some rpc
         else (case second mid of
             Inl err \<Rightarrow> res = Report_Error err
           | Inr agg' \<Rightarrow> \<exists>updated base. res = Report_Patch updated base \<and>
               config_at (m @ l) updated = Some (with_sync_status mid agg' gen) \<and> config_at (m @ l) base = Some rpc))"
  using copy_library.write_report_run [OF assms, of grow first second] copy_library.config_at_append [OF assms(1,2)] assms(3) by auto

theorem write_report_refines_witness:
  "\<exists>updated base m'. write_report demo_copy_lib (\<lambda>n. n) (\<lambda>x. Inr ''Succeeded'') (\<lambda>x. Inr ''Succeeded'') (0, 1) ''node'' ''Succeeded'' [] 1 demo_mem =
       Some (Report_Patch updated base, m') \<and>
     map_option (\<lambda>x. ns_State (NodeStates (rpc_Status x) ! 0)) (config_at m' updated) = Some ''Succeeded'' \<and>
     map_option (\<lambda>x. ns_State (NodeStates (rpc_Status x) ! 0)) (config_at m' base) = Some []"
proof -
  obtain rpc where rpc: "config_at demo_mem (0, 1) = Some rpc" "NodeStates (rpc_Status rpc) = [zero_NodeState\<lparr>ns_Name := ''node''\<rparr>]"
    by (simp add: config_at_def struct_rd_def demo_load Config_value_def Let_def Config_rd_def Status_rd_def Status_value_def opt_rd_def)
      (simp add: demo_mem_simps window_def array_def kind_defs slice_value_def)
  have ok: "struct_ok configs Config_ok demo_mem (0, 1)" by (simp add: struct_ok_def demo_load demo_config_ok)
  have "\<not> status_unchanged rpc ''node'' ''Succeeded'' [] 1 ''Succeeded''"
    by (simp add: status_unchanged_def rpc(2) node_state_def zero_NodeState_def)
  with write_report_refines [OF democl.copy_library_axioms ok rpc(1) refl, of "\<lambda>n. n" "\<lambda>x. Inr ''Succeeded''" "\<lambda>x. Inr ''Succeeded''"
      "''node''" "''Succeeded''" "[]" 1]
  obtain u b l where "write_report demo_copy_lib (\<lambda>n. n) (\<lambda>x. Inr ''Succeeded'') (\<lambda>x. Inr ''Succeeded'') (0, 1) ''node'' ''Succeeded'' [] 1 demo_mem =
      Some (Report_Patch u b, demo_mem @ l)"
    "config_at (demo_mem @ l) u = Some (with_sync_status (with_node_state rpc ''node'' ''Succeeded'' [] 1) ''Succeeded'' 1)"
    "config_at (demo_mem @ l) b = Some rpc"
    by auto
  then show ?thesis by (simp add: rpc(2) put_node_state_def zero_NodeState_def)
qed

end
