(* ===== verification/Watches.thy ===== *)
theory Watches
  imports Rail_Reconciler
begin

text \<open>
  The functions that turn events on other objects into requests to reconcile pools:
  \<open>ListRailPoolConfigsForNode\<close> and \<open>cidrPoolToRailConfigs\<close> of
  \<^verbatim>\<open>spectrumxrailpoolconfig_host_flows_controller.go\<close>, and \<open>flowcontrollerToRailConfigs\<close> of
  \<^verbatim>\<open>xplane_tolerations.go\<close>. A request is the key of a pool.
\<close>

definition key_of :: "SpectrumXRailPoolConfig \<Rightarrow> nsname" where
  "key_of rpc = (rpc_Namespace rpc, rpc_Name rpc)"

section \<open>CIDR pools\<close>

text \<open>The inner loop: it stops at the first rail that refers to the pool.\<close>

fun refers_to :: "string \<Rightarrow> RailTopology list \<Rightarrow> bool" where
  "refers_to pool [] = False"
| "refers_to pool (rt # rts) = (if CidrPoolRef rt = pool then True else refers_to pool rts)"

fun cidr_requests :: "string \<Rightarrow> SpectrumXRailPoolConfig list \<Rightarrow> nsname list \<Rightarrow> nsname list" where
  "cidr_requests pool [] requests = requests"
| "cidr_requests pool (rpc # items) requests =
     cidr_requests pool items
       (if refers_to pool (RailTopologies (rpc_Spec rpc)) then requests @ [key_of rpc] else requests)"

definition cidrPoolToRailConfigs :: "'w HostReconciler \<Rightarrow> nsname \<Rightarrow> ('w, nsname list) op" where
  "cidrPoolToRailConfigs r obj = do {
     got \<leftarrow> observe (list_RailPoolConfigs (kube r) (Some (fst obj)));
     case got of
       Inl err \<Rightarrow> State_Monad.return []
     | Inr items \<Rightarrow> State_Monad.return (cidr_requests (snd obj) items [])
   }"

section \<open>Nodes\<close>

fun rail_requests :: "'w Client \<Rightarrow> 'w Lib \<Rightarrow> Node \<Rightarrow> SpectrumXRailPoolConfig \<Rightarrow> RailTopology list \<Rightarrow> nsname list
    \<Rightarrow> ('w, nsname list) op" where
  "rail_requests c lb node rpc [] requests = State_Monad.return requests"
| "rail_requests c lb node rpc (rt # rts) requests = do {
     got \<leftarrow> observe (get_NodePolicy c (rpc_Namespace rpc, rt_Name rt));
     case got of
       Inl err \<Rightarrow> rail_requests c lb node rpc rts requests
     | Inr snnp \<Rightarrow>
         rail_requests c lb node rpc rts
           (if labels_Matches lb (np_NodeSelector snnp) (node_Labels node) then requests @ [key_of rpc] else requests)
   }"

fun pool_requests :: "'w Client \<Rightarrow> 'w Lib \<Rightarrow> Node \<Rightarrow> SpectrumXRailPoolConfig list \<Rightarrow> nsname list
    \<Rightarrow> ('w, nsname list) op" where
  "pool_requests c lb node [] requests = State_Monad.return requests"
| "pool_requests c lb node (rpc # items) requests = do {
     requests \<leftarrow> rail_requests c lb node rpc (RailTopologies (rpc_Spec rpc)) requests;
     pool_requests c lb node items requests
   }"

definition ListRailPoolConfigsForNode :: "'w Client \<Rightarrow> 'w Lib \<Rightarrow> string \<Rightarrow> ('w, nsname list) op" where
  "ListRailPoolConfigsForNode c lb name = do {
     got \<leftarrow> observe (get_Node c name);
     case got of
       Inl err \<Rightarrow> State_Monad.return []
     | Inr node \<Rightarrow> do {
         got \<leftarrow> observe (list_RailPoolConfigs c None);
         case got of
           Inl err \<Rightarrow> State_Monad.return []
         | Inr items \<Rightarrow> pool_requests c lb node items []
       }
   }"

section \<open>The agent's DaemonSet\<close>

fun has_multiplane :: "RailTopology list \<Rightarrow> bool" where
  "has_multiplane [] = False"
| "has_multiplane (rt # rts) = (if length (pf_names rt) > 1 then True else has_multiplane rts)"

fun multiplane_requests :: "SpectrumXRailPoolConfig list \<Rightarrow> nsname list \<Rightarrow> nsname list" where
  "multiplane_requests [] requests = requests"
| "multiplane_requests (pool # pools) requests =
     multiplane_requests pools
       (if has_multiplane (RailTopologies (rpc_Spec pool)) then requests @ [key_of pool] else requests)"

definition flowcontrollerToRailConfigs :: "'w HostReconciler \<Rightarrow> DaemonSet \<Rightarrow> ('w, nsname list) op" where
  "flowcontrollerToRailConfigs r obj =
     (if ds_Namespace obj \<noteq> fst (ownPod r) then State_Monad.return []
      else do {
        own \<leftarrow> flowcontrollerOwner r;
        case own of
          Inl err \<Rightarrow> State_Monad.return []
        | Inr owner \<Rightarrow>
            if ds_Name obj \<noteq> or_Name owner \<or> ds_UID obj \<noteq> or_UID owner then State_Monad.return []
            else do {
              got \<leftarrow> observe (list_RailPoolConfigs (kube r) None);
              case got of
                Inl err \<Rightarrow> State_Monad.return []
              | Inr pools \<Rightarrow> State_Monad.return (multiplane_requests pools [])
            }
      })"

section \<open>The loops\<close>

lemma refers_to_iff: "refers_to pool rts \<longleftrightarrow> (\<exists>rt \<in> set rts. CidrPoolRef rt = pool)"
  by (induction rts) auto

lemma has_multiplane_iff: "has_multiplane rts \<longleftrightarrow> (\<exists>rt \<in> set rts. length (pf_names rt) > 1)"
  by (induction rts) auto

lemma cidr_requests_eq:
  "cidr_requests pool items acc =
   acc @ map key_of (filter (\<lambda>rpc. \<exists>rt \<in> set (RailTopologies (rpc_Spec rpc)). CidrPoolRef rt = pool) items)"
  by (induction items arbitrary: acc) (auto simp: refers_to_iff)

lemma multiplane_requests_eq:
  "multiplane_requests pools acc =
   acc @ map key_of (filter (\<lambda>rpc. \<exists>rt \<in> set (RailTopologies (rpc_Spec rpc)). length (pf_names rt) > 1) pools)"
  by (induction pools arbitrary: acc) (auto simp: has_multiplane_iff)

text \<open>The policies do not change while the loop reads them.\<close>

definition stable_policies :: "'w Client \<Rightarrow> (nsname \<Rightarrow> SriovNetworkNodePolicy result) \<Rightarrow> bool" where
  "stable_policies c pol \<longleftrightarrow> (\<forall>key w. get_NodePolicy c key w = (pol key, w))"

definition rail_selects :: "'w Lib \<Rightarrow> (nsname \<Rightarrow> SriovNetworkNodePolicy result) \<Rightarrow> Node \<Rightarrow> SpectrumXRailPoolConfig
    \<Rightarrow> RailTopology \<Rightarrow> bool" where
  "rail_selects lb pol node rpc rt =
     (case pol (rpc_Namespace rpc, rt_Name rt) of
        Inl _ \<Rightarrow> False
      | Inr p \<Rightarrow> labels_Matches lb (np_NodeSelector p) (node_Labels node))"

lemma rail_requests_run:
  "stable_policies c pol \<Longrightarrow>
   run_state (rail_requests c lb node rpc rts acc) s =
   (acc @ map (\<lambda>_. key_of rpc) (filter (rail_selects lb pol node rpc) rts), s)"
  by (induction rts arbitrary: acc s)
    (auto simp: stable_policies_def rail_selects_def split: sum.splits)

lemma pool_requests_run:
  assumes "stable_policies c pol"
  shows "run_state (pool_requests c lb node items acc) s =
    (acc @ concat (map (\<lambda>rpc. map (\<lambda>_. key_of rpc)
        (filter (rail_selects lb pol node rpc) (RailTopologies (rpc_Spec rpc)))) items), s)"
  by (induction items arbitrary: acc s) (auto simp: rail_requests_run [OF assms])

section \<open>The requests of each function\<close>

text \<open>
  A change of a CIDR pool requests exactly the pools of its namespace that have a
  rail referring to it, each once and in the order in which they are listed.
\<close>

lemma cidrPoolToRailConfigs_exact:
  assumes "list_RailPoolConfigs (kube r) (Some ns) (env s) = (Inr items, w')"
  shows "run_state (cidrPoolToRailConfigs r (ns, pool)) s =
    (map key_of (filter (\<lambda>rpc. \<exists>rt \<in> set (RailTopologies (rpc_Spec rpc)). CidrPoolRef rt = pool) items), s\<lparr>env := w'\<rparr>)"
  using assms by (simp add: cidrPoolToRailConfigs_def cidr_requests_eq)

text \<open>
  An event on the agent's node requests exactly those pools of which at least one
  rail has a policy that selects the node; rails whose policy cannot be read are passed over.
\<close>

lemma ListRailPoolConfigsForNode_exact:
  assumes "stable_policies c pol"
    and "get_Node c name (env s) = (Inr node, w1)" "list_RailPoolConfigs c None w1 = (Inr items, w2)"
  shows "set (fst (run_state (ListRailPoolConfigsForNode c lb name) s)) =
    {key_of rpc | rpc rt. rpc \<in> set items \<and> rt \<in> set (RailTopologies (rpc_Spec rpc)) \<and> rail_selects lb pol node rpc rt}"
  using assms(2,3) by (auto simp: ListRailPoolConfigsForNode_def pool_requests_run [OF assms(1)])

text \<open>
  A change of a DaemonSet requests something only if it is the DaemonSet that
  controls the agent's own pod, and then exactly the pools with a multiplane rail, each once.
\<close>

lemma flowcontrollerToRailConfigs_exact:
  assumes "get_Pod (kube r) (ownPod r) (env s) = (Inr pod, w1)" "GetControllerOf (lib r) pod = Some owner"
    and "or_APIVersion owner = ''apps/v1''" "or_Kind owner = ''DaemonSet''" "or_Name owner \<noteq> []" "or_UID owner \<noteq> []"
    and "fst (ownPod r) \<noteq> []" "snd (ownPod r) \<noteq> []" "list_RailPoolConfigs (kube r) None w1 = (Inr pools, w2)"
  shows "fst (run_state (flowcontrollerToRailConfigs r obj) s) =
    (if ds_Namespace obj = fst (ownPod r) \<and> ds_Name obj = or_Name owner \<and> ds_UID obj = or_UID owner
     then map key_of (filter (\<lambda>rpc. \<exists>rt \<in> set (RailTopologies (rpc_Spec rpc)). length (pf_names rt) > 1) pools)
     else [])"
  using assms by (auto simp: flowcontrollerToRailConfigs_def flowcontrollerOwner_def Let_def multiplane_requests_eq)

end
