(* ===== verification/Controllers.thy ===== *)
theory Controllers
  imports Watches Flow_Controller
begin

text \<open>
  How events reach the reconcilers: the two functions \<open>SetupWithManager\<close>, of
  \<^verbatim>\<open>flow_controller.go\<close> and of \<^verbatim>\<open>spectrumxrailpoolconfig_host_flows_controller.go\<close>, and
  \<open>flowcontrollerTolerationsChanged\<close> of \<^verbatim>\<open>xplane_tolerations.go\<close>. What they register is a value, a
  controller with its watches. How controller-runtime combines predicates and delivers events
  is not in the repository: it is the contract \<open>event_delivery\<close>.
\<close>

section \<open>Objects and events\<close>

text \<open>Of a watched object the part that predicates and mapping functions look at.\<close>

datatype Object =
    PodObject Pod
  | NodeObject Node
  | NodeStateObject nsname
  | CIDRPoolObject nsname int
  | DaemonSetObject DaemonSet
  | RailPoolObject SpectrumXRailPoolConfig

datatype Kind = PodKind | NodeKind | NodeStateKind | CIDRPoolKind | DaemonSetKind | RailPoolKind

fun kind_of :: "Object \<Rightarrow> Kind" where
  "kind_of (PodObject _) = PodKind"
| "kind_of (NodeObject _) = NodeKind"
| "kind_of (NodeStateObject _) = NodeStateKind"
| "kind_of (CIDRPoolObject _ _) = CIDRPoolKind"
| "kind_of (DaemonSetObject _) = DaemonSetKind"
| "kind_of (RailPoolObject _) = RailPoolKind"

fun object_key :: "Object \<Rightarrow> nsname" where
  "object_key (PodObject p) = (pod_Namespace p, pod_Name p)"
| "object_key (NodeObject n) = ([], node_Name n)"
| "object_key (NodeStateObject k) = k"
| "object_key (CIDRPoolObject k _) = k"
| "object_key (DaemonSetObject d) = (ds_Namespace d, ds_Name d)"
| "object_key (RailPoolObject rpc) = key_of rpc"

datatype watch_event = CreateEvent Object | UpdateEvent Object Object | DeleteEvent Object | GenericEvent Object

fun event_objects :: "watch_event \<Rightarrow> Object list" where
  "event_objects (CreateEvent x) = [x]"
| "event_objects (UpdateEvent x y) = [x, y]"
| "event_objects (DeleteEvent x) = [x]"
| "event_objects (GenericEvent x) = [x]"

definition newest :: "watch_event \<Rightarrow> Object" where
  "newest ev = last (event_objects ev)"

lemma newest_simps [simp]:
  "newest (CreateEvent x) = x" "newest (UpdateEvent x y) = y" "newest (DeleteEvent x) = x"
  "newest (GenericEvent x) = x"
  by (simp_all add: newest_def)

section \<open>Predicates and handlers of controller-runtime\<close>

type_synonym Predicate = "watch_event \<Rightarrow> bool"

text \<open>
  \<open>predicate_Funcs f g\<close> is \<open>predicate.Funcs\<close> in which \<open>UpdateFunc\<close> is \<open>f\<close>, \<open>GenericFunc\<close> is \<open>g\<close>, and those for
  creation and deletion are not set.
\<close>

record Predicates =
  NewPredicateFuncs :: "(Object \<Rightarrow> bool) \<Rightarrow> Predicate"
  predicate_Funcs :: "(Object \<Rightarrow> Object \<Rightarrow> bool) \<Rightarrow> (Object \<Rightarrow> bool) \<Rightarrow> Predicate"
  predicate_And :: "Predicate \<Rightarrow> Predicate \<Rightarrow> Predicate"
  LabelChangedPredicate :: Predicate
  GenerationChangedPredicate :: Predicate

text \<open>
  Their documented behaviour: a predicate made of one function asks it about the newest object, a function
  that is not set lets everything pass, and the two predicates for changes only look at updates.
\<close>

definition predicates_law :: "Predicates \<Rightarrow> bool" where
  "predicates_law P \<longleftrightarrow>
     (\<forall>f ev. NewPredicateFuncs P f ev = f (newest ev)) \<and>
     (\<forall>f g x y. predicate_Funcs P f g (UpdateEvent x y) = f x y) \<and>
     (\<forall>f g x. predicate_Funcs P f g (GenericEvent x) = g x) \<and>
     (\<forall>f g x. predicate_Funcs P f g (CreateEvent x) \<and> predicate_Funcs P f g (DeleteEvent x)) \<and>
     (\<forall>p q ev. predicate_And P p q ev = (p ev \<and> q ev)) \<and>
     (\<forall>x. LabelChangedPredicate P (CreateEvent x) \<and> LabelChangedPredicate P (DeleteEvent x) \<and> LabelChangedPredicate P (GenericEvent x)) \<and>
     (\<forall>m n. LabelChangedPredicate P (UpdateEvent (NodeObject m) (NodeObject n)) = (node_Labels m \<noteq> node_Labels n)) \<and>
     (\<forall>x. GenerationChangedPredicate P (CreateEvent x) \<and> GenerationChangedPredicate P (DeleteEvent x) \<and> GenerationChangedPredicate P (GenericEvent x)) \<and>
     (\<forall>k l g h. GenerationChangedPredicate P (UpdateEvent (CIDRPoolObject k g) (CIDRPoolObject l h)) = (g \<noteq> h))"

datatype 'w EventHandler =
    EnqueueRequestForObject
  | EnqueueRequestsFromMapFunc "Object \<Rightarrow> ('w, nsname list) op"

record 'w Watch =
  w_Kind :: Kind
  w_Handler :: "'w EventHandler"
  w_Predicates :: "Predicate list"

text \<open>
  The pod reconciler; its channel \<open>OVSWatcher\<close> is the raw source of its controller. What \<open>Reconcile\<close>
  does with a pod is \<open>Reconcile_pod\<close>, on the shell and the flows of the reconciler.
\<close>

record 'w FlowReconciler =
  fr_NodeName :: string
  fr_Client :: "'w Client"
  fr_Exec :: "'w shell"
  fr_Flows :: "'w FlowsAPI"

definition FlowReconciler_Reconcile :: "multierr_append \<Rightarrow> unmarshal \<Rightarrow> 'w FlowReconciler \<Rightarrow> Pod \<Rightarrow> ('w, goerr option go) op" where
  "FlowReconciler_Reconcile app unmarshal r = Reconcile_pod app unmarshal (fr_Exec r) (fr_Flows r)"

text \<open>\<open>reconcile.AsReconciler\<close>: the client that reads the requested object, and the reconciler that gets it.\<close>

datatype 'w Reconciler =
    AsPodReconciler "'w Client" "'w FlowReconciler"
  | AsRailReconciler "'w Client" "'w HostReconciler"

text \<open>
  What a builder has collected when \<open>Complete\<close> is called, with the reconciler it is called with. A raw
  source is a channel without objects; its handler maps each signal to requests.
\<close>

record 'w Controller =
  c_Named :: string
  c_For :: Kind
  c_EventFilter :: "Predicate list"
  c_Watches :: "'w Watch list"
  c_RawSource :: "('w, nsname list) op"
  c_Reconciler :: "'w Reconciler"

section \<open>The registrations\<close>

definition pod_event_filter :: "string \<Rightarrow> Object \<Rightarrow> bool" where
  "pod_event_filter name obj = (case obj of PodObject pod \<Rightarrow> isPodRelevant name pod | _ \<Rightarrow> False)"

definition SetupWithManager_pods :: "Predicates \<Rightarrow> 'w FlowReconciler \<Rightarrow> ('w Client \<Rightarrow> string \<Rightarrow> 'w \<Rightarrow> Pod list result \<times> 'w)
    \<Rightarrow> 'w Controller" where
  "SetupWithManager_pods P r list_pods =
     \<lparr>c_Named = ''FlowReconciler'', c_For = PodKind,
      c_EventFilter = [NewPredicateFuncs P (pod_event_filter (fr_NodeName r))], c_Watches = [],
      c_RawSource = hostPodMapFunc (fr_NodeName r) (list_pods (fr_Client r)),
      c_Reconciler = AsPodReconciler (fr_Client r) r\<rparr>"

definition flowcontrollerTolerationsChanged :: "Predicates \<Rightarrow> 'w Lib \<Rightarrow> Predicate" where
  "flowcontrollerTolerationsChanged P lb = predicate_Funcs P
     (\<lambda>old new. case (old, new) of
        (DaemonSetObject oldDS, DaemonSetObject newDS) \<Rightarrow>
          \<not> DeepEqual_tolerations lb (ds_Tolerations oldDS) (ds_Tolerations newDS)
      | _ \<Rightarrow> False)
     (\<lambda>_. False)"

text \<open>The mapping functions get a \<open>client.Object\<close>, of which they use the key, and the UID of a DaemonSet.\<close>

definition map_daemonset :: "'w HostReconciler \<Rightarrow> Object \<Rightarrow> ('w, nsname list) op" where
  "map_daemonset r obj = (case obj of DaemonSetObject ds \<Rightarrow> flowcontrollerToRailConfigs r ds | _ \<Rightarrow> State_Monad.return [])"

definition nodeNameFilter :: "string \<Rightarrow> Object \<Rightarrow> bool" where
  "nodeNameFilter name obj \<longleftrightarrow> name = snd (object_key obj)"

definition SetupWithManager :: "Predicates \<Rightarrow> OperatorConfig \<Rightarrow> string \<Rightarrow> 'w HostReconciler
    \<Rightarrow> 'w HostReconciler \<times> 'w Controller" where
  "SetupWithManager P cf name r0 =
     (let r = r0\<lparr>ownPod := (PodNamespace cf, PodName cf)\<rparr>;
          railLister = ListRailPoolConfigsForNode (kube r) (lib r) name;
          railListerHandler = EnqueueRequestsFromMapFunc (\<lambda>_. railLister);
          filt = NewPredicateFuncs P (nodeNameFilter name)
      in (r, \<lparr>c_Named = ''spectrumxrailpoolconfig-host-flows'', c_For = RailPoolKind, c_EventFilter = [],
        c_Watches =
          [\<lparr>w_Kind = DaemonSetKind, w_Handler = EnqueueRequestsFromMapFunc (map_daemonset r),
             w_Predicates = [flowcontrollerTolerationsChanged P (lib r)]\<rparr>,
           \<lparr>w_Kind = NodeKind, w_Handler = railListerHandler,
             w_Predicates = [predicate_And P (LabelChangedPredicate P) filt]\<rparr>,
           \<lparr>w_Kind = NodeStateKind, w_Handler = railListerHandler, w_Predicates = [filt]\<rparr>,
           \<lparr>w_Kind = CIDRPoolKind, w_Handler = EnqueueRequestsFromMapFunc (\<lambda>obj. cidrPoolToRailConfigs r (object_key obj)),
             w_Predicates = [GenerationChangedPredicate P]\<rparr>],
        c_RawSource = railLister,
        c_Reconciler = AsRailReconciler (kube r) r\<rparr>))"

section \<open>Delivery of events\<close>

definition watches_of :: "'w Controller \<Rightarrow> 'w Watch list" where
  "watches_of c = \<lparr>w_Kind = c_For c, w_Handler = EnqueueRequestForObject, w_Predicates = []\<rparr> # c_Watches c"

definition accepts :: "'w Controller \<Rightarrow> watch_event \<Rightarrow> 'w Watch \<Rightarrow> bool" where
  "accepts c ev w \<longleftrightarrow> w_Kind w = kind_of (newest ev) \<and> (\<forall>p \<in> set (c_EventFilter c @ w_Predicates w). p ev)"

text \<open>A handler with a mapping function runs it on every object of the event.\<close>

fun map_objects :: "(Object \<Rightarrow> ('w, nsname list) op) \<Rightarrow> Object list \<Rightarrow> ('w, nsname list) op" where
  "map_objects f [] = State_Monad.return []"
| "map_objects f (x # xs) = do {
     ks \<leftarrow> f x;
     ls \<leftarrow> map_objects f xs;
     State_Monad.return (ks @ ls)
   }"

text \<open>
  The contract. Requests go into a queue without duplicates, so only their set matters.
\<close>

locale event_delivery =
  fixes P :: Predicates
    and deliver :: "'w Controller \<Rightarrow> watch_event \<Rightarrow> ('w, nsname list) op"
  assumes predicates: "predicates_law P"
    and rejected: "filter (accepts c ev) (watches_of c) = [] \<Longrightarrow> set (fst (run_state (deliver c ev) s)) = {}"
    and own: "filter (accepts c ev) (watches_of c) = [w] \<Longrightarrow> w_Handler w = EnqueueRequestForObject \<Longrightarrow>
      set (fst (run_state (deliver c ev) s)) = object_key ` set (event_objects ev)"
    and mapped: "filter (accepts c ev) (watches_of c) = [w] \<Longrightarrow> w_Handler w = EnqueueRequestsFromMapFunc f \<Longrightarrow>
      set (fst (run_state (deliver c ev) s)) = set (fst (run_state (map_objects f (event_objects ev)) s))"
begin

lemmas predicate_simps = predicates [unfolded predicates_law_def, rule_format]

text \<open>A mapping function that reads the same whenever it is run gives the requests of each object.\<close>

lemma map_objects_stable:
  "\<forall>x \<in> set xs. \<forall>t. run_state (f x) t = (g x, t) \<Longrightarrow>
   run_state (map_objects f xs) s = (concat (map g xs), s)"
  by (induction xs) auto

lemma pod_events:
  assumes "kind_of (newest ev) = PodKind"
  shows "set (fst (run_state (deliver (SetupWithManager_pods P r list_pods) ev) s)) =
    (if pod_event_filter (fr_NodeName r) (newest ev) then object_key ` set (event_objects ev) else {})"
proof -
  let ?c = "SetupWithManager_pods P r list_pods"
  have "filter (accepts ?c ev) (watches_of ?c) =
      (if pod_event_filter (fr_NodeName r) (newest ev) then [\<lparr>w_Kind = PodKind, w_Handler = EnqueueRequestForObject, w_Predicates = []\<rparr>] else [])"
    using assms by (simp add: SetupWithManager_pods_def watches_of_def accepts_def predicate_simps)
  then show ?thesis using own [of ?c ev] rejected [of ?c ev] by (simp split: if_splits)
qed

lemma rail_events:
  assumes "c = snd (SetupWithManager P cf name r)" "filter (accepts c ev) (c_Watches c) = [w]"
    and "kind_of (newest ev) \<noteq> RailPoolKind" "w_Handler w = EnqueueRequestsFromMapFunc f"
    and "\<forall>x \<in> set (event_objects ev). \<forall>t. run_state (f x) t = (g x, t)"
  shows "set (fst (run_state (deliver c ev) s)) = (\<Union>x \<in> set (event_objects ev). set (g x))"
proof -
  have "filter (accepts c ev) (watches_of c) = [w]"
    using assms(1-3) by (auto simp: watches_of_def accepts_def SetupWithManager_def Let_def)
  from mapped [OF this assms(4)] map_objects_stable [OF assms(5)] show ?thesis by simp
qed

lemma rail_events_rejected:
  assumes "c = snd (SetupWithManager P cf name r)" "filter (accepts c ev) (c_Watches c) = []"
    and "kind_of (newest ev) \<noteq> RailPoolKind"
  shows "set (fst (run_state (deliver c ev) s)) = {}"
proof -
  have "filter (accepts c ev) (watches_of c) = []"
    using assms by (auto simp: watches_of_def accepts_def SetupWithManager_def Let_def)
  then show ?thesis by (rule rejected)
qed

end

section \<open>Predicates and a queue that keep the contract\<close>

definition demo_predicates :: Predicates where
  "demo_predicates = \<lparr>NewPredicateFuncs = (\<lambda>f ev. f (newest ev)),
     predicate_Funcs = (\<lambda>f g ev. case ev of UpdateEvent x y \<Rightarrow> f x y | GenericEvent x \<Rightarrow> g x | _ \<Rightarrow> True),
     predicate_And = (\<lambda>p q ev. p ev \<and> q ev),
     LabelChangedPredicate = (\<lambda>ev. case ev of
        UpdateEvent (NodeObject m) (NodeObject n) \<Rightarrow> node_Labels m \<noteq> node_Labels n | _ \<Rightarrow> True),
     GenerationChangedPredicate = (\<lambda>ev. case ev of
        UpdateEvent (CIDRPoolObject k g) (CIDRPoolObject l h) \<Rightarrow> g \<noteq> h | _ \<Rightarrow> True)\<rparr>"

fun run_handler :: "'w EventHandler \<Rightarrow> Object list \<Rightarrow> ('w, nsname list) op" where
  "run_handler EnqueueRequestForObject xs = State_Monad.return (map object_key xs)"
| "run_handler (EnqueueRequestsFromMapFunc f) xs = map_objects f xs"

fun run_handlers :: "'w Watch list \<Rightarrow> Object list \<Rightarrow> ('w, nsname list) op" where
  "run_handlers [] xs = State_Monad.return []"
| "run_handlers (w # ws) xs = do {
     ks \<leftarrow> run_handler (w_Handler w) xs;
     ls \<leftarrow> run_handlers ws xs;
     State_Monad.return (remdups (ks @ ls))
   }"

definition demo_deliver :: "'w Controller \<Rightarrow> watch_event \<Rightarrow> ('w, nsname list) op" where
  "demo_deliver c ev = run_handlers (filter (accepts c ev) (watches_of c)) (event_objects ev)"

lemma demo_predicates_law: "predicates_law demo_predicates"
  by (simp add: predicates_law_def demo_predicates_def)

interpretation queue: event_delivery demo_predicates demo_deliver
  by unfold_locales (auto simp: demo_predicates_law demo_deliver_def split: prod.splits)

section \<open>Properties\<close>

text \<open>The pools that an event on the agent's node is about, for a cluster that does not change meanwhile.\<close>

definition pools_on_node :: "'w Lib \<Rightarrow> (nsname \<Rightarrow> SriovNetworkNodePolicy result) \<Rightarrow> Node \<Rightarrow> SpectrumXRailPoolConfig list \<Rightarrow> nsname set" where
  "pools_on_node lb pol node items =
     {key_of rpc | rpc rt. rpc \<in> set items \<and> rt \<in> set (RailTopologies (rpc_Spec rpc)) \<and> rail_selects lb pol node rpc rt}"

definition node_reads :: "'w Client \<Rightarrow> string \<Rightarrow> (nsname \<Rightarrow> SriovNetworkNodePolicy result) \<Rightarrow> Node \<Rightarrow> SpectrumXRailPoolConfig list \<Rightarrow> bool" where
  "node_reads c name pol node items \<longleftrightarrow> stable_policies c pol \<and>
     (\<forall>w. get_Node c name w = (Inr node, w)) \<and> (\<forall>w. list_RailPoolConfigs c None w = (Inr items, w))"

lemma rail_lister_run:
  assumes "node_reads c name pol node items"
  obtains ks where "set ks = pools_on_node lb pol node items"
    and "\<And>t. run_state (ListRailPoolConfigsForNode c lb name) t = (ks, t)"
proof
  let ?ks = "concat (map (\<lambda>rpc. map (\<lambda>_. key_of rpc) (filter (rail_selects lb pol node rpc) (RailTopologies (rpc_Spec rpc)))) items)"
  show "set ?ks = pools_on_node lb pol node items" by (auto simp: pools_on_node_def)
  show "run_state (ListRailPoolConfigsForNode c lb name) t = (?ks, t)" for t
    using assms pool_requests_run [of c pol] by (simp add: node_reads_def ListRailPoolConfigsForNode_def)
qed

text \<open>
  Property C31. An update of a node is passed on only if it is the agent's own node and its labels
  changed; heartbeats and other nodes cause nothing. An update of a node state is passed on only
  if it is that of the agent's own node. Either way the requests are exactly the pools of which
  at least one rail has a policy that selects the node.
\<close>

theorem node_events_exact:
  assumes "event_delivery P deliver" "node_reads (kube r) name pol node items"
    and "c = snd (SetupWithManager P cf name r)" "requested = (\<lambda>ev. set (fst (run_state (deliver c ev) s)))"
  shows "requested (UpdateEvent (NodeObject m) (NodeObject n)) =
      (if node_Name n = name \<and> node_Labels m \<noteq> node_Labels n then pools_on_node (lib r) pol node items else {}) \<and>
    requested (UpdateEvent (NodeStateObject k) (NodeStateObject l)) =
      (if snd l = name then pools_on_node (lib r) pol node items else {})"
proof -
  from rail_lister_run [OF assms(2)] obtain ks where ks: "set ks = pools_on_node (lib r) pol node items"
    "\<And>t. run_state (ListRailPoolConfigsForNode (kube r) (lib r) name) t = (ks, t)" by metis
  note p = event_delivery.predicate_simps [OF assms(1)]
  note reg = SetupWithManager_def accepts_def Let_def nodeNameFilter_def
  note ev = event_delivery.rail_events [OF assms(1,3)] event_delivery.rail_events_rejected [OF assms(1,3)]
  show ?thesis
    using ks ev(1) [where g = "\<lambda>_. ks"] ev(2) unfolding assms(4)
    by (auto simp: assms(3) reg p)
qed

definition node_client :: "'w Client" where
  "node_client = (demo_client (demo_rpc [demo_rail ''a'' [''p0'']] []) [])\<lparr>get_NodePolicy :=
     (\<lambda>k w. (Inr (primary_policy (demo_rpc [demo_rail ''a'' [''p0'']] []) (demo_rail ''a'' [''p0'']) ''p0''), w))\<rparr>"

lemma node_client_reads:
  "node_reads node_client ''node''
     (\<lambda>_. Inr (primary_policy (demo_rpc [demo_rail ''a'' [''p0'']] []) (demo_rail ''a'' [''p0'']) ''p0''))
     (demo_node ''node'') [demo_rpc [demo_rail ''a'' [''p0'']] []]"
  by (simp add: node_reads_def stable_policies_def node_client_def demo_client_def)

lemma node_client_pools:
  "pools_on_node demo_lib (\<lambda>_. Inr (primary_policy (demo_rpc [demo_rail ''a'' [''p0'']] []) (demo_rail ''a'' [''p0'']) ''p0''))
     (demo_node ''node'') [demo_rpc [demo_rail ''a'' [''p0'']] []] = {(''ns'', ''pool'')}"
  by (auto simp: pools_on_node_def key_of_def rail_selects_def demo_lib_def demo_rpc_def primary_policy_def
      generateSRIOVNetworkNodePolicy_def)

definition demo_cfg :: OperatorConfig where
  "demo_cfg = \<lparr>PodName = ''agent'', PodNamespace = ''ns'', XPlaneRepository = [], XPlaneImage = [],
     XPlaneVersion = [], ImagePullSecrets = []\<rparr>"

theorem node_events_exact_witness:
  "let r = demo_reconciler node_client all_ok_shell disk_os; c = snd (SetupWithManager demo_predicates demo_cfg ''node'' r);
       ev = UpdateEvent (NodeObject (demo_node ''node'')) (NodeObject ((demo_node ''node'')\<lparr>node_Labels := [''l'' \<mapsto> ''v'']\<rparr>)) in
   set (fst (run_state (demo_deliver c ev) demo_world)) = {(''ns'', ''pool'')}"
proof -
  let ?r = "demo_reconciler node_client all_ok_shell disk_os"
  have k: "kube ?r = node_client" "lib ?r = demo_lib" by (simp_all add: demo_reconciler_def)
  note step = node_events_exact [where r = ?r and P = demo_predicates and deliver = demo_deliver, unfolded k,
      OF queue.event_delivery_axioms node_client_reads refl refl, THEN conjunct1]
  have labels: "node_Labels (demo_node ''node'') \<noteq> [''l'' \<mapsto> ''v'']" "node_Name (demo_node ''node'') = ''node''"
    by (simp_all add: demo_node_def fun_eq_iff)
  show ?thesis unfolding Let_def using step labels node_client_pools by simp
qed

text \<open>
  A change of a CIDR pool's specification requests exactly the pools of its namespace
  that have a rail referring to it; an update that leaves the generation alone, as a change of its
  status does, requests nothing.
\<close>

lemma cidr_pool_events_exact:
  assumes "event_delivery P deliver" "\<forall>w. list_RailPoolConfigs (kube r) (Some ns) w = (Inr items, w)"
    and "c = snd (SetupWithManager P cf name r)"
  shows "set (fst (run_state (deliver c (UpdateEvent (CIDRPoolObject (ns, pool) g) (CIDRPoolObject (ns, pool) h))) s)) =
    (if g = h then {} else {key_of rpc | rpc rt. rpc \<in> set items \<and> rt \<in> set (RailTopologies (rpc_Spec rpc)) \<and> CidrPoolRef rt = pool})"
proof -
  define ks where "ks = map key_of (filter (\<lambda>rpc. \<exists>rt \<in> set (RailTopologies (rpc_Spec rpc)). CidrPoolRef rt = pool) items)"
  have run: "run_state (cidrPoolToRailConfigs (r\<lparr>ownPod := k\<rparr>) (ns, pool)) t = (ks, t)" for k t
    using cidrPoolToRailConfigs_exact [of "r\<lparr>ownPod := k\<rparr>" ns t items "env t" pool] assms(2) by (simp add: ks_def)
  note p = event_delivery.predicate_simps [OF assms(1)]
  note reg = SetupWithManager_def accepts_def Let_def
  note ev = event_delivery.rail_events [OF assms(1,3)] event_delivery.rail_events_rejected [OF assms(1,3)]
  have "set ks = {key_of rpc | rpc rt. rpc \<in> set items \<and> rt \<in> set (RailTopologies (rpc_Spec rpc)) \<and> CidrPoolRef rt = pool}"
    by (auto simp: ks_def)
  then show ?thesis using run ev(1) [where g = "\<lambda>_. ks"] ev(2) by (auto simp: assms(3) reg p)
qed

text \<open>
  Events on pods reach the pod reconciler exactly when the newest version of the pod is
  on the agent's node and has the annotation with its network status; then the pod itself is
  requested.
\<close>

lemma pod_events_exact:
  assumes "event_delivery P deliver" "newest ev = PodObject pod"
  shows "set (fst (run_state (deliver (SetupWithManager_pods P r list_pods) ev) s)) =
    (if pod_NodeName pod = fr_NodeName r \<and> (\<exists>a. pod_Annotations pod = Some a \<and> NetworkStatusAnnot \<in> dom a)
     then object_key ` set (event_objects ev) else {})"
  using event_delivery.pod_events [OF assms(1), of ev r list_pods s] assms(2)
  by (auto simp: pod_event_filter_def isPodRelevant_def split: option.splits)

text \<open>
  Property C32. An update of a DaemonSet requests something only if its tolerations changed and its newest
  or previous version is the DaemonSet that controls the agent's own pod, as the environment
  names it; the requests are then exactly the pools with a multiplane rail.
\<close>

theorem daemonset_events_exact:
  assumes "event_delivery P deliver" "\<forall>w. get_Pod (kube r) own w = (Inr pod, w)" "own = (PodNamespace cf, PodName cf)"
    and "GetControllerOf (lib r) pod = Some owner" "or_APIVersion owner = ''apps/v1''" "or_Kind owner = ''DaemonSet''"
    and "or_Name owner \<noteq> []" "or_UID owner \<noteq> []" "fst own \<noteq> []" "snd own \<noteq> []"
    and "\<forall>w. list_RailPoolConfigs (kube r) None w = (Inr pools, w)" "c = snd (SetupWithManager P cf name r)"
    and "is_own = (\<lambda>ds. ds_Namespace ds = fst own \<and> ds_Name ds = or_Name owner \<and> ds_UID ds = or_UID owner)"
  shows "set (fst (run_state (deliver c (UpdateEvent (DaemonSetObject old) (DaemonSetObject new))) s)) =
    (if \<not> DeepEqual_tolerations (lib r) (ds_Tolerations old) (ds_Tolerations new) \<and> (is_own old \<or> is_own new)
     then {key_of rpc | rpc rt. rpc \<in> set pools \<and> rt \<in> set (RailTopologies (rpc_Spec rpc)) \<and> length (pf_names rt) > 1} else {})"
proof -
  define ks where "ks = map key_of (filter (\<lambda>rpc. \<exists>rt \<in> set (RailTopologies (rpc_Spec rpc)). length (pf_names rt) > 1) pools)"
  define g where "g x = (case x of DaemonSetObject ds \<Rightarrow> if is_own ds then ks else [] | _ \<Rightarrow> [])" for x
  have run: "run_state (map_daemonset (r\<lparr>ownPod := own\<rparr>) (DaemonSetObject ds)) t = (g (DaemonSetObject ds), t)" for ds t
    using assms(2,4-11)
    by (simp add: map_daemonset_def flowcontrollerToRailConfigs_def flowcontrollerOwner_def Let_def multiplane_requests_eq
        g_def ks_def assms(13))
  have tol: "flowcontrollerTolerationsChanged P (lib r) (UpdateEvent (DaemonSetObject old) (DaemonSetObject new)) \<longleftrightarrow>
      \<not> DeepEqual_tolerations (lib r) (ds_Tolerations old) (ds_Tolerations new)"
    by (simp add: flowcontrollerTolerationsChanged_def event_delivery.predicate_simps [OF assms(1)])
  note ev = event_delivery.rail_events [OF assms(1,12)] event_delivery.rail_events_rejected [OF assms(1,12)]
  have "set ks = {key_of rpc | rpc rt. rpc \<in> set pools \<and> rt \<in> set (RailTopologies (rpc_Spec rpc)) \<and> length (pf_names rt) > 1}"
    by (auto simp: ks_def)
  moreover have w: "filter (accepts c (UpdateEvent (DaemonSetObject old) (DaemonSetObject new))) (c_Watches c) =
      (if DeepEqual_tolerations (lib r) (ds_Tolerations old) (ds_Tolerations new) then []
       else [\<lparr>w_Kind = DaemonSetKind, w_Handler = EnqueueRequestsFromMapFunc (map_daemonset (r\<lparr>ownPod := own\<rparr>)),
         w_Predicates = [flowcontrollerTolerationsChanged P (lib r)]\<rparr>])"
    by (simp add: assms(3,12) SetupWithManager_def accepts_def Let_def tol)
  moreover have "set (fst (run_state (deliver c (UpdateEvent (DaemonSetObject old) (DaemonSetObject new))) s)) =
      (if DeepEqual_tolerations (lib r) (ds_Tolerations old) (ds_Tolerations new) then {}
       else set (g (DaemonSetObject old)) \<union> set (g (DaemonSetObject new)))"
  proof (cases "DeepEqual_tolerations (lib r) (ds_Tolerations old) (ds_Tolerations new)")
    case True
    with w ev(2) show ?thesis by simp
  next
    case False
    from ev(1) [OF w [unfolded if_not_P [OF False]]] run show ?thesis by (simp add: False)
  qed
  ultimately show ?thesis by (cases "is_own old"; cases "is_own new") (simp_all add: g_def)
qed

theorem daemonset_events_exact_witness:
  "let r = demo_reconciler ((agent_client [])\<lparr>list_RailPoolConfigs := (\<lambda>ns w. (Inr [demo_rpc [demo_rail ''a'' [''p0'', ''p1'']] []], w))\<rparr>)
         all_ok_shell disk_os;
       c = snd (SetupWithManager demo_predicates demo_cfg ''node'' r);
       tol = \<lparr>tol_Key = ''k'', tol_Operator = ''Exists'', tol_Value = [], tol_Effect = []\<rparr>;
       ev = UpdateEvent (DaemonSetObject (agent_ds [])) (DaemonSetObject (agent_ds [tol])) in
   set (fst (run_state (demo_deliver c ev) demo_world)) = {(''ns'', ''pool'')}"
proof -
  let ?rpc = "demo_rpc [demo_rail ''a'' [''p0'', ''p1'']] []"
  let ?r = "demo_reconciler ((agent_client [])\<lparr>list_RailPoolConfigs := (\<lambda>ns w. (Inr [?rpc], w))\<rparr>) all_ok_shell disk_os"
  let ?own = "(PodNamespace demo_cfg, PodName demo_cfg)"
  have "\<forall>w. get_Pod (kube ?r) ?own w = (Inr agent_pod, w)" "?own = ?own" "GetControllerOf (lib ?r) agent_pod = Some agent_owner"
    "or_APIVersion agent_owner = ''apps/v1''" "or_Kind agent_owner = ''DaemonSet''" "or_Name agent_owner \<noteq> []"
    "or_UID agent_owner \<noteq> []" "fst ?own \<noteq> []" "snd ?own \<noteq> []"
    "\<forall>w. list_RailPoolConfigs (kube ?r) None w = (Inr [?rpc], w)"
    by (simp_all add: demo_reconciler_def agent_client_def demo_lib_def agent_pod_def agent_owner_def demo_cfg_def)
  note step = daemonset_events_exact [OF queue.event_delivery_axioms this refl refl]
  show ?thesis unfolding Let_def step
    by (simp add: demo_reconciler_def agent_ds_def agent_owner_def demo_lib_def demo_cfg_def)
      (auto simp: demo_rpc_def demo_rail_def key_of_def)
qed

end
