(* ===== verification/Monitor.thy ===== *)
theory Monitor
  imports Cluster Go_Net
begin

text \<open>
  \<^verbatim>\<open>pkg/lib/netlink\<close> and \<^verbatim>\<open>internal/vfstatefollower\<close>: the monitor that mirrors the carrier of the
  PFs of a rail to the admin state of the VF representors. The kernel side of netlink and the
  package sriovnet are the records \<open>'w Netlink\<close> and \<open>'w Sriovnet\<close>; what the monitor relies on
  is the interface \<open>kernel_links\<close>, over a view of the links.
\<close>

unbundle bit_operations_syntax

section \<open>\<open>pkg/lib/netlink\<close>\<close>

text \<open>The operational states of a link (\<open>IF_OPER_...\<close>).\<close>

datatype LinkOperState =
  OperUnknown | OperNotPresent | OperDown | OperLowerLayerDown | OperTesting | OperDormant | OperUp

record Link =
  link_Name :: string
  link_Flags :: "64 word"
  link_OperState :: LinkOperState

record 'w Netlink =
  nl_LinkByName :: "string \<Rightarrow> 'w \<Rightarrow> Link result \<times> 'w"
  nl_LinkSet :: "bool \<Rightarrow> Link \<Rightarrow> 'w \<Rightarrow> goerr option \<times> 'w"
  nl_ParseAddr :: "string \<Rightarrow> string result"
  nl_AddrDel :: "Link \<Rightarrow> string \<Rightarrow> 'w \<Rightarrow> goerr option \<times> 'w"
  nl_AddrAdd :: "Link \<Rightarrow> string \<Rightarrow> 'w \<Rightarrow> goerr option \<times> 'w"
  nl_RouteGet :: "nat list \<Rightarrow> 'w \<Rightarrow> string list result \<times> 'w"
  nl_AddrList :: "Link \<Rightarrow> nat \<Rightarrow> 'w \<Rightarrow> string list result \<times> 'w"
  nl_NeighList :: "int \<Rightarrow> nat \<Rightarrow> 'w \<Rightarrow> string list result \<times> 'w"

definition LinkByName :: "'w Netlink \<Rightarrow> string \<Rightarrow> ('w, Link result) op" where
  "LinkByName nl name = observe (nl_LinkByName nl name)"

definition LinkSetUp :: "'w Netlink \<Rightarrow> Link \<Rightarrow> ('w, goerr option) op" where
  "LinkSetUp nl link = perform (SetLink (link_Name link) True) (nl_LinkSet nl True link)"

definition LinkSetDown :: "'w Netlink \<Rightarrow> Link \<Rightarrow> ('w, goerr option) op" where
  "LinkSetDown nl link = perform (SetLink (link_Name link) False) (nl_LinkSet nl False link)"

definition FlagUp :: "64 word" where "FlagUp = 1"

definition IsLinkAdminStateUp :: "Link \<Rightarrow> bool" where
  "IsLinkAdminStateUp link \<longleftrightarrow> link_Flags link AND FlagUp = 1"

definition IsLinkNoCarrier :: "Link \<Rightarrow> bool" where
  "IsLinkNoCarrier link \<longleftrightarrow> link_OperState link = OperDown \<or> link_OperState link = OperLowerLayerDown"

text \<open>\<open>unix.AF_INET\<close>, the family of IPv4. Addresses and neighbours are their texts.\<close>

definition AF_INET :: nat where "AF_INET = 2"

definition IPv4Addresses :: "'w Netlink \<Rightarrow> Link \<Rightarrow> ('w, string list result) op" where
  "IPv4Addresses nl link = observe (nl_AddrList nl link AF_INET)"

definition AddrDel :: "'w Netlink \<Rightarrow> Link \<Rightarrow> string \<Rightarrow> ('w, goerr option) op" where
  "AddrDel nl link ip =
     (case nl_ParseAddr nl ip of
        Inl err \<Rightarrow> State_Monad.return (Some (WrapError (''failed to parse IP address '' @ ip @ '': '') err []))
      | Inr addr \<Rightarrow> observe (nl_AddrDel nl link addr))"

definition AddrAdd :: "'w Netlink \<Rightarrow> Link \<Rightarrow> string \<Rightarrow> ('w, goerr option) op" where
  "AddrAdd nl link ip =
     (case nl_ParseAddr nl ip of
        Inl err \<Rightarrow> State_Monad.return (Some (WrapError (''failed to parse IP address '' @ ip @ '': '') err []))
      | Inr addr \<Rightarrow> observe (nl_AddrAdd nl link addr))"

text \<open>A route is its source address as text; \<open>net.ParseIP\<close> accepts what \<open>ParseAddr\<close> does.\<close>

definition GetRouteSrc :: "'w Netlink \<Rightarrow> string \<Rightarrow> ('w, string result) op" where
  "GetRouteSrc nl dst =
     (case ParseAddr dst of
        None \<Rightarrow> State_Monad.return (Inl (ErrorString (''failed to parse IP address '' @ dst)))
      | Some (ipaddr, bits) \<Rightarrow> do {
          got \<leftarrow> observe (nl_RouteGet nl ipaddr);
          case got of
            Inl err \<Rightarrow> State_Monad.return (Inl (WrapError (''failed to get routes for IP address '' @ dst @ '': '') err []))
          | Inr routes \<Rightarrow>
              if length routes \<noteq> 1 then
                State_Monad.return (Inl (ErrorString (''multiple routes found for IP address '' @ dst)))
              else State_Monad.return (Inr (routes ! 0))
        })"

definition NeighList :: "'w Netlink \<Rightarrow> int \<Rightarrow> ('w, string list result) op" where
  "NeighList nl linkIndex = observe (nl_NeighList nl linkIndex AF_INET)"

section \<open>The monitor\<close>

text \<open>VFs are numbered; an empty netdev name means that the VF is not in the host's namespace.\<close>

record 'w Sriovnet =
  GetPfNetdevHandle :: "string \<Rightarrow> 'w \<Rightarrow> nat list result \<times> 'w"
  GetVfNetdevName :: "string \<Rightarrow> nat \<Rightarrow> 'w \<Rightarrow> string \<times> 'w"
  GetVfRepresentor :: "string \<Rightarrow> nat \<Rightarrow> 'w \<Rightarrow> string result \<times> 'w"

record 'w Monitor =
  m_Client :: "'w Client"
  m_Lib :: "'w Lib"
  m_NodeName :: string
  m_Netlink :: "'w Netlink"
  m_Sriovnet :: "'w Sriovnet"
  PollInterval :: "64 word"
  FindActiveReps :: "(string \<Rightarrow> 'w \<Rightarrow> string list result \<times> 'w) option"

fun active_reps :: "'w Sriovnet \<Rightarrow> string \<Rightarrow> nat list \<Rightarrow> string list \<Rightarrow> ('w, string list) op" where
  "active_reps sn pfName [] reps = State_Monad.return reps"
| "active_reps sn pfName (vf # vfs) reps = do {
     netdev \<leftarrow> observe (GetVfNetdevName sn pfName vf);
     if netdev \<noteq> [] then active_reps sn pfName vfs reps
     else do {
       rep \<leftarrow> observe (GetVfRepresentor sn pfName vf);
       case rep of
         Inl err \<Rightarrow> active_reps sn pfName vfs reps
       | Inr rep \<Rightarrow> active_reps sn pfName vfs (reps @ [rep])
     }
   }"

definition activeRepsForPF_default :: "'w Sriovnet \<Rightarrow> string \<Rightarrow> ('w, string list result) op" where
  "activeRepsForPF_default sn pfName = do {
     handle \<leftarrow> observe (GetPfNetdevHandle sn pfName);
     case handle of
       Inl err \<Rightarrow> State_Monad.return (Inl err)
     | Inr vfs \<Rightarrow> do {
         reps \<leftarrow> active_reps sn pfName vfs [];
         State_Monad.return (Inr reps)
       }
   }"

definition activeRepsForPF :: "'w Monitor \<Rightarrow> string \<Rightarrow> ('w, string list result) op" where
  "activeRepsForPF m pfName =
     (case FindActiveReps m of
        Some f \<Rightarrow> observe (f pfName)
      | None \<Rightarrow> activeRepsForPF_default (m_Sriovnet m) pfName)"

fun allPFsNoCarrier :: "'w Monitor \<Rightarrow> string list \<Rightarrow> ('w, bool result) op" where
  "allPFsNoCarrier m [] = State_Monad.return (Inr True)"
| "allPFsNoCarrier m (pfName # pfs) = do {
     link \<leftarrow> LinkByName (m_Netlink m) pfName;
     case link of
       Inl err \<Rightarrow> State_Monad.return (Inl err)
     | Inr link \<Rightarrow>
         if \<not> IsLinkNoCarrier link then State_Monad.return (Inr False)
         else allPFsNoCarrier m pfs
   }"

text \<open>One representor: what is done to it depends on its admin state; errors are only logged.\<close>

definition follow_rep :: "'w Monitor \<Rightarrow> bool \<Rightarrow> string \<Rightarrow> ('w, unit) op" where
  "follow_rep m allDown repName = do {
     rep \<leftarrow> LinkByName (m_Netlink m) repName;
     case rep of
       Inl err \<Rightarrow> State_Monad.return ()
     | Inr rep \<Rightarrow>
         if allDown \<and> IsLinkAdminStateUp rep then do {
           _ \<leftarrow> LinkSetDown (m_Netlink m) rep;
           State_Monad.return ()
         }
         else if \<not> allDown \<and> \<not> IsLinkAdminStateUp rep then do {
           _ \<leftarrow> LinkSetUp (m_Netlink m) rep;
           State_Monad.return ()
         }
         else State_Monad.return ()
   }"

fun follow_reps :: "'w Monitor \<Rightarrow> bool \<Rightarrow> string list \<Rightarrow> ('w, unit) op" where
  "follow_reps m allDown [] = State_Monad.return ()"
| "follow_reps m allDown (repName # reps) = do {
     _ \<leftarrow> follow_rep m allDown repName;
     follow_reps m allDown reps
   }"

fun follow_pfs :: "'w Monitor \<Rightarrow> bool \<Rightarrow> string list \<Rightarrow> ('w, unit) op" where
  "follow_pfs m allDown [] = State_Monad.return ()"
| "follow_pfs m allDown (pfName # pfs) = do {
     reps \<leftarrow> activeRepsForPF m pfName;
     case reps of
       Inl err \<Rightarrow> follow_pfs m allDown pfs
     | Inr reps \<Rightarrow> do {
         _ \<leftarrow> follow_reps m allDown reps;
         follow_pfs m allDown pfs
       }
   }"

definition reconcileTopology :: "'w Monitor \<Rightarrow> RailTopology \<Rightarrow> bool \<Rightarrow> ('w, unit) op" where
  "reconcileTopology m rt allDown = follow_pfs m allDown (pf_names rt)"

fun tick_rails :: "'w Monitor \<Rightarrow> bool \<Rightarrow> RailTopology list \<Rightarrow> ('w, unit) op" where
  "tick_rails m enabled [] = State_Monad.return ()"
| "tick_rails m enabled (rt # rts) =
     (if enabled then do {
        allDown \<leftarrow> allPFsNoCarrier m (pf_names rt);
        case allDown of
          Inl err \<Rightarrow> tick_rails m enabled rts
        | Inr allDown \<Rightarrow> do {
            _ \<leftarrow> reconcileTopology m rt allDown;
            tick_rails m enabled rts
          }
      }
      else do {
        _ \<leftarrow> reconcileTopology m rt False;
        tick_rails m enabled rts
      })"

definition follow_enabled :: "SpectrumXRailPoolConfig \<Rightarrow> bool" where
  "follow_enabled rpc =
     (case VFStateFollow (rpc_Spec rpc) of None \<Rightarrow> True | Some b \<Rightarrow> b)"

fun tick_pools :: "'w Monitor \<Rightarrow> Node \<Rightarrow> SpectrumXRailPoolConfig list \<Rightarrow> ('w, unit) op" where
  "tick_pools m node [] = State_Monad.return ()"
| "tick_pools m node (rpc # items) =
     (if \<not> labels_Matches (m_Lib m) (NodeSelector (rpc_Spec rpc)) (node_Labels node) then tick_pools m node items
      else do {
        _ \<leftarrow> tick_rails m (follow_enabled rpc) (RailTopologies (rpc_Spec rpc));
        tick_pools m node items
      })"

definition tick :: "'w Monitor \<Rightarrow> ('w, unit) op" where
  "tick m = do {
     got \<leftarrow> observe (get_Node (m_Client m) (m_NodeName m));
     case got of
       Inl err \<Rightarrow> State_Monad.return ()
     | Inr node \<Rightarrow> do {
         got \<leftarrow> observe (list_RailPoolConfigs (m_Client m) None);
         case got of
           Inl err \<Rightarrow> State_Monad.return ()
         | Inr items \<Rightarrow> tick_pools m node items
       }
   }"

text \<open>\<open>time.Duration\<close> counts nanoseconds in 64 bits.\<close>

definition defaultPollInterval :: "64 word" where "defaultPollInterval = 1000000000"

definition poll_interval :: "'w Monitor \<Rightarrow> 64 word" where
  "poll_interval m = (if PollInterval m = 0 then defaultPollInterval else PollInterval m)"

text \<open>
  The loop of \<open>Start\<close>, driven by the sequence of channels that \<open>select\<close> finds ready: \<open>True\<close> is
  the ticker with period \<open>poll_interval\<close>, \<open>False\<close> the end of the context.
\<close>

fun Start :: "'w Monitor \<Rightarrow> bool list \<Rightarrow> ('w, unit) op" where
  "Start m [] = State_Monad.return ()"
| "Start m (ticked # ready) =
     (if ticked then do {
        _ \<leftarrow> tick m;
        Start m ready
      }
      else State_Monad.return ())"

section \<open>The interface of the kernel's links\<close>

text \<open>
  \<open>view\<close> gives the links by name. A lookup that succeeds finds what is there; one that fails does so
  because there is no such link or for a reason of the kernel's own, as when a dump was interrupted:
  \<open>missed\<close> is the history of the names of existing links whose lookup has failed. Setting a link changes
  the admin state of that link and nothing else, or fails and changes nothing.
\<close>

locale kernel_links =
  fixes nl :: "'w Netlink"
    and view :: "'w \<Rightarrow> string \<Rightarrow> Link option"
    and missed :: "'w \<Rightarrow> string list"
  assumes lookup_found: "nl_LinkByName nl n w = (Inr l, w') \<Longrightarrow>
      view w n = Some l \<and> link_Name l = n \<and> missed w' = missed w"
    and lookup_failed: "nl_LinkByName nl n w = (Inl e, w') \<Longrightarrow>
      missed w' = missed w @ (if view w n = None then [] else [n])"
    and lookup_view: "view (snd (nl_LinkByName nl n w)) = view w"
    and set_ok: "fst (nl_LinkSet nl up l w) = None \<Longrightarrow>
      \<exists>l'. view (snd (nl_LinkSet nl up l w)) = (view w)(link_Name l \<mapsto> l') \<and> (IsLinkAdminStateUp l' \<longleftrightarrow> up)"
    and set_failed: "fst (nl_LinkSet nl up l w) = Some e \<Longrightarrow> view (snd (nl_LinkSet nl up l w)) = view w"
    and set_missed: "missed (snd (nl_LinkSet nl up l w)) = missed w"

text \<open>A representor is as it should be: gone, or with the admin state \<open>up\<close>.\<close>

definition follows :: "(string \<Rightarrow> Link option) \<Rightarrow> bool \<Rightarrow> string \<Rightarrow> bool" where
  "follows v up n = (case v n of None \<Rightarrow> True | Some l \<Rightarrow> IsLinkAdminStateUp l = up)"

text \<open>The events \<open>es\<close> show a failed attempt to set \<open>n\<close>.\<close>

definition set_failed_in :: "bool \<Rightarrow> string \<Rightarrow> event list \<Rightarrow> bool" where
  "set_failed_in up n es \<longleftrightarrow> (\<exists>e. SetLink n up (Some e) \<in> set es)"

text \<open>
  What following some representors does: they end up as they should be, or looking them up or setting
  them failed;
  what was right stays right; other links are untouched; all events are attempts to set one of
  them to the wanted state, and there are none if all were right already.
\<close>

definition followed :: "('w \<Rightarrow> string \<Rightarrow> Link option) \<Rightarrow> ('w \<Rightarrow> string list) \<Rightarrow> bool \<Rightarrow> string set \<Rightarrow> 'w world \<Rightarrow> 'w world \<Rightarrow> bool" where
  "followed view missed up names s s' \<longleftrightarrow>
     (\<exists>es ms. events s' = events s @ es \<and> missed (env s') = missed (env s) @ ms \<and>
        (\<forall>n \<in> names. follows (view (env s')) up n \<or> set_failed_in up n es \<or> n \<in> set ms) \<and>
        (\<forall>n. follows (view (env s)) up n \<longrightarrow> follows (view (env s')) up n) \<and>
        (\<forall>n. n \<notin> names \<longrightarrow> view (env s') n = view (env s) n) \<and>
        (\<forall>e \<in> set es. \<exists>n x. n \<in> names \<and> e = SetLink n up x) \<and>
        ((\<forall>n \<in> names. follows (view (env s)) up n) \<longrightarrow> es = [] \<and> view (env s') = view (env s)))"

lemma followed_refl:
  "view w = view (env s) \<Longrightarrow> missed w = missed (env s) \<Longrightarrow> followed view missed up {} s (s\<lparr>env := w\<rparr>)"
  by (auto simp: followed_def follows_def intro: exI [of _ "[]"])

text \<open>A lookup that found nothing to do, or failed.\<close>

lemma followed_idle:
  assumes "view w = view (env s)" "missed w = missed (env s) @ ms" "follows (view (env s)) up n \<or> n \<in> set ms"
  shows "followed view missed up {n} s (s\<lparr>env := w\<rparr>)"
  using assms unfolding followed_def by (intro exI [of _ "[]"] exI [of _ ms]) (auto simp: follows_def)

lemma followed_trans:
  assumes "followed view missed up A s t" "followed view missed up B t u"
  shows "followed view missed up (A \<union> B) s u"
proof -
  from assms(1) obtain es1 ms1 where 1: "events t = events s @ es1"
    "\<forall>n \<in> A. follows (view (env t)) up n \<or> set_failed_in up n es1 \<or> n \<in> set ms1"
    "\<forall>n. follows (view (env s)) up n \<longrightarrow> follows (view (env t)) up n"
    "\<forall>n. n \<notin> A \<longrightarrow> view (env t) n = view (env s) n"
    "\<forall>e \<in> set es1. \<exists>n x. n \<in> A \<and> e = SetLink n up x"
    "(\<forall>n \<in> A. follows (view (env s)) up n) \<longrightarrow> es1 = [] \<and> view (env t) = view (env s)"
    "missed (env t) = missed (env s) @ ms1"
    by (auto simp: followed_def)
  from assms(2) obtain es2 ms2 where 2: "events u = events t @ es2"
    "\<forall>n \<in> B. follows (view (env u)) up n \<or> set_failed_in up n es2 \<or> n \<in> set ms2"
    "\<forall>n. follows (view (env t)) up n \<longrightarrow> follows (view (env u)) up n"
    "\<forall>n. n \<notin> B \<longrightarrow> view (env u) n = view (env t) n"
    "\<forall>e \<in> set es2. \<exists>n x. n \<in> B \<and> e = SetLink n up x"
    "(\<forall>n \<in> B. follows (view (env t)) up n) \<longrightarrow> es2 = [] \<and> view (env u) = view (env t)"
    "missed (env u) = missed (env t) @ ms2"
    by (auto simp: followed_def)
  show ?thesis
    unfolding followed_def
  proof (intro exI [of _ "es1 @ es2"] exI [of _ "ms1 @ ms2"] conjI)
    show "\<forall>n \<in> A \<union> B. follows (view (env u)) up n \<or> set_failed_in up n (es1 @ es2) \<or> n \<in> set (ms1 @ ms2)"
      using 1(2) 2(2,3) by (auto simp: set_failed_in_def)
    show "\<forall>e \<in> set (es1 @ es2). \<exists>n x. n \<in> A \<union> B \<and> e = SetLink n up x"
      using 1(5) 2(5) by fastforce
    show "(\<forall>n \<in> A \<union> B. follows (view (env s)) up n) \<longrightarrow> es1 @ es2 = [] \<and> view (env u) = view (env s)"
      using 1(3,6) 2(6) by auto
  qed (use 1 2 in auto)
qed

context kernel_links
begin

lemma followed_set:
  assumes "view (env s) n = Some l" "link_Name l = n" "IsLinkAdminStateUp l \<noteq> up"
  shows "followed view missed up {n} s (s\<lparr>env := snd (nl_LinkSet nl up l (env s)),
    events := events s @ [SetLink n up (fst (nl_LinkSet nl up l (env s)))]\<rparr>)"
proof (cases "fst (nl_LinkSet nl up l (env s))")
  case None
  with set_ok [of up l "env s"] assms(2) obtain l' where
    "view (snd (nl_LinkSet nl up l (env s))) = (view (env s))(n \<mapsto> l')" "IsLinkAdminStateUp l' = up" by auto
  with assms show ?thesis by (auto simp: followed_def follows_def set_missed)
next
  case (Some e)
  with set_failed [OF Some] assms show ?thesis by (auto simp: followed_def follows_def set_failed_in_def set_missed)
qed

lemma follow_rep_run:
  assumes "m_Netlink m = nl" "run_state (follow_rep m allDown n) s = (u, s')"
  shows "followed view missed (\<not> allDown) {n} s s'"
proof -
  obtain res w where look: "nl_LinkByName nl n (env s) = (res, w)" by fastforce
  have w: "view w = view (env s)" using lookup_view [of n "env s"] look by simp
  show ?thesis
  proof (cases res)
    case (Inl e)
    with look have "followed view missed (\<not> allDown) {n} s (s\<lparr>env := w\<rparr>)"
      using lookup_failed [of n "env s" e w] by (intro followed_idle [OF w]) (auto simp: follows_def split: option.splits)
    with Inl assms look show ?thesis by (auto simp: follow_rep_def LinkByName_def)
  next
    case (Inr l)
    with look have l: "view (env s) n = Some l" "link_Name l = n" "missed w = missed (env s)"
      using lookup_found [of n "env s" l w] by simp_all
    show ?thesis
    proof (cases "IsLinkAdminStateUp l = (\<not> allDown)")
      case True
      with l have "followed view missed (\<not> allDown) {n} s (s\<lparr>env := w\<rparr>)"
        by (intro followed_idle [OF w, of _ "[]"]) (simp_all add: follows_def)
      with Inr assms look True show ?thesis by (auto simp: follow_rep_def LinkByName_def)
    next
      case False
      have "followed view missed (\<not> allDown) {n} (s\<lparr>env := w\<rparr>) (s\<lparr>env := snd (nl_LinkSet nl (\<not> allDown) l w),
          events := events s @ [SetLink n (\<not> allDown) (fst (nl_LinkSet nl (\<not> allDown) l w))]\<rparr>)"
        using followed_set [of "s\<lparr>env := w\<rparr>" n l "\<not> allDown"] l w False by simp
      with followed_trans [OF followed_refl [where view = view and missed = missed and w = w and s = s, OF w l(3)]]
      have "followed view missed (\<not> allDown) {n} s (s\<lparr>env := snd (nl_LinkSet nl (\<not> allDown) l w),
          events := events s @ [SetLink n (\<not> allDown) (fst (nl_LinkSet nl (\<not> allDown) l w))]\<rparr>)" by fastforce
      with Inr assms look l False show ?thesis
        by (cases allDown) (auto simp: follow_rep_def LinkByName_def LinkSetUp_def LinkSetDown_def)
    qed
  qed
qed

lemma follow_reps_run:
  assumes "m_Netlink m = nl" "run_state (follow_reps m allDown reps) s = (u, s')"
  shows "followed view missed (\<not> allDown) (set reps) s s'"
  using assms(2)
proof (induction reps arbitrary: s)
  case Nil
  then show ?case using followed_refl [of view "env s" s missed] by simp
next
  case (Cons n reps)
  obtain t where t: "run_state (follow_rep m allDown n) s = ((), t)"
    by (cases "run_state (follow_rep m allDown n) s") auto
  with Cons.prems have "run_state (follow_reps m allDown reps) t = (u, s')" by simp
  from followed_trans [OF follow_rep_run [OF assms(1) t] Cons.IH [OF this]] show ?case by simp
qed

end

text \<open>
  Which representors a PF has is known and does not change, and asking for them changes no link.
\<close>

definition reps_known :: "'w Monitor \<Rightarrow> ('w \<Rightarrow> string \<Rightarrow> Link option) \<Rightarrow> ('w \<Rightarrow> string list) \<Rightarrow> (string \<Rightarrow> string list result) \<Rightarrow> bool" where
  "reps_known m view missed reps \<longleftrightarrow>
     (\<forall>pf s. \<exists>w. run_state (activeRepsForPF m pf) s = (reps pf, s\<lparr>env := w\<rparr>) \<and>
        view w = view (env s) \<and> missed w = missed (env s))"

definition reps_of :: "(string \<Rightarrow> string list result) \<Rightarrow> string list \<Rightarrow> string set" where
  "reps_of reps pfs = {n. \<exists>pf rs. pf \<in> set pfs \<and> reps pf = Inr rs \<and> n \<in> set rs}"

lemma reps_of_simps [simp]:
  "reps_of reps [] = {}"
  "reps pf = Inl e \<Longrightarrow> reps_of reps (pf # pfs) = reps_of reps pfs"
  "reps pf = Inr rs \<Longrightarrow> reps_of reps (pf # pfs) = set rs \<union> reps_of reps pfs"
  by (auto simp: reps_of_def)

context kernel_links
begin

lemma follow_pfs_run:
  assumes "m_Netlink m = nl" "reps_known m view missed reps" "run_state (follow_pfs m allDown pfs) s = (u, s')"
  shows "followed view missed (\<not> allDown) (reps_of reps pfs) s s'"
  using assms(3)
proof (induction pfs arbitrary: s)
  case Nil
  then show ?case using followed_refl [of view "env s" s missed] by simp
next
  case (Cons pf pfs)
  from assms(2) obtain w where w: "run_state (activeRepsForPF m pf) s = (reps pf, s\<lparr>env := w\<rparr>)" "view w = view (env s)"
      "missed w = missed (env s)"
    unfolding reps_known_def by blast
  note start = followed_refl [where view = view and missed = missed and up = "\<not> allDown", OF w(2,3)]
  show ?case
  proof (cases "reps pf")
    case (Inl e)
    with Cons.prems w(1) have "run_state (follow_pfs m allDown pfs) (s\<lparr>env := w\<rparr>) = (u, s')" by simp
    from followed_trans [OF start Cons.IH [OF this]] Inl show ?thesis by simp
  next
    case (Inr rs)
    obtain t where t: "run_state (follow_reps m allDown rs) (s\<lparr>env := w\<rparr>) = ((), t)"
      by (cases "run_state (follow_reps m allDown rs) (s\<lparr>env := w\<rparr>)") auto
    with Cons.prems w(1) Inr have "run_state (follow_pfs m allDown pfs) t = (u, s')" by simp
    from followed_trans [OF followed_trans [OF start follow_reps_run [OF assms(1) t]] Cons.IH [OF this]] Inr
    show ?thesis by simp
  qed
qed

end

subsection \<open>A kernel\<close>

text \<open>Links by name, the names that cannot be set and those that cannot be looked up, and which lookups failed.\<close>

record links_state =
  links :: "string \<Rightarrow> Link option"
  stuck :: "string set"
  hidden :: "string set"
  missed_log :: "string list"

definition set_flag :: "bool \<Rightarrow> 64 word \<Rightarrow> 64 word" where
  "set_flag up f = (if up then f OR FlagUp else f AND NOT FlagUp)"

definition sim_lookup :: "string \<Rightarrow> links_state \<Rightarrow> Link result \<times> links_state" where
  "sim_lookup n k =
     (case links k n of
        None \<Rightarrow> (Inl (External ''netlink'' ''Link not found''), k)
      | Some l \<Rightarrow>
          if n \<in> hidden k then (Inl (External ''netlink'' ''results may be incomplete or inconsistent''), k\<lparr>missed_log := missed_log k @ [n]\<rparr>)
          else (Inr (l\<lparr>link_Name := n\<rparr>), k))"

definition sim_set :: "bool \<Rightarrow> Link \<Rightarrow> links_state \<Rightarrow> goerr option \<times> links_state" where
  "sim_set up l k =
     (if link_Name l \<in> stuck k then (Some (External ''netlink'' ''Operation not permitted''), k)
      else (None, k\<lparr>links := (links k)(link_Name l \<mapsto> l\<lparr>link_Flags := set_flag up (link_Flags l)\<rparr>)\<rparr>))"

definition sim_netlink :: "links_state Netlink" where
  "sim_netlink = \<lparr>nl_LinkByName = sim_lookup, nl_LinkSet = sim_set, nl_ParseAddr = Inr,
     nl_AddrDel = (\<lambda>l a k. (None, k)), nl_AddrAdd = (\<lambda>l a k. (None, k)), nl_RouteGet = (\<lambda>ip k. (Inr [], k)),
     nl_AddrList = (\<lambda>l fam k. (Inr [], k)), nl_NeighList = (\<lambda>i fam k. (Inr [], k))\<rparr>"

definition sim_view :: "links_state \<Rightarrow> string \<Rightarrow> Link option" where
  "sim_view k n = map_option (\<lambda>l. l\<lparr>link_Name := n\<rparr>) (links k n)"

lemma set_flag_up: "(set_flag up f AND FlagUp = 1) = up"
proof -
  have "f AND 1 = 1 \<longleftrightarrow> odd f" for f :: "64 word" by (simp add: and_one_eq odd_iff_mod_2_eq_one)
  then show ?thesis by (simp add: set_flag_def FlagUp_def even_or_iff even_and_iff even_not_iff)
qed

interpretation sim: kernel_links sim_netlink sim_view missed_log
proof unfold_locales
  fix up l w
  assume "fst (nl_LinkSet sim_netlink up l w) = None"
  then show "\<exists>l'. sim_view (snd (nl_LinkSet sim_netlink up l w)) = (sim_view w)(link_Name l \<mapsto> l') \<and>
      IsLinkAdminStateUp l' = up"
    by (intro exI [of _ "l\<lparr>link_Flags := set_flag up (link_Flags l)\<rparr>"])
      (auto simp: sim_netlink_def sim_set_def sim_view_def fun_eq_iff IsLinkAdminStateUp_def set_flag_up split: if_splits)
qed (auto simp: sim_netlink_def sim_lookup_def sim_set_def sim_view_def split: option.splits if_splits)

text \<open>The check of the PFs, when they exist: it is right, or one of them could not be looked up.\<close>

definition pfs_missed :: "('w \<Rightarrow> string list) \<Rightarrow> string list \<Rightarrow> 'w world \<Rightarrow> 'w \<Rightarrow> bool" where
  "pfs_missed missed pfs s w \<longleftrightarrow> (\<exists>pf \<in> set pfs. missed w = missed (env s) @ [pf])"

context kernel_links
begin

lemma allPFs_run:
  assumes "m_Netlink m = nl" "\<And>pf. pf \<in> set pfs \<Longrightarrow> view (env s) pf \<noteq> None"
  shows "\<exists>r w. run_state (allPFsNoCarrier m pfs) s = (r, s\<lparr>env := w\<rparr>) \<and> view w = view (env s) \<and>
    (case r of
       Inl e \<Rightarrow> pfs_missed missed pfs s w
     | Inr b \<Rightarrow> b = (\<forall>pf \<in> set pfs. IsLinkNoCarrier (the (view (env s) pf))) \<and> missed w = missed (env s))"
  using assms(2)
proof (induction pfs arbitrary: s)
  case Nil
  show ?case by (intro exI [of _ "Inr True"] exI [of _ "env s"]) simp
next
  case (Cons pf pfs)
  obtain res w where look: "nl_LinkByName nl pf (env s) = (res, w)" by fastforce
  have w: "view w = view (env s)" using lookup_view [of pf "env s"] look by simp
  show ?case
  proof (cases res)
    case (Inl e)
    then have "pfs_missed missed (pf # pfs) s w"
      using Cons.prems [of pf] look lookup_failed [of pf "env s" e w] by (simp add: pfs_missed_def)
    with Inl look w show ?thesis by (auto simp: assms(1) LinkByName_def)
  next
    case (Inr l)
    with look have l: "view (env s) pf = Some l" "missed w = missed (env s)"
      using lookup_found [of pf "env s" l w] by auto
    show ?thesis
    proof (cases "IsLinkNoCarrier l")
      case True
      have "\<And>p. p \<in> set pfs \<Longrightarrow> view (env (s\<lparr>env := w\<rparr>)) p \<noteq> None" using Cons.prems w by simp
      from Cons.IH [OF this] obtain r w2 where
        "run_state (allPFsNoCarrier m pfs) (s\<lparr>env := w\<rparr>) = (r, s\<lparr>env := w2\<rparr>)" "view w2 = view (env s)"
        "case r of Inl e \<Rightarrow> pfs_missed missed pfs (s\<lparr>env := w\<rparr>) w2
         | Inr b \<Rightarrow> b = (\<forall>pf \<in> set pfs. IsLinkNoCarrier (the (view (env s) pf))) \<and> missed w2 = missed w" by (auto simp: w cong: sum.case_cong)
      with True Inr l look show ?thesis
        by (intro exI [of _ r] exI [of _ w2]) (auto simp: assms(1) LinkByName_def pfs_missed_def split: sum.splits)
    next
      case False
      with l Inr look w show ?thesis by (auto simp: assms(1) LinkByName_def)
    qed
  qed
qed

end

lemma emits_activeReps: "emits P (activeRepsForPF m pf)"
proof -
  have "emits P (active_reps sn pf vfs reps)" for sn vfs reps
  proof (induction vfs arbitrary: reps)
    case (Cons vf vfs)
    show ?case
      unfolding active_reps.simps by (intro emits_bind emits_observe emits_if emits_case_sum Cons)
  qed (simp add: emits_return)
  then show ?thesis
    unfolding activeRepsForPF_def activeRepsForPF_default_def
    by (intro emits_case_option emits_observe emits_bind emits_case_sum emits_return)
qed

fun sets_down :: "event \<Rightarrow> bool" where
  "sets_down (SetLink n up x) = (\<not> up)"
| "sets_down e = False"

lemma emits_follow_up: "emits (\<lambda>e. \<not> sets_down e) (follow_pfs m False pfs)"
proof (induction pfs)
  case (Cons pf pfs)
  have "emits (\<lambda>e. \<not> sets_down e) (follow_reps m False reps)" for reps
  proof (induction reps)
    case (Cons rep reps)
    show ?case
      unfolding follow_reps.simps follow_rep_def LinkByName_def LinkSetUp_def simp_thms if_False
      by (intro emits_bind emits_observe emits_case_sum emits_if emits_perform emits_return Cons) simp
  qed (simp add: emits_return)
  then show ?case
    unfolding follow_pfs.simps by (intro emits_bind emits_activeReps emits_case_sum Cons)
qed (simp add: emits_return)

lemma emits_tick_rails_disabled: "emits (\<lambda>e. \<not> sets_down e) (tick_rails m False rts)"
proof (induction rts)
  case (Cons rt rts)
  show ?case
    unfolding tick_rails.simps if_False reconcileTopology_def by (intro emits_bind emits_follow_up Cons)
qed (simp add: emits_return)

lemma emits_tick_pools_disabled:
  assumes "\<And>rpc. rpc \<in> set items \<Longrightarrow> \<not> follow_enabled rpc"
  shows "emits (\<lambda>e. \<not> sets_down e) (tick_pools m node items)"
  using assms
proof (induction items)
  case (Cons rpc items)
  then have "follow_enabled rpc = False" by simp
  show ?case
    unfolding tick_pools.simps \<open>follow_enabled rpc = False\<close>
    by (intro emits_if emits_bind emits_tick_rails_disabled Cons.IH) (use Cons.prems in auto)
qed (simp add: emits_return)

section \<open>Properties\<close>

text \<open>
  Property C19. On a kernel that keeps the promises of \<open>kernel_links\<close>, one round over a rail whose
  PFs exist mirrors their carrier: if all PFs are without carrier, every active representor that
  exists ends up admin-down, otherwise admin-up, unless looking it up or setting it failed. If the lookup
  of a PF fails, the round over the rail does nothing. Links that are not representors of the rail stay
  as they are. Which representors are active is taken not to change during the round.
\<close>

theorem rail_carrier_mirrored:
  assumes "kernel_links (m_Netlink m) view missed" "reps_known m view missed reps"
    and "\<forall>pf \<in> set (pf_names rt). view (env s) pf \<noteq> None"
    and "up \<longleftrightarrow> (\<exists>pf \<in> set (pf_names rt). \<not> IsLinkNoCarrier (the (view (env s) pf)))"
    and "run_state (tick_rails m True [rt]) s = ((), s')"
  shows "\<exists>es ms. events s' = events s @ es \<and> missed (env s') = missed (env s) @ ms \<and>
    (\<forall>n. n \<notin> reps_of reps (pf_names rt) \<longrightarrow> view (env s') n = view (env s) n) \<and>
    ((\<exists>pf \<in> set (pf_names rt). ms = [pf]) \<and> es = [] \<and> view (env s') = view (env s) \<or>
     (\<forall>n \<in> reps_of reps (pf_names rt).
        (case view (env s') n of None \<Rightarrow> True | Some l \<Rightarrow> IsLinkAdminStateUp l = up) \<or>
        (\<exists>e. SetLink n up (Some e) \<in> set es) \<or> n \<in> set ms))"
proof -
  have up: "(\<forall>pf \<in> set (pf_names rt). IsLinkNoCarrier (the (view (env s) pf))) = (\<not> up)" using assms(4) by blast
  from kernel_links.allPFs_run [OF assms(1) refl, of "pf_names rt" s, unfolded up] assms(3) obtain r w where
    w: "run_state (allPFsNoCarrier m (pf_names rt)) s = (r, s\<lparr>env := w\<rparr>)" "view w = view (env s)"
    and r: "case r of Inl e \<Rightarrow> pfs_missed missed (pf_names rt) s w | Inr b \<Rightarrow> b = (\<not> up) \<and> missed w = missed (env s)"
    by blast
  show ?thesis
  proof (cases r)
    case (Inl e)
    with w(1) assms(5) have "s' = s\<lparr>env := w\<rparr>" by simp
    with Inl r w(2) show ?thesis by (auto simp: pfs_missed_def)
  next
    case (Inr b)
    obtain t where t: "run_state (follow_pfs m (\<not> up) (pf_names rt)) (s\<lparr>env := w\<rparr>) = ((), t)"
      by (cases "run_state (follow_pfs m (\<not> up) (pf_names rt)) (s\<lparr>env := w\<rparr>)") auto
    from w t assms(5) Inr r have "s' = t" by (simp add: reconcileTopology_def)
    with kernel_links.follow_pfs_run [OF assms(1) refl assms(2) t]
    have "followed view missed up (reps_of reps (pf_names rt)) (s\<lparr>env := w\<rparr>) s'" by simp
    with w(2) r Inr show ?thesis by (auto simp: followed_def follows_def set_failed_in_def)
  qed
qed

text \<open>A node with two PFs without carrier and one representor that is up.\<close>

definition sim_link :: "64 word \<Rightarrow> LinkOperState \<Rightarrow> Link" where
  "sim_link f st = \<lparr>link_Name = ''l'', link_Flags = f, link_OperState = st\<rparr>"

definition sim_monitor :: "SpectrumXRailPoolConfig \<Rightarrow> links_state Monitor" where
  "sim_monitor rpc = \<lparr>m_Client = demo_client rpc [], m_Lib = demo_lib, m_NodeName = ''node'', m_Netlink = sim_netlink,
     m_Sriovnet = \<lparr>GetPfNetdevHandle = (\<lambda>pf k. (no_object, k)), GetVfNetdevName = (\<lambda>pf i k. ([], k)),
       GetVfRepresentor = (\<lambda>pf i k. (no_object, k))\<rparr>,
     PollInterval = 0, FindActiveReps = Some (\<lambda>pf k. (Inr [''rep0''], k))\<rparr>"

definition sim_node :: "LinkOperState \<Rightarrow> links_state world" where
  "sim_node st = \<lparr>events = [],
     env = \<lparr>links = [''p0'' \<mapsto> sim_link 1 st, ''p1'' \<mapsto> sim_link 1 OperDown, ''rep0'' \<mapsto> sim_link 1 OperUp], stuck = {}, hidden = {}, missed_log = []\<rparr>\<rparr>"

lemma sim_reps: "reps_known (sim_monitor rpc) sim_view missed_log (\<lambda>_. Inr [''rep0''])"
  unfolding reps_known_def
proof (intro allI)
  fix pf and s :: "links_state world"
  show "\<exists>w. run_state (activeRepsForPF (sim_monitor rpc) pf) s = (Inr [''rep0''], s\<lparr>env := w\<rparr>) \<and>
      sim_view w = sim_view (env s) \<and> missed_log w = missed_log (env s)"
    by (rule exI [of _ "env s"]) (simp add: sim_monitor_def activeRepsForPF_def)
qed

theorem rail_carrier_mirrored_witness:
  "let s' = snd (run_state (tick_rails (sim_monitor (demo_rpc [] [])) True [demo_rail ''a'' [''p0'', ''p1'']]) (sim_node OperDown)) in
   \<exists>es. events s' = es \<and> (\<forall>l. sim_view (env s') ''rep0'' = Some l \<longrightarrow>
     \<not> IsLinkAdminStateUp l \<or> (\<exists>e. SetLink ''rep0'' False (Some e) \<in> set es))"
proof -
  let ?m = "sim_monitor (demo_rpc [] [])" and ?rt = "demo_rail ''a'' [''p0'', ''p1'']"
  have k: "kernel_links (m_Netlink ?m) sim_view missed_log" using sim.kernel_links_axioms by (simp add: sim_monitor_def)
  have run: "run_state (tick_rails ?m True [?rt]) (sim_node OperDown) =
      ((), snd (run_state (tick_rails ?m True [?rt]) (sim_node OperDown)))" by (simp add: prod_eq_iff)
  have pfs: "\<forall>pf \<in> set (pf_names ?rt). sim_view (env (sim_node OperDown)) pf \<noteq> None"
    "False \<longleftrightarrow> (\<exists>pf \<in> set (pf_names ?rt). \<not> IsLinkNoCarrier (the (sim_view (env (sim_node OperDown)) pf)))"
    by (simp_all add: demo_rail_def sim_view_def sim_node_def sim_link_def IsLinkNoCarrier_def)
  have "''rep0'' \<in> reps_of (\<lambda>_. Inr [''rep0'']) (pf_names ?rt)" by (auto simp: demo_rail_def reps_of_def)
  moreover have "missed_log (env (snd (run_state (tick_rails ?m True [?rt]) (sim_node OperDown)))) = []"
    by (simp add: demo_rail_def sim_monitor_def sim_node_def LinkByName_def LinkSetDown_def sim_netlink_def sim_lookup_def sim_set_def
      sim_link_def IsLinkNoCarrier_def reconcileTopology_def follow_rep_def activeRepsForPF_def perform_def split: prod.splits)
  moreover note rail_carrier_mirrored [OF k sim_reps pfs run]
  ultimately show ?thesis
    by (auto simp: Let_def sim_node_def split: option.splits)
qed

text \<open>
  The monitor settles: when every representor of a rail already has the wanted admin
  state, a further round over it changes no link and sends nothing to the kernel.
\<close>

lemma reconcileTopology_settles:
  assumes "kernel_links (m_Netlink m) view missed" "reps_known m view missed reps"
    and "run_state (reconcileTopology m rt allDown) s = ((), s1)"
    and "\<forall>n \<in> reps_of reps (pf_names rt). follows (view (env s1)) (\<not> allDown) n"
    and "run_state (reconcileTopology m rt allDown) s1 = ((), s2)"
  shows "events s2 = events s1 \<and> view (env s2) = view (env s1)"
  using kernel_links.follow_pfs_run [OF assms(1) refl assms(2) assms(5) [unfolded reconcileTopology_def]] assms(4)
  by (auto simp: followed_def)

text \<open>
  When no pool has carrier following switched on, a tick never takes a link down; it
  can only bring representors up that an earlier tick has taken down.
\<close>

lemma tick_disabled_never_down:
  assumes "\<forall>w items rpc. fst (list_RailPoolConfigs (m_Client m) None w) = Inr items \<and> rpc \<in> set items \<longrightarrow>
    VFStateFollow (rpc_Spec rpc) = Some False"
  shows "emits (\<lambda>e. \<not> (\<exists>n x. e = SetLink n False x)) (tick m)"
proof -
  have read: "trace_spec (observe (list_RailPoolConfigs (m_Client m) None))
      (\<lambda>x es. es = [] \<and> (\<forall>items. x = Inr items \<longrightarrow> (\<forall>rpc \<in> set items. \<not> follow_enabled rpc)))"
    by (rule trace_observe_fact) (use assms in \<open>auto simp: follow_enabled_def\<close>)
  have "emits (\<lambda>e. \<not> sets_down e) (tick m)"
    unfolding tick_def
    by (intro emits_bind emits_observe emits_case_sum emits_return emits_bind_fact [OF read] conjI
        emits_tick_pools_disabled) auto
  then show ?thesis by (rule emits_mono) auto
qed

end
