(* ===== verification/File_Watcher.thy ===== *)
theory File_Watcher
  imports World
begin

text \<open>
  \<^verbatim>\<open>pkg/filewatcher/filewatcher.go\<close>: a polling watcher of one file. The goroutine is a function of
  the sequence of channels its \<open>select\<close> statements find ready; \<open>notify\<close> is the callback, a change
  of the caller's state.
\<close>

section \<open>The watcher\<close>

text \<open>
  Times as \<open>time.Time\<close> counts them: 0 is the zero time (year 1), which \<open>IsZero\<close> recognises. What
  \<open>os.Stat\<close> gives is the modification time or an error, of which the code asks only whether it
  says that the file does not exist.
\<close>

datatype stat = ModTime int | NotExist | StatError

text \<open>
  The outer \<open>select\<close> finds \<open>done\<close> closed, or the ticker fired; in the second case the poll is followed
  by a look at \<open>done\<close>, whose answer is the flag.
\<close>

datatype ready = Done | Tick stat bool

definition initial_time :: "stat \<Rightarrow> int" where
  "initial_time st = (case st of ModTime t \<Rightarrow> t | _ \<Rightarrow> 0)"

text \<open>One poll: the new \<open>lastModTime\<close>, and whether \<open>notify\<close> is called.\<close>

definition poll :: "int \<Rightarrow> stat \<Rightarrow> int \<times> bool" where
  "poll lastModTime st =
     (case st of
        NotExist \<Rightarrow> if lastModTime \<noteq> 0 then (0, True) else (lastModTime, False)
      | StatError \<Rightarrow> (lastModTime, False)
      | ModTime t \<Rightarrow> if t > lastModTime then (t, True) else (lastModTime, False))"

text \<open>After a failed \<open>Stat\<close> the loop continues without the second look at \<open>done\<close>.\<close>

fun watch_loop :: "('w \<Rightarrow> 'w) \<Rightarrow> int \<Rightarrow> ready list \<Rightarrow> 'w \<Rightarrow> 'w" where
  "watch_loop notify lastModTime [] w = w"
| "watch_loop notify lastModTime (Done # rs) w = w"
| "watch_loop notify lastModTime (Tick st closed # rs) w =
     (case poll lastModTime st of (last', notified) \<Rightarrow>
        let w' = (if notified then notify w else w)
        in case st of
             ModTime t \<Rightarrow> if closed then w' else watch_loop notify last' rs w'
           | _ \<Rightarrow> watch_loop notify last' rs w')"

definition WatchFile :: "('w \<Rightarrow> 'w) \<Rightarrow> stat \<Rightarrow> ready list \<Rightarrow> 'w \<Rightarrow> 'w" where
  "WatchFile notify first rs w = watch_loop notify (initial_time first) rs w"

section \<open>What is observed\<close>

text \<open>
  The specification: the file as last seen, absent (\<open>None\<close>) or with a modification time. A poll
  that fails for another reason tells nothing; a change is seen when a poll finds the file
  different from the last time.
\<close>

fun see :: "int option \<Rightarrow> stat \<Rightarrow> int option" where
  "see o1 (ModTime t) = Some t"
| "see o1 NotExist = None"
| "see o1 StatError = o1"

fun changes :: "int option \<Rightarrow> stat list \<Rightarrow> nat" where
  "changes o1 [] = 0"
| "changes o1 (st # sts) = (if see o1 st \<noteq> o1 then 1 else 0) + changes (see o1 st) sts"

text \<open>Modification times after year 1, and not going back while the file stays in place.\<close>

fun forward :: "int option \<Rightarrow> stat list \<Rightarrow> bool" where
  "forward o1 [] = True"
| "forward o1 (st # sts) \<longleftrightarrow>
     (case st of ModTime t \<Rightarrow> 0 < t \<and> (case o1 of None \<Rightarrow> True | Some t0 \<Rightarrow> t0 \<le> t) | _ \<Rightarrow> True) \<and>
     forward (see o1 st) sts"

definition seen_time :: "int option \<Rightarrow> int" where
  "seen_time o1 = (case o1 of None \<Rightarrow> 0 | Some t \<Rightarrow> t)"

text \<open>The watcher simulates the specification through \<open>seen_time\<close>.\<close>

lemma poll_simulates:
  assumes "forward o1 [st]" "\<forall>t. o1 = Some t \<longrightarrow> 0 < t"
  shows "poll (seen_time o1) st = (seen_time (see o1 st), see o1 st \<noteq> o1) \<and> (\<forall>t. see o1 st = Some t \<longrightarrow> 0 < t)"
  using assms by (cases st; cases o1) (auto simp: poll_def seen_time_def)

lemma watch_loop_tick:
  "watch_loop notify l (Tick st False # rs) w =
   watch_loop notify (fst (poll l st)) rs (if snd (poll l st) then notify w else w)"
  by (cases st) (simp_all add: Let_def split: prod.splits)

lemma watch_loop_counts:
  assumes "forward o1 sts" "\<forall>t. o1 = Some t \<longrightarrow> 0 < t"
  shows "watch_loop notify (seen_time o1) (map (\<lambda>st. Tick st False) sts @ rest) w =
    watch_loop notify (seen_time (foldl see o1 sts)) rest ((notify ^^ changes o1 sts) w)"
  using assms
proof (induction sts arbitrary: o1 w)
  case (Cons st sts)
  from Cons.prems have p: "poll (seen_time o1) st = (seen_time (see o1 st), see o1 st \<noteq> o1)"
    "\<forall>t. see o1 st = Some t \<longrightarrow> 0 < t"
    using poll_simulates [of o1 st] by auto
  from Cons.prems Cons.IH [OF _ p(2)] show ?case
    by (simp add: watch_loop_tick p(1) funpow_swap1 del: watch_loop.simps)
qed simp

section \<open>Properties\<close>

text \<open>
  As long as modification times do not go back, the watcher calls \<open>notify\<close> exactly once
  for every change that its polls see: the file appearing, being modified, or disappearing. A poll
  that fails for another reason than a missing file is never taken for a change, and after
  \<open>done\<close> is closed nothing is called any more.
\<close>

lemma WatchFile_notifies_changes:
  assumes "forward (see None first) sts" "forward None [first]"
  shows "WatchFile notify first (map (\<lambda>st. Tick st False) sts @ Done # rest) w =
    (notify ^^ changes (see None first) sts) w"
proof -
  have init: "initial_time first = seen_time (see None first)"
    by (cases first) (simp_all add: initial_time_def seen_time_def)
  have "\<forall>t. see None first = Some t \<longrightarrow> 0 < t" using assms(2) by (cases first) simp_all
  from watch_loop_counts [OF assms(1) this, of notify "Done # rest" w] show ?thesis
    unfolding WatchFile_def init by simp
qed

text \<open>
  A file that is replaced by one with the same or an older modification time, as a
  restored backup or a renamed copy has, is not noticed: the next polls call nothing.
\<close>

lemma WatchFile_misses_older:
  assumes "t' \<le> t"
  shows "WatchFile notify (ModTime t) (map (\<lambda>_. Tick (ModTime t') False) (sts :: unit list) @ [Done]) w = w"
proof -
  have "watch_loop notify t (map (\<lambda>_. Tick (ModTime t') False) sts @ [Done]) w = w"
    using assms by (induction sts) (simp_all add: poll_def)
  then show ?thesis by (simp add: WatchFile_def initial_time_def)
qed

end
