(* ===== verification/Program_Start.thy ===== *)
theory Program_Start
  imports Controllers Stale_Cleaner Monitor File_Watcher
begin

text \<open>
  The start of the program: \<^verbatim>\<open>cmd/flowscontroller/main.go\<close>, the configuration from the environment
  (\<^verbatim>\<open>pkg/config\<close>) and the version string (\<^verbatim>\<open>internal/version\<close>). The manager of controller-runtime,
  the parsers of flags and environment and the SR-IOV host manager are functions of a record; the
  goroutines that \<open>main\<close> starts are the functions of the other theories, and what is recorded here is
  with which values and in which order they are started.
\<close>

section \<open>Configuration\<close>

text \<open>
  The package variables \<open>once\<close> and \<open>operatorConfig\<close>. \<open>env.Parse\<close> fills the struct it is given; its error
  is dropped.
\<close>

record config_vars =
  once_done :: bool
  operatorConfig :: "OperatorConfig option"

type_synonym 'w parse_config = "OperatorConfig \<Rightarrow> 'w \<Rightarrow> (OperatorConfig \<times> goerr option) \<times> 'w"

definition zero_config :: OperatorConfig where
  "zero_config = \<lparr>PodName = [], PodNamespace = [], XPlaneRepository = [], XPlaneImage = [], XPlaneVersion = [],
     ImagePullSecrets = []\<rparr>"

definition initial_vars :: config_vars where
  "initial_vars = \<lparr>once_done = False, operatorConfig = None\<rparr>"

definition FromEnv :: "'w parse_config \<Rightarrow> config_vars \<Rightarrow> 'w \<Rightarrow> OperatorConfig option \<times> config_vars \<times> 'w" where
  "FromEnv parse v w =
     (if once_done v then (operatorConfig v, v, w)
      else case parse zero_config w of ((c, err), w') \<Rightarrow>
        (Some c, \<lparr>once_done = True, operatorConfig = Some c\<rparr>, w'))"

text \<open>Calls one after another, each in the environment it happens to find.\<close>

fun FromEnv_calls :: "'w parse_config \<Rightarrow> config_vars \<Rightarrow> 'w list \<Rightarrow> OperatorConfig option list" where
  "FromEnv_calls parse v [] = []"
| "FromEnv_calls parse v (w # ws) = (case FromEnv parse v w of (c, v', _) \<Rightarrow> c # FromEnv_calls parse v' ws)"

lemma FromEnv_done: "once_done v \<Longrightarrow> FromEnv_calls parse v ws = replicate (length ws) (operatorConfig v)"
  by (induction ws) (simp_all add: FromEnv_def)

text \<open>Whatever becomes of the environment, every call gives the configuration that the first call read.\<close>

lemma FromEnv_stable:
  "FromEnv_calls parse initial_vars (w # ws) = replicate (Suc (length ws)) (Some (fst (fst (parse zero_config w))))"
  by (simp add: FromEnv_def initial_vars_def FromEnv_done split: prod.splits)

section \<open>Version\<close>

text \<open>The variables are set by the linker.\<close>

record version_vars =
  v_version :: string
  v_commit :: string
  v_date :: string
  v_gitTreeState :: string
  v_releaseStatus :: string

definition default_version :: version_vars where
  "default_version = \<lparr>v_version = ''master@git'', v_commit = ''unknown commit'', v_date = ''unknown date'',
     v_gitTreeState = [], v_releaseStatus = []\<rparr>"

definition GetVersionString :: "version_vars \<Rightarrow> string" where
  "GetVersionString v = v_version v @ ''('' @ v_gitTreeState v @ v_releaseStatus v @ ''), commit:'' @ v_commit v @
     '', date:'' @ v_date v"

lemma default_version_string: "GetVersionString default_version = ''master@git(), commit:unknown commit, date:unknown date''"
  by (simp add: GetVersionString_def default_version_def)

section \<open>Options of the manager\<close>

record Flags =
  metricsAddr :: string
  probeAddr :: string
  secureMetrics :: bool
  enableHTTP2 :: bool

definition flag_defaults :: Flags where
  "flag_defaults = \<lparr>metricsAddr = '':8080'', probeAddr = '':8081'', secureMetrics = False, enableHTTP2 = False\<rparr>"

text \<open>Of \<open>tls.Config\<close> the protocols that are offered.\<close>

type_synonym tls_config = "string list"

definition disableHTTP2 :: "tls_config \<Rightarrow> tls_config" where
  "disableHTTP2 c = [''http/1.1'']"

definition tlsOpts :: "Flags \<Rightarrow> (tls_config \<Rightarrow> tls_config) list" where
  "tlsOpts fl = (if \<not> enableHTTP2 fl then [disableHTTP2] else [])"

record ManagerOptions =
  mo_MetricsAddress :: string
  mo_SecureServing :: bool
  mo_MetricsTLS :: "(tls_config \<Rightarrow> tls_config) list"
  mo_WebhookTLS :: "(tls_config \<Rightarrow> tls_config) list"
  mo_PodCacheFields :: "(string \<times> string) list"
  mo_HealthProbeAddress :: string

definition manager_options :: "Flags \<Rightarrow> string \<Rightarrow> ManagerOptions" where
  "manager_options fl node = \<lparr>mo_MetricsAddress = metricsAddr fl, mo_SecureServing = secureMetrics fl,
     mo_MetricsTLS = tlsOpts fl, mo_WebhookTLS = tlsOpts fl,
     mo_PodCacheFields = [(''spec.nodeName'', node)], mo_HealthProbeAddress = probeAddr fl\<rparr>"

text \<open>Unless HTTP/2 is asked for, both servers offer only HTTP/1.1, whatever they would offer otherwise.\<close>

lemma http2_off:
  assumes "\<not> enableHTTP2 fl"
  shows "fold (\<lambda>f. f) (mo_MetricsTLS (manager_options fl node)) c = [''http/1.1'']"
    "fold (\<lambda>f. f) (mo_WebhookTLS (manager_options fl node)) c = [''http/1.1'']"
  using assms by (simp_all add: manager_options_def tlsOpts_def disableHTTP2_def)

section \<open>The outside of \<open>main\<close>\<close>

text \<open>
  What \<open>main\<close> calls. \<open>NewManager\<close> gives the client of the manager; \<open>list_pods\<close> is the list of pods by
  the index that \<open>main\<close> adds. The rest are the outsides of the components.
\<close>

record 'w Boot =
  flag_Parse :: "Flags \<Rightarrow> 'w \<Rightarrow> Flags \<times> 'w"
  env_ParseOptions :: "'w \<Rightarrow> string result \<times> 'w"
  env_ParseConfig :: "'w parse_config"
  GetConfigOrDie :: "'w \<Rightarrow> goerr option \<times> 'w"
  NewManager :: "ManagerOptions \<Rightarrow> 'w \<Rightarrow> 'w Client result \<times> 'w"
  IndexField :: "string \<Rightarrow> (Pod \<Rightarrow> string list) \<Rightarrow> 'w \<Rightarrow> goerr option \<times> 'w"
  Complete :: "'w Controller \<Rightarrow> 'w \<Rightarrow> goerr option \<times> 'w"
  NewDefaultHostManager :: "'w \<Rightarrow> goerr option \<times> 'w"
  AddHealthzCheck :: "string \<Rightarrow> 'w \<Rightarrow> goerr option \<times> 'w"
  AddReadyzCheck :: "string \<Rightarrow> 'w \<Rightarrow> goerr option \<times> 'w"
  mgr_Start :: "'w \<Rightarrow> goerr option \<times> 'w"
  b_Predicates :: Predicates
  b_Lib :: "'w Lib"
  b_Shell :: "'w shell"
  b_Os :: "'w Os"
  b_Netlink :: "'w Netlink"
  b_Sriovnet :: "'w Sriovnet"
  b_Sysfs :: sysfs
  b_append :: multierr_append
  b_list_pods :: "'w Client \<Rightarrow> string \<Rightarrow> 'w \<Rightarrow> Pod list result \<times> 'w"
  b_Script :: string
  b_DropIn :: string

text \<open>The steps of the start that others can see, with the values they are taken with.\<close>

datatype 'w startup =
    CreateManager ManagerOptions
  | WatchOVS string
  | IndexPods string "Pod \<Rightarrow> string list"
  | RegisterController "'w Controller"
  | StartCleaner "'w Cleaner"
  | CreateHostManager
  | AddHealthz string
  | AddReadyz string
  | StartFollower "'w Monitor"
  | StartManager

text \<open>The state of the start: the steps so far with whether they succeeded, and the package variables.\<close>

record 'w boot =
  steps :: "('w startup \<times> bool) list"
  config_of :: config_vars
  boot_env :: 'w

definition outside :: "('w \<Rightarrow> 'a \<times> 'w) \<Rightarrow> ('w boot, 'a) state" where
  "outside f = State (\<lambda>s. case f (boot_env s) of (r, w) \<Rightarrow> (r, s\<lparr>boot_env := w\<rparr>))"

definition attempt :: "'w startup \<Rightarrow> ('w \<Rightarrow> goerr option \<times> 'w) \<Rightarrow> ('w boot, goerr option) state" where
  "attempt st f = State (\<lambda>s. case f (boot_env s) of (err, w) \<Rightarrow>
     (err, s\<lparr>boot_env := w, steps := steps s @ [(st, err = None)]\<rparr>))"

definition attempt_result :: "'w startup \<Rightarrow> ('w \<Rightarrow> 'a result \<times> 'w) \<Rightarrow> ('w boot, 'a result) state" where
  "attempt_result st f = State (\<lambda>s. case f (boot_env s) of (r, w) \<Rightarrow>
     (r, s\<lparr>boot_env := w, steps := steps s @ [(st, error_of r = None)]\<rparr>))"

definition start :: "'w startup \<Rightarrow> ('w boot, unit) state" where
  "start st = State (\<lambda>s. ((), s\<lparr>steps := steps s @ [(st, True)]\<rparr>))"

definition read_config :: "'w parse_config \<Rightarrow> ('w boot, OperatorConfig) state" where
  "read_config parse = State (\<lambda>s. case FromEnv parse (config_of s) (boot_env s) of (c, v, w) \<Rightarrow>
     (case c of Some c \<Rightarrow> c | None \<Rightarrow> zero_config, s\<lparr>config_of := v, boot_env := w\<rparr>))"

text \<open>Go would panic where \<open>read_config\<close> falls back to the zero configuration; \<open>FromEnv\<close> never gives a nil pointer.\<close>

definition vars_wf :: "config_vars \<Rightarrow> bool" where
  "vars_wf v \<longleftrightarrow> (once_done v \<longrightarrow> operatorConfig v \<noteq> None)"

lemma FromEnv_not_nil: "vars_wf v \<Longrightarrow> FromEnv parse v w = (c, v', w') \<Longrightarrow> c \<noteq> None \<and> vars_wf v'"
  by (auto simp: vars_wf_def FromEnv_def split: if_splits prod.splits)

section \<open>\<open>main\<close>\<close>

definition ovs_pid_path :: string where
  "ovs_pid_path = ''/var/run/openvswitch/ovs-vswitchd.pid''"

definition pod_node_index :: "Pod \<Rightarrow> string list" where
  "pod_node_index pod = [pod_NodeName pod]"

text \<open>
  \<open>NewSpectrumXRailPoolConfigHostFlowsReconciler\<close> leaves the own pod and the host root empty. The scheme, the
  flows and the bridge manager that it also stores are read by no modelled method, so the record does
  not have them.
\<close>

definition NewHostFlowsReconciler :: "'w Boot \<Rightarrow> 'w Client \<Rightarrow> 'w shell \<Rightarrow> OperatorConfig \<Rightarrow> string \<Rightarrow> 'w HostReconciler" where
  "NewHostFlowsReconciler B c execAPI cf node = \<lparr>kube = c, lib = b_Lib B, shell = execAPI, osys = b_Os B, nodeName = node,
     ownPod = ([], []), hostRoot = [], scriptContent = b_Script B, dropInContent = b_DropIn B, cfg = cf\<rparr>"

text \<open>The exit code; \<open>os.Exit(1)\<close> at every failure, and 0 when \<open>main\<close> returns.\<close>

definition main :: "'w Boot \<Rightarrow> ('w boot, nat) state" where
  "main B = do {
     fl \<leftarrow> outside (flag_Parse B flag_defaults);
     opts \<leftarrow> outside (env_ParseOptions B);
     case opts of
       Inl err \<Rightarrow> State_Monad.return 1
     | Inr node \<Rightarrow> do {
         died \<leftarrow> outside (GetConfigOrDie B);
         if died \<noteq> None then State_Monad.return 1
         else do {
           mgr \<leftarrow> attempt_result (CreateManager (manager_options fl node)) (NewManager B (manager_options fl node));
           case mgr of
             Inl err \<Rightarrow> State_Monad.return 1
           | Inr client \<Rightarrow> do {
               start (WatchOVS ovs_pid_path);
               err \<leftarrow> attempt (IndexPods ''spec.nodeName'' pod_node_index) (IndexField B ''spec.nodeName'' pod_node_index);
               if err \<noteq> None then State_Monad.return 1
               else do {
                 let execAPI = b_Shell B;
                 let flowsAPI = NewFlows (b_append B) (b_Sysfs B) execAPI;
                 let pods = SetupWithManager_pods (b_Predicates B)
                   \<lparr>fr_NodeName = node, fr_Client = client, fr_Exec = execAPI, fr_Flows = flowsAPI\<rparr> (b_list_pods B);
                 err \<leftarrow> attempt (RegisterController pods) (Complete B pods);
                 if err \<noteq> None then State_Monad.return 1
                 else do {
                   start (StartCleaner \<lparr>cl_Client = client, CleanupInterval = 5 * 60 * 1000000000, cl_Flows = flowsAPI\<rparr>);
                   err \<leftarrow> attempt CreateHostManager (NewDefaultHostManager B);
                   if err \<noteq> None then State_Monad.return 1
                   else do {
                     cf \<leftarrow> read_config (env_ParseConfig B);
                     let rails = snd (SetupWithManager (b_Predicates B) cf node (NewHostFlowsReconciler B client execAPI cf node));
                     err \<leftarrow> attempt (RegisterController rails) (Complete B rails);
                     if err \<noteq> None then State_Monad.return 1
                     else do {
                       err \<leftarrow> attempt (AddHealthz ''healthz'') (AddHealthzCheck B ''healthz'');
                       if err \<noteq> None then State_Monad.return 1
                       else do {
                         err \<leftarrow> attempt (AddReadyz ''readyz'') (AddReadyzCheck B ''readyz'');
                         if err \<noteq> None then State_Monad.return 1
                         else do {
                           start (StartFollower \<lparr>m_Client = client, m_Lib = b_Lib B, m_NodeName = node, m_Netlink = b_Netlink B,
                             m_Sriovnet = b_Sriovnet B, PollInterval = 1000000000, FindActiveReps = None\<rparr>);
                           err \<leftarrow> attempt StartManager (mgr_Start B);
                           if err \<noteq> None then State_Monad.return 1
                           else State_Monad.return 0
                         }
                       }
                     }
                   }
                 }
               }
             }
         }
       }
   }"

section \<open>The order of the start\<close>

text \<open>
  The specification: all steps in order, with one node, one client, one shell and one flows API for all
  components that use them.
\<close>

definition startup_plan :: "'w Boot \<Rightarrow> Flags \<Rightarrow> string \<Rightarrow> 'w Client \<Rightarrow> 'w shell \<Rightarrow> 'w FlowsAPI \<Rightarrow> OperatorConfig
    \<Rightarrow> 'w startup list" where
  "startup_plan B fl node client sh flows cf =
     [CreateManager (manager_options fl node), WatchOVS ovs_pid_path, IndexPods ''spec.nodeName'' pod_node_index,
      RegisterController (SetupWithManager_pods (b_Predicates B)
        \<lparr>fr_NodeName = node, fr_Client = client, fr_Exec = sh, fr_Flows = flows\<rparr> (b_list_pods B)),
      StartCleaner \<lparr>cl_Client = client, CleanupInterval = 300000000000, cl_Flows = flows\<rparr>,
      CreateHostManager,
      RegisterController (snd (SetupWithManager (b_Predicates B) cf node
        \<lparr>kube = client, lib = b_Lib B, shell = sh, osys = b_Os B, nodeName = node, ownPod = ([], []), hostRoot = [],
         scriptContent = b_Script B, dropInContent = b_DropIn B, cfg = cf\<rparr>)),
      AddHealthz ''healthz'', AddReadyz ''readyz'',
      StartFollower \<lparr>m_Client = client, m_Lib = b_Lib B, m_NodeName = node, m_Netlink = b_Netlink B,
        m_Sriovnet = b_Sriovnet B, PollInterval = 1000000000, FindActiveReps = None\<rparr>,
      StartManager]"

text \<open>The controllers of the plan run these reconcilers.\<close>

lemma plan_reconcilers:
  "c_Reconciler (SetupWithManager_pods P r list_pods) = AsPodReconciler (fr_Client r) r"
  "c_Reconciler (snd (SetupWithManager P cf node h)) =
     AsRailReconciler (kube h) (h\<lparr>ownPod := (PodNamespace cf, PodName cf)\<rparr>)"
  by (simp_all add: SetupWithManager_pods_def SetupWithManager_def Let_def)

text \<open>The plan is worked off from the front; the first step that fails is the last one, and the exit code is 1 then.\<close>

fun follows_plan :: "'w startup list \<Rightarrow> nat \<Rightarrow> ('w startup \<times> bool) list \<Rightarrow> bool" where
  "follows_plan [] code es \<longleftrightarrow> code = 0 \<and> es = []"
| "follows_plan (p # ps) code [] \<longleftrightarrow> False"
| "follows_plan (p # ps) code ((q, ok) # es) \<longleftrightarrow> q = p \<and> (if ok then follows_plan ps code es else code = 1 \<and> es = [])"

definition start_spec :: "('w boot, 'a) state \<Rightarrow> ('a \<Rightarrow> ('w startup \<times> bool) list \<Rightarrow> bool) \<Rightarrow> bool" where
  "start_spec m Q \<longleftrightarrow> (\<forall>s. \<exists>es. steps (snd (run_state m s)) = steps s @ es \<and> Q (fst (run_state m s)) es)"

named_theorems start_rules

lemma start_return [start_rules]: "Q a [] \<Longrightarrow> start_spec (State_Monad.return a) Q"
  by (simp add: start_spec_def)

lemma start_bind:
  assumes "\<And>s. \<exists>es1. steps (snd (run_state m s)) = steps s @ es1 \<and>
    start_spec (f (fst (run_state m s))) (\<lambda>r es. Q r (es1 @ es))"
  shows "start_spec (State_Monad.bind m f) Q"
  unfolding start_spec_def
proof
  fix s
  obtain a t where run: "run_state m s = (a, t)" by fastforce
  from assms [of s] run obtain es1 where 1: "steps t = steps s @ es1" "start_spec (f a) (\<lambda>r es. Q r (es1 @ es))" by auto
  from 1(2) obtain es2 where "steps (snd (run_state (f a) t)) = steps t @ es2" "Q (fst (run_state (f a) t)) (es1 @ es2)"
    unfolding start_spec_def by blast
  with run 1(1) show "\<exists>es. steps (snd (run_state (State_Monad.bind m f) s)) = steps s @ es \<and>
      Q (fst (run_state (State_Monad.bind m f) s)) es" by auto
qed

lemma start_outside:
  "(\<And>a. start_spec (f a) Q) \<Longrightarrow> start_spec (State_Monad.bind (outside g) f) Q"
  by (rule start_bind) (simp add: outside_def split: prod.splits)

lemma start_outside_ok [start_rules]:
  assumes "Q 1 []" "start_spec m Q"
  shows "start_spec (State_Monad.bind (outside g) (\<lambda>died. if died \<noteq> None then State_Monad.return 1 else m)) Q"
  using assms by (intro start_outside) (simp add: start_return)

lemma start_config [start_rules]:
  "(\<And>a. start_spec (f a) Q) \<Longrightarrow> start_spec (State_Monad.bind (read_config g) f) Q"
  by (rule start_bind) (simp add: read_config_def split: prod.splits)

lemma start_start [start_rules]:
  "start_spec (f ()) (\<lambda>r es. Q r ((st, True) # es)) \<Longrightarrow> start_spec (State_Monad.bind (start st) f) Q"
  by (rule start_bind) (simp add: start_def)

lemma start_attempt [start_rules]:
  assumes "Q 1 [(st, False)]" "start_spec m (\<lambda>r es. Q r ((st, True) # es))"
  shows "start_spec (State_Monad.bind (attempt st g) (\<lambda>err. if err \<noteq> None then State_Monad.return 1 else m)) Q"
proof (rule start_bind, goal_cases)
  case (1 s)
  obtain err w where "g (boot_env s) = (err, w)" by fastforce
  then show ?case using assms by (cases err) (simp_all add: attempt_def start_return)
qed

lemma start_attempt_result [start_rules]:
  assumes "Q 1 [(st, False)]" "\<And>a. start_spec (f a) (\<lambda>r es. Q r ((st, True) # es))"
  shows "start_spec (State_Monad.bind (attempt_result st g) (\<lambda>r. case r of Inl e \<Rightarrow> State_Monad.return 1 | Inr a \<Rightarrow> f a)) Q"
proof (rule start_bind, goal_cases)
  case (1 s)
  obtain r w where "g (boot_env s) = (r, w)" by fastforce
  then show ?case using assms by (cases r) (simp_all add: attempt_result_def error_of_def start_return)
qed

lemma start_case_sum [start_rules]:
  "(\<And>e. x = Inl e \<Longrightarrow> start_spec (f e) Q) \<Longrightarrow> (\<And>y. x = Inr y \<Longrightarrow> start_spec (g y) Q) \<Longrightarrow>
   start_spec (case x of Inl e \<Rightarrow> f e | Inr y \<Rightarrow> g y) Q"
  by (cases x) auto

text \<open>
  Property C29. Starting the program either ends with exit code 1 before anything is created, because
  the options or the cluster's configuration cannot be read, or works off the plan: the first
  failing step is the last and gives exit code 1. So the manager runs only after both
  controllers are registered, the pods indexed and the cleaner and the follower started. The two
  reconcilers, the cleaner and the follower get the same client, the reconcilers and the follower the same
  node, the reconcilers the same shell, and the pod reconciler and the cleaner the same flows API, which
  runs its commands in that shell.
\<close>

theorem main_starts_in_order:
  assumes "run_state (main B) s = (code, s')"
    and "flows = NewFlows (b_append B) (b_Sysfs B) (b_Shell B)"
  shows "(steps s' = steps s \<and> code = 1) \<or>
    (\<exists>fl node client cf es. steps s' = steps s @ es \<and>
       follows_plan (startup_plan B fl node client (b_Shell B) flows cf) code es)"
proof -
  have "start_spec (main B) (\<lambda>code es. (es = [] \<and> code = 1) \<or>
      (\<exists>fl node client cf. follows_plan (startup_plan B fl node client (b_Shell B) flows cf) code es))"
    unfolding main_def Let_def
  proof (rule start_outside, rule start_outside, intro start_rules, goal_cases)
    case (3 fl opts node)
    show ?case by (simp add: startup_plan_def NewHostFlowsReconciler_def assms(2)) metis
  qed (auto simp: startup_plan_def NewHostFlowsReconciler_def assms(2))
  from this [unfolded start_spec_def, rule_format, of s] assms(1) show ?thesis by auto
qed

text \<open>A start in which everything succeeds.\<close>

definition demo_boot :: "links_state Boot" where
  "demo_boot = \<lparr>flag_Parse = (\<lambda>fl w. (fl, w)), env_ParseOptions = (\<lambda>w. (Inr ''node'', w)),
     env_ParseConfig = (\<lambda>c w. ((demo_cfg, None), w)), GetConfigOrDie = (\<lambda>w. (None, w)),
     NewManager = (\<lambda>opts w. (Inr node_client, w)), IndexField = (\<lambda>f ix w. (None, w)), Complete = (\<lambda>c w. (None, w)),
     NewDefaultHostManager = (\<lambda>w. (None, w)), AddHealthzCheck = (\<lambda>n w. (None, w)), AddReadyzCheck = (\<lambda>n w. (None, w)),
     mgr_Start = (\<lambda>w. (None, w)), b_Predicates = demo_predicates, b_Lib = demo_lib, b_Shell = all_ok_shell,
     b_Os = \<lparr>os_do = (\<lambda>a w. (None, w)), os_ReadFile = (\<lambda>p w. (no_object, w))\<rparr>, b_Netlink = sim_netlink,
     b_Sriovnet = \<lparr>GetPfNetdevHandle = (\<lambda>pf k. (no_object, k)), GetVfNetdevName = (\<lambda>pf i k. ([], k)),
       GetVfRepresentor = (\<lambda>pf i k. (no_object, k))\<rparr>,
     b_Sysfs = demo_sysfs, b_append = first_error, b_list_pods = (\<lambda>c n w. (Inr [], w)), b_Script = [], b_DropIn = []\<rparr>"

definition before_start :: "'w \<Rightarrow> 'w boot" where
  "before_start w = \<lparr>steps = [], config_of = initial_vars, boot_env = w\<rparr>"

lemma demo_boot_code: "fst (run_state (main demo_boot) (before_start w)) = 0"
  by (simp add: main_def demo_boot_def outside_def attempt_def attempt_result_def start_def read_config_def FromEnv_def
      before_start_def initial_vars_def Let_def)

theorem main_starts_in_order_witness:
  "\<exists>fl node client cf. follows_plan (startup_plan demo_boot fl node client all_ok_shell
       (NewFlows first_error demo_sysfs all_ok_shell) cf) 0
     (steps (snd (run_state (main demo_boot) (before_start \<lparr>links = Map.empty, stuck = {}, hidden = {}, missed_log = []\<rparr>))))"
proof -
  let ?s = "before_start \<lparr>links = Map.empty, stuck = {}, hidden = {}, missed_log = []\<rparr> :: links_state boot"
  have "run_state (main demo_boot) ?s = (0, snd (run_state (main demo_boot) ?s))"
    using demo_boot_code by (simp add: prod_eq_iff)
  from main_starts_in_order [OF this refl] show ?thesis by (auto simp: before_start_def demo_boot_def)
qed

section \<open>Restarts of Open vSwitch\<close>

text \<open>
  The callback that \<open>main\<close> hands to the file watcher: it sends one event to each of two channels,
  first the pod reconciler's. The channels have no buffer, so a send waits until its receiver, the raw
  source of the running controller, takes the event. Each channel has the number of events that its
  receiver has taken and how many it will still take, \<open>None\<close> when it goes on receiving for ever. A send
  for which no receiver comes never returns: the goroutine of the watcher is \<open>stuck_in\<close> it and does
  nothing any more.
\<close>

datatype ovs_channel = FlowsControllerChannel | HostFlowsChannel

lemma other_channel [simp]: "c \<noteq> FlowsControllerChannel \<longleftrightarrow> c = HostFlowsChannel"
  by (cases c) auto

record ovs_signals =
  taken :: "ovs_channel \<Rightarrow> nat"
  will_take :: "ovs_channel \<Rightarrow> nat option"
  stuck_in :: "ovs_channel option"

definition send :: "ovs_channel \<Rightarrow> ovs_signals \<Rightarrow> ovs_signals" where
  "send c ch =
     (if stuck_in ch \<noteq> None then ch
      else case will_take ch c of
        None \<Rightarrow> ch\<lparr>taken := (taken ch)(c := taken ch c + 1)\<rparr>
      | Some 0 \<Rightarrow> ch\<lparr>stuck_in := Some c\<rparr>
      | Some (Suc n) \<Rightarrow> ch\<lparr>taken := (taken ch)(c := taken ch c + 1), will_take := (will_take ch)(c := Some n)\<rparr>)"

definition ovs_notify :: "ovs_signals \<Rightarrow> ovs_signals" where
  "ovs_notify ch = send HostFlowsChannel (send FlowsControllerChannel ch)"

definition no_signals :: "(ovs_channel \<Rightarrow> nat option) \<Rightarrow> ovs_signals" where
  "no_signals will = \<lparr>taken = (\<lambda>_. 0), will_take = will, stuck_in = None\<rparr>"

text \<open>
  What holds after any number of calls of the callback: a watcher that is not stuck has delivered every
  event to both receivers, and one that is stuck waits for a receiver that has stopped after the
  events it wanted to take; in any case the first channel is at most one event ahead of the second.
\<close>

definition signals_inv :: "(ovs_channel \<Rightarrow> nat option) \<Rightarrow> nat \<Rightarrow> ovs_signals \<Rightarrow> bool" where
  "signals_inv will n ch \<longleftrightarrow>
     (\<forall>c m. will_take ch c = Some m \<longrightarrow> will c = Some (taken ch c + m)) \<and>
     (\<forall>c. will_take ch c = None \<longrightarrow> will c = None) \<and>
     (case stuck_in ch of
        None \<Rightarrow> \<forall>c. taken ch c = n
      | Some c \<Rightarrow> will c = Some (taken ch c) \<and> taken ch HostFlowsChannel < n \<and>
          taken ch FlowsControllerChannel = taken ch HostFlowsChannel + (if c = HostFlowsChannel then 1 else 0))"

lemma signals_inv_notify: "signals_inv will n ch \<Longrightarrow> signals_inv will (Suc n) (ovs_notify ch)"
  unfolding signals_inv_def ovs_notify_def send_def
  by (cases "stuck_in ch"; cases "will_take ch FlowsControllerChannel"; cases "will_take ch HostFlowsChannel")
    (auto split: option.splits nat.splits)

lemma signals_inv_calls: "signals_inv will n ((ovs_notify ^^ n) (no_signals will))"
proof (induction n)
  case 0
  show ?case by (simp add: signals_inv_def no_signals_def)
qed (simp add: signals_inv_notify)

text \<open>
  Property C30. When Open vSwitch restarts, everything of the node is reconciled again. The watcher polls
  the PID file, and modification times are taken not to go back (a change to an older time is not noticed).
  Then, unless the watcher waits for ever in a send whose receiver takes no more events, each reconciler
  has received exactly one signal for every change of the file that was seen; and the watcher waits so only
  when that receiver has stopped, not while both go on receiving. On a signal the pod reconciler requests exactly the
  pods of the node with a network status, the pool reconciler exactly the pools with a rail whose policy
  selects the node.
\<close>

theorem ovs_restart_reaches_both:
  assumes "forward (see None first) sts" "forward None [first]"
    and "ch = WatchFile ovs_notify first (map (\<lambda>st. Tick st False) sts) (no_signals will)"
    and "\<forall>w. b_list_pods B client node w = (Inr pods, w)"
    and "node_reads client node pol nd items"
    and "c1 = SetupWithManager_pods (b_Predicates B)
      \<lparr>fr_NodeName = node, fr_Client = client, fr_Exec = sh, fr_Flows = flows\<rparr> (b_list_pods B)"
    and "c2 = snd (SetupWithManager (b_Predicates B) cf node (NewHostFlowsReconciler B client sh cf node))"
  shows "(case stuck_in ch of
        None \<Rightarrow> \<forall>c. taken ch c = changes (see None first) sts
      | Some c \<Rightarrow> will c = Some (taken ch c) \<and> taken ch c < changes (see None first) sts) \<and>
    set (fst (run_state (c_RawSource c1) s)) = {(pod_Namespace p, pod_Name p) | p. p \<in> set pods \<and> isPodRelevant node p} \<and>
    set (fst (run_state (c_RawSource c2) s)) = pools_on_node (b_Lib B) pol nd items"
proof -
  have init: "initial_time first = seen_time (see None first)"
    by (cases first) (simp_all add: initial_time_def seen_time_def)
  have "\<forall>t. see None first = Some t \<longrightarrow> 0 < t" using assms(2) by (cases first) simp_all
  from watch_loop_counts [OF assms(1) this, of ovs_notify "[]"]
  have "ch = (ovs_notify ^^ changes (see None first) sts) (no_signals will)"
    unfolding assms(3) WatchFile_def init by simp
  with signals_inv_calls [of will "changes (see None first) sts"]
  have "case stuck_in ch of None \<Rightarrow> \<forall>c. taken ch c = changes (see None first) sts
      | Some c \<Rightarrow> will c = Some (taken ch c) \<and> taken ch c < changes (see None first) sts"
    by (auto simp: signals_inv_def split: option.splits if_splits) (metis ovs_channel.exhaust)
  moreover have "set (fst (run_state (c_RawSource c1) s)) = {(pod_Namespace p, pod_Name p) | p. p \<in> set pods \<and> isPodRelevant node p}"
    using assms(4) by (auto simp: assms(6) SetupWithManager_pods_def hostPodMapFunc_def)
  moreover obtain ks where "set ks = pools_on_node (b_Lib B) pol nd items"
    "run_state (ListRailPoolConfigsForNode client (b_Lib B) node) s = (ks, s)"
    using rail_lister_run [OF assms(5)] by metis
  ultimately show ?thesis by (simp add: assms(7) SetupWithManager_def Let_def NewHostFlowsReconciler_def)
qed

theorem ovs_restart_reaches_both_witness:
  "let ch = WatchFile ovs_notify (ModTime 5) (map (\<lambda>st. Tick st False) [NotExist, ModTime 9]) (no_signals (\<lambda>_. None));
       c2 = snd (SetupWithManager demo_predicates demo_cfg ''node''
         (NewHostFlowsReconciler demo_boot node_client all_ok_shell demo_cfg ''node'')) in
   taken ch FlowsControllerChannel = 2 \<and> taken ch HostFlowsChannel = 2 \<and>
   set (fst (run_state (c_RawSource c2) \<lparr>events = [], env = \<lparr>links = Map.empty, stuck = {}, hidden = {}, missed_log = []\<rparr>\<rparr>)) =
     {(''ns'', ''pool'')}"
proof -
  have b: "b_Predicates demo_boot = demo_predicates" "b_Lib demo_boot = demo_lib"
    "\<forall>w. b_list_pods demo_boot node_client ''node'' w = (Inr [], w)" by (simp_all add: demo_boot_def)
  have fwd: "forward (see None (ModTime 5)) [NotExist, ModTime 9]" "forward None [ModTime 5]" by simp_all
  obtain ch where ch: "ch = WatchFile ovs_notify (ModTime 5) (map (\<lambda>st. Tick st False) [NotExist, ModTime 9]) (no_signals (\<lambda>_. None))"
    by simp
  from ovs_restart_reaches_both [OF fwd ch b(3) node_client_reads refl refl, where cf = demo_cfg and sh = all_ok_shell and
      flows = "NewFlows first_error demo_sysfs all_ok_shell" and
      s = "\<lparr>events = [], env = \<lparr>links = Map.empty, stuck = {}, hidden = {}, missed_log = []\<rparr>\<rparr>", unfolded b(1,2) node_client_pools]
  show ?thesis unfolding Let_def ch [symmetric] by (cases "stuck_in ch") (simp_all add: numeral_eq_Suc)
qed

text \<open>
  The order of the sends matters when a receiver stops: as long as the pod reconciler takes no event, the
  pool reconciler gets none either, however often the file changes.
\<close>

lemma second_waits_for_first:
  assumes "will FlowsControllerChannel = Some 0"
  shows "taken (WatchFile ovs_notify first rs (no_signals will)) HostFlowsChannel = 0"
proof -
  define idle where "idle ch \<longleftrightarrow> taken ch HostFlowsChannel = 0 \<and> (stuck_in ch \<noteq> None \<or> will_take ch FlowsControllerChannel = Some 0)"
    for ch :: ovs_signals
  have step: "idle ch \<Longrightarrow> idle (ovs_notify ch)" for ch
    by (auto simp: idle_def ovs_notify_def send_def split: option.splits nat.splits)
  have "idle ch \<Longrightarrow> idle (watch_loop ovs_notify l rs ch)" for l ch
  proof (induction rs arbitrary: l ch)
    case (Cons r rs)
    then show ?case by (cases r) (auto simp: Let_def step split: prod.splits stat.splits)
  qed simp
  then show ?thesis using assms by (simp add: WatchFile_def idle_def no_signals_def)
qed

end
