(* ===== verification/Pci.thy ===== *)
theory Pci
  imports World Go_Memory "HOL-Library.List_Lexorder" "HOL-Library.Char_ord"
begin

text \<open>
  \<^verbatim>\<open>pkg/lib/pci.go\<close>: picking one network interface per PCI slot. \<open>links\<close> is
  \<open>filepath.EvalSymlinks\<close>. The order in which Go ranges over a map is not specified; it is a
  parameter, of which only that it is a permutation may be used.
\<close>

definition getPCISlot :: "(string \<Rightarrow> string result) \<Rightarrow> string \<Rightarrow> string result" where
  "getPCISlot links iface =
     (case links (filepath_Join [''/sys/class/net'', iface, ''device'']) of
        Inl err \<Rightarrow> Inl err
      | Inr resolved \<Rightarrow>
          (let pciAddr = last (Split resolved CHR ''/'')
           in Inr (hd (Split pciAddr CHR ''.''))))"

text \<open>The loop that fills the map \<open>seen\<close> from slots to interfaces, as the list of its entries.\<close>

fun first_per_slot :: "(string \<Rightarrow> string result) \<Rightarrow> string list \<Rightarrow> (string \<times> string) list \<Rightarrow> (string \<times> string) list" where
  "first_per_slot links [] seen = seen"
| "first_per_slot links (iface # ifaces) seen =
     (case getPCISlot links iface of
        Inl err \<Rightarrow> first_per_slot links ifaces seen
      | Inr slot \<Rightarrow>
          if slot \<in> fst ` set seen then first_per_slot links ifaces seen
          else first_per_slot links ifaces (seen @ [(slot, iface)]))"

text \<open>On failure the code returns the empty list beside the error.\<close>

definition FilterNICs ::
    "((string \<times> string) list \<Rightarrow> (string \<times> string) list) \<Rightarrow> (string \<Rightarrow> string result) \<Rightarrow> string list \<Rightarrow> string list result" where
  "FilterNICs order links pfNames =
     (let res = map snd (order (first_per_slot links pfNames []))
      in if res = [] then Inl (ErrorString ''expect at least NIC found but got 0'') else Inr (sort res))"

section \<open>The map of first interfaces\<close>

text \<open>The interfaces that are the first of their slot.\<close>

definition leads :: "(string \<Rightarrow> string result) \<Rightarrow> string list \<Rightarrow> string \<Rightarrow> string \<Rightarrow> bool" where
  "leads links pfs slot iface \<longleftrightarrow>
     (\<exists>pre post. pfs = pre @ iface # post \<and> getPCISlot links iface = Inr slot \<and>
        (\<forall>x \<in> set pre. getPCISlot links x \<noteq> Inr slot))"

lemma leads_snoc:
  "leads links (pfs @ [x]) slot iface \<longleftrightarrow>
   leads links pfs slot iface \<or>
   (iface = x \<and> getPCISlot links x = Inr slot \<and> (\<forall>y \<in> set pfs. getPCISlot links y \<noteq> Inr slot))"
  (is "?l \<longleftrightarrow> ?r")
proof
  assume ?l
  then obtain pre post where p: "pfs @ [x] = pre @ iface # post" "getPCISlot links iface = Inr slot"
    "\<forall>y \<in> set pre. getPCISlot links y \<noteq> Inr slot" by (auto simp: leads_def)
  show ?r
  proof (cases post rule: rev_cases)
    case Nil
    with p show ?thesis by auto
  next
    case (snoc post' z)
    with p show ?thesis by (auto simp: leads_def)
  qed
next
  assume ?r
  then show ?l by (fastforce simp: leads_def)
qed

lemma leads_exists: "(\<exists>iface. leads links pfs slot iface) \<longleftrightarrow> (\<exists>x \<in> set pfs. getPCISlot links x = Inr slot)"
proof (induction pfs rule: rev_induct)
  case Nil
  show ?case by (simp add: leads_def)
next
  case (snoc x pfs)
  then show ?case unfolding leads_snoc by auto
qed

lemma first_per_slot_append:
  "first_per_slot links (xs @ ys) seen = first_per_slot links ys (first_per_slot links xs seen)"
  by (induction xs arbitrary: seen) (auto split: sum.splits)

lemma first_per_slot_spec:
  "distinct (map fst (first_per_slot links pfs [])) \<and>
   (\<forall>slot iface. (slot, iface) \<in> set (first_per_slot links pfs []) \<longleftrightarrow> leads links pfs slot iface)"
proof (induction pfs rule: rev_induct)
  case (snoc x pfs)
  have keys: "slot \<in> fst ` set (first_per_slot links pfs []) \<longleftrightarrow> (\<exists>y \<in> set pfs. getPCISlot links y = Inr slot)" for slot
    using snoc leads_exists [of links pfs slot] by force
  show ?case
  proof (cases "getPCISlot links x")
    case (Inl e)
    with snoc show ?thesis by (simp add: first_per_slot_append leads_snoc)
  next
    case (Inr slot)
    with snoc keys [of slot] show ?thesis
      by (cases "slot \<in> fst ` set (first_per_slot links pfs [])") (auto simp: first_per_slot_append leads_snoc)
  qed
qed (simp add: leads_def)

lemma leads_slot: "leads links pfs slot iface \<Longrightarrow> getPCISlot links iface = Inr slot"
  by (auto simp: leads_def)

lemma first_per_slot_distinct: "distinct (map snd (first_per_slot links pfs []))"
proof -
  note spec = first_per_slot_spec [of links pfs]
  then have "distinct (first_per_slot links pfs [])" by (auto simp: distinct_map)
  moreover have "inj_on snd (set (first_per_slot links pfs []))"
    using spec by (auto simp: inj_on_def dest!: leads_slot)
  ultimately show ?thesis by (simp add: distinct_map)
qed

section \<open>Properties\<close>

text \<open>
  Property C33. Whatever order the map is ranged in, \<open>FilterNICs\<close> fails exactly if no interface has a
  known slot, and otherwise returns the sorted list, without duplicates, of the interfaces that
  are the first of their PCI slot: one interface for every slot that occurs.
\<close>

theorem FilterNICs_one_per_slot:
  assumes "range_law order"
  shows "case FilterNICs order links pfs of
      Inl _ \<Rightarrow> \<forall>x \<in> set pfs. \<exists>e. getPCISlot links x = Inl e
    | Inr res \<Rightarrow> res \<noteq> [] \<and> sorted res \<and> distinct res \<and> (\<forall>x. x \<in> set res \<longleftrightarrow> (\<exists>slot. leads links pfs slot x))"
proof -
  let ?e = "first_per_slot links pfs []"
  have ms: "mset (map snd (order ?e)) = mset (map snd ?e)"
    using assms by (simp add: range_law_def)
  have members: "x \<in> snd ` set ?e \<longleftrightarrow> (\<exists>slot. leads links pfs slot x)" for x
    using first_per_slot_spec [of links pfs] by force
  show ?thesis
  proof (cases "map snd (order ?e) = []")
    case True
    with ms have "?e = []" by simp
    with members have none: "\<not> leads links pfs slot x" for slot x by auto
    have "\<exists>e. getPCISlot links x = Inl e" if "x \<in> set pfs" for x
      using leads_exists [of links pfs] none that by (cases "getPCISlot links x") blast+
    with True show ?thesis by (simp add: FilterNICs_def)
  next
    case False
    from ms have "set (map snd (order ?e)) = set (map snd ?e)" "distinct (map snd (order ?e))"
      using first_per_slot_distinct [of links pfs] by (metis set_mset_mset, metis mset_eq_imp_distinct_iff)
    moreover have "sort (map snd (order ?e)) \<noteq> []"
      using False by (metis mset.simps(1) mset_sort mset_zero_iff)
    ultimately show ?thesis using False members by (simp add: FilterNICs_def Let_def)
  qed
qed

definition demo_links :: "string \<Rightarrow> string result" where
  "demo_links path = Inr (''/sys/devices/0000:d8:00.0'')"

lemma rev_range_law: "range_law rev"
  by (simp add: range_law_def)

theorem FilterNICs_one_per_slot_witness:
  "FilterNICs rev demo_links [''b'', ''a''] = Inr [''b''] \<and>
   (\<forall>x. x \<in> set [''b''] \<longleftrightarrow> (\<exists>slot. leads demo_links [''b'', ''a''] slot x))"
proof -
  have "FilterNICs rev demo_links [''b'', ''a''] = Inr [''b'']"
    by (simp add: FilterNICs_def getPCISlot_def demo_links_def)
  with FilterNICs_one_per_slot [OF rev_range_law, where links = demo_links and pfs = "[''b'', ''a'']"] show ?thesis by simp
qed

end
