(* ===== verification/Daemonset_Sync.thy ===== *)
theory Daemonset_Sync
  imports XPlane Views
begin

text \<open>
  The xplane DaemonSet on the API server. \<open>XPlane\<close> shows which writes \<open>syncDsObject\<close> sends; here the DaemonSets are a
  state that reads and accepted writes act on, and synchronisation is shown to reach a DaemonSet that is in sync, to
  leave one that is in sync alone, and what that means for several pools and for changes of the node selector.
\<close>

section \<open>The server\<close>

definition ds_key :: "DaemonSet \<Rightarrow> nsname" where
  "ds_key ds = (ds_Namespace ds, ds_Name ds)"

text \<open>The test with which the code decides that nothing has to be updated.\<close>

definition in_sync :: "'w Lib \<Rightarrow> DaemonSet \<Rightarrow> DaemonSet \<Rightarrow> bool" where
  "in_sync lb inn ds \<longleftrightarrow> DeepEqual_owners lb (ds_OwnerReferences inn) (ds_OwnerReferences ds) \<and>
     DeepEqual_tolerations lb (ds_Tolerations inn) (ds_Tolerations ds) \<and> DeepDerivative_spec lb inn ds"

text \<open>
  The contract: a read returns what is stored, or that there is nothing. An accepted write stores the DaemonSet with the owners,
  tolerations and node selector that were sent; the server may add values for fields that were not set, so what was sent is
  derived from what is stored. The comparison does not look at the resource version, which the server assigns.
\<close>

locale daemonset_server =
  fixes r :: "'w HostReconciler"
    and dsets :: "'w \<Rightarrow> nsname \<rightharpoonup> DaemonSet"
  assumes read_keeps: "dsets (snd (get_DaemonSet (kube r) k w)) = dsets w"
    and found: "fst (get_DaemonSet (kube r) k w) = Inr ds \<Longrightarrow> dsets w k = Some ds"
    and missing: "fst (get_DaemonSet (kube r) k w) = Inl e \<Longrightarrow> IsNotFound (lib r) e \<Longrightarrow> dsets w k = None"
    and written: "a = CreateDaemonSet ds \<or> a = UpdateDaemonSet ds \<Longrightarrow> fst (api_do (kube r) a w) = None \<Longrightarrow>
      \<exists>ds'. dsets (snd (api_do (kube r) a w)) = (dsets w)(ds_key ds \<mapsto> ds') \<and> in_sync (lib r) ds ds' \<and>
        ds_NodeSelector ds' = ds_NodeSelector ds"
    and version_ignored: "in_sync (lib r) (ds\<lparr>ds_ResourceVersion := v\<rparr>) ds' = in_sync (lib r) ds ds'"
begin

text \<open>After a success the DaemonSet is in sync; it was written unless it was in sync before, and nothing else changed.\<close>

lemma syncDaemonSet_run:
  assumes "SetControllerReference_ds (lib r) rpc in0 = Inr inn" "run_state (syncDaemonSet r rpc in0) s = (None, s')"
  shows "(\<exists>ds. dsets (env s) (ds_key inn) = Some ds \<and> in_sync (lib r) inn ds \<and> dsets (env s') = dsets (env s) \<and> events s' = events s) \<or>
    (\<exists>ds'. dsets (env s') = (dsets (env s))(ds_key inn \<mapsto> ds') \<and> in_sync (lib r) inn ds' \<and> ds_NodeSelector ds' = ds_NodeSelector inn)"
proof -
  let ?k = "(ds_Namespace inn, ds_Name inn)"
  obtain got w where get: "get_DaemonSet (kube r) ?k (env s) = (got, w)" by fastforce
  then have w: "dsets w = dsets (env s)" using read_keeps [of ?k "env s"] by simp
  have wrote: "\<exists>ds'. dsets (env s') = (dsets (env s))(ds_key inn \<mapsto> ds') \<and> in_sync (lib r) inn ds' \<and> ds_NodeSelector ds' = ds_NodeSelector inn"
    if "a = CreateDaemonSet ds \<or> a = UpdateDaemonSet ds" "ds = inn \<or> (\<exists>v. ds = inn\<lparr>ds_ResourceVersion := v\<rparr>)"
      "run_state (api_call (kube r) a) (s\<lparr>env := w\<rparr>) = (None, s')" for a ds
  proof -
    have "fst (api_do (kube r) a w) = None" "env s' = snd (api_do (kube r) a w)"
      using that(3) by (auto simp: api_call_def split: prod.splits)
    from written [OF that(1) this(1)] this(2) w obtain ds' where
      "dsets (env s') = (dsets (env s))(ds_key ds \<mapsto> ds')" "in_sync (lib r) ds ds'" "ds_NodeSelector ds' = ds_NodeSelector ds" by auto
    with that(2) show ?thesis by (auto simp: version_ignored ds_key_def)
  qed
  show ?thesis
  proof (cases got)
    case (Inl e)
    with assms get show ?thesis
      by (cases "IsNotFound (lib r) e") (auto simp: syncDaemonSet_def dest: wrote [of _ inn, OF disjI1 [OF refl] disjI1 [OF refl]])
  next
    case (Inr ds)
    then have ds: "dsets (env s) (ds_key inn) = Some ds" using found [of ?k "env s" ds] get by (simp add: ds_key_def)
    show ?thesis
    proof (cases "in_sync (lib r) inn ds")
      case True
      with assms get Inr w ds show ?thesis by (auto simp: syncDaemonSet_def in_sync_def)
    next
      case False
      then have "run_state (api_call (kube r) (UpdateDaemonSet (inn\<lparr>ds_ResourceVersion := ds_ResourceVersion ds\<rparr>))) (s\<lparr>env := w\<rparr>) = (None, s')"
        using assms get Inr by (auto simp: syncDaemonSet_def in_sync_def)
      from wrote [OF disjI2 [OF refl] _ this] show ?thesis by blast
    qed
  qed
qed

lemma syncDaemonSet_silent:
  assumes "SetControllerReference_ds (lib r) rpc in0 = Inr inn" "run_state (syncDaemonSet r rpc in0) s = (x, s')"
    and "dsets (env s) (ds_key inn) = Some ds" "in_sync (lib r) inn ds"
  shows "dsets (env s') = dsets (env s) \<and> events s' = events s"
proof -
  let ?k = "(ds_Namespace inn, ds_Name inn)"
  obtain got w where get: "get_DaemonSet (kube r) ?k (env s) = (got, w)" by fastforce
  then have "dsets w = dsets (env s)" using read_keeps [of ?k "env s"] by simp
  moreover have "got = Inr ds \<or> (\<exists>e. got = Inl e \<and> \<not> IsNotFound (lib r) e)"
    using found [of ?k "env s"] missing [of ?k "env s"] get assms(3) by (cases got) (auto simp: ds_key_def)
  ultimately show ?thesis using assms(1,2,4) get by (auto simp: syncDaemonSet_def in_sync_def)
qed

text \<open>A DaemonSet that another owner wrote is overwritten, and one that differs only in fields that are not set is not.\<close>

lemma syncDaemonSet_takes_over:
  assumes "SetControllerReference_ds (lib r) rpc in0 = Inr inn" "run_state (syncDaemonSet r rpc in0) s = (None, s')"
    and "dsets (env s) (ds_key inn) = Some ds" "\<not> in_sync (lib r) inn ds"
  shows "\<exists>ds'. dsets (env s') = (dsets (env s))(ds_key inn \<mapsto> ds') \<and> in_sync (lib r) inn ds' \<and> ds_NodeSelector ds' = ds_NodeSelector inn"
  using syncDaemonSet_run [OF assms(1,2)] assms(3,4) by auto

lemma syncDaemonSet_reaches:
  assumes "SetControllerReference_ds (lib r) rpc in0 = Inr inn" "run_state (syncDaemonSet r rpc in0) s = (None, s')"
  shows "(\<exists>ds. dsets (env s') (ds_key inn) = Some ds \<and> in_sync (lib r) inn ds) \<and>
    (\<forall>k. k \<noteq> ds_key inn \<longrightarrow> dsets (env s') k = dsets (env s) k)"
  using syncDaemonSet_run [OF assms] by auto

end

text \<open>A DaemonSet of the manifests for a pool, as it is compared and sent; \<open>None\<close> if that fails.\<close>

definition wanted_ds :: "'w Lib \<Rightarrow> SpectrumXRailPoolConfig \<Rightarrow> Unstructured \<Rightarrow> Toleration list \<Rightarrow> DaemonSet option" where
  "wanted_ds lb rpc obj tolerations =
     (case updateDaemonsetNodeSelector lb obj (NodeSelector (rpc_Spec rpc)) of
        Inl err \<Rightarrow> None
      | Inr obj' \<Rightarrow>
          (case Convert_obj_ds lb obj' of
             Inl err \<Rightarrow> None
           | Inr ds \<Rightarrow>
               (case SetControllerReference_ds lb rpc (ds\<lparr>ds_Tolerations := tolerations\<rparr>) of
                  Inl err \<Rightarrow> None
                | Inr inn \<Rightarrow> Some inn)))"

lemma syncDsObject_daemonset:
  assumes "u_Kind obj = ''DaemonSet''" "run_state (syncDsObject r rpc obj tolerations) s = (None, s')"
  obtains in0 inn where "wanted_ds (lib r) rpc obj tolerations = Some inn" "SetControllerReference_ds (lib r) rpc in0 = Inr inn"
    "run_state (syncDaemonSet r rpc in0) s = (None, s')"
  using assms by (auto simp: syncDsObject_def wanted_ds_def syncDaemonSet_def split: sum.splits)

lemma wanted_placed:
  assumes "daemonset_law lb" "wanted_ds lb rpc obj tolerations = Some inn"
  shows "placed rpc tolerations inn"
proof -
  obtain obj' ds where "updateDaemonsetNodeSelector lb obj (NodeSelector (rpc_Spec rpc)) = Inr obj'" "Convert_obj_ds lb obj' = Inr ds"
    and own: "SetControllerReference_ds lb rpc (ds\<lparr>ds_Tolerations := tolerations\<rparr>) = Inr inn"
    using assms(2) by (auto simp: wanted_ds_def split: sum.splits)
  then show ?thesis by (blast intro: placed_owned [OF assms(1) _ own] placed_converted [OF assms(1)])
qed

text \<open>
  What the comparisons of apimachinery promise: \<open>DeepEqual\<close> of owner references is equality, and \<open>DeepDerivative\<close>
  ignores fields that are not set in its first argument, a node selector among them.
\<close>

definition equality_law :: "'w Lib \<Rightarrow> bool" where
  "equality_law lb \<longleftrightarrow> (\<forall>xs ys. DeepEqual_owners lb xs ys \<longleftrightarrow> xs = ys) \<and>
     (\<forall>a b. DeepDerivative_spec lb a b \<longrightarrow> DeepDerivative_spec lb (a\<lparr>ds_NodeSelector := Map.empty\<rparr>) b)"

lemma in_sync_unset: "equality_law lb \<Longrightarrow> in_sync lb inn ds \<Longrightarrow> in_sync lb (inn\<lparr>ds_NodeSelector := Map.empty\<rparr>) ds"
  by (simp add: equality_law_def in_sync_def)

section \<open>A server that keeps the contract\<close>

definition ds_do :: "api_write \<Rightarrow> (nsname \<rightharpoonup> DaemonSet) \<Rightarrow> goerr option \<times> (nsname \<rightharpoonup> DaemonSet)" where
  "ds_do a w = (case a of
      CreateDaemonSet ds \<Rightarrow> (None, w(ds_key ds \<mapsto> ds\<lparr>ds_ResourceVersion := ''1''\<rparr>))
    | UpdateDaemonSet ds \<Rightarrow> (None, w(ds_key ds \<mapsto> ds\<lparr>ds_ResourceVersion := ds_ResourceVersion ds @ ''1''\<rparr>))
    | _ \<Rightarrow> (None, w))"

definition pool_owner :: "SpectrumXRailPoolConfig \<Rightarrow> OwnerReference" where
  "pool_owner rpc = \<lparr>or_APIVersion = ''v1alpha2'', or_Kind = ''SpectrumXRailPoolConfig'', or_Name = rpc_Name rpc, or_UID = rpc_Name rpc,
     or_Controller = Some True\<rparr>"

definition ds_lib :: "'w Lib" where
  "ds_lib = demo_lib\<lparr>SetControllerReference_ds := (\<lambda>rpc ds. Inr (ds\<lparr>ds_OwnerReferences := [pool_owner rpc]\<rparr>))\<rparr>"

definition ds_reconciler :: "(nsname \<rightharpoonup> DaemonSet) HostReconciler" where
  "ds_reconciler = (demo_reconciler
     ((demo_client (demo_rpc [] []) [])\<lparr>get_DaemonSet := (\<lambda>k w. (case w k of None \<Rightarrow> no_object | Some ds \<Rightarrow> Inr ds, w)), api_do := ds_do\<rparr>)
     all_ok_shell \<lparr>os_do = (\<lambda>f w. (None, w)), os_ReadFile = (\<lambda>p w. (no_object, w))\<rparr>)\<lparr>lib := ds_lib\<rparr>"

interpretation dserver: daemonset_server ds_reconciler "\<lambda>w. w"
  by unfold_locales
    (auto simp: ds_reconciler_def demo_reconciler_def ds_do_def in_sync_def ds_lib_def demo_lib_def ds_key_def no_object_def split: option.splits)

text \<open>The DaemonSet of the manifests; on this server its synchronisation succeeds for every pool.\<close>

definition xplane_obj :: Unstructured where
  "xplane_obj = \<lparr>u_Kind = ''DaemonSet'', u_Name = ''xplane'', u_Namespace = ''ns'', u_OwnerReferences = [], u_NodeSelector = Map.empty,
     u_Content = []\<rparr>"

definition xplane_ds :: "SpectrumXRailPoolConfig \<Rightarrow> DaemonSet" where
  "xplane_ds rpc = (demo_convert xplane_obj)\<lparr>ds_NodeSelector := NodeSelector (rpc_Spec rpc), ds_OwnerReferences := [pool_owner rpc]\<rparr>"

lemma ds_reconciler_simps [simp]:
  "lib ds_reconciler = ds_lib" "api_do (kube ds_reconciler) = ds_do"
  "get_DaemonSet (kube ds_reconciler) k w = (case w k of None \<Rightarrow> no_object | Some ds \<Rightarrow> Inr ds, w)"
  by (simp_all add: ds_reconciler_def demo_reconciler_def)

lemma xplane_wanted: "wanted_ds ds_lib rpc xplane_obj [] = Some (xplane_ds rpc)"
  by (simp add: wanted_ds_def ds_lib_def demo_lib_def updateDaemonsetNodeSelector_def xplane_ds_def xplane_obj_def demo_convert_def)

abbreviation (input) sync_xplane ::
  "SpectrumXRailPoolConfig \<Rightarrow> (nsname \<rightharpoonup> DaemonSet) world \<Rightarrow> goerr option \<times> (nsname \<rightharpoonup> DaemonSet) world" where
  "sync_xplane rpc s \<equiv> run_state (syncDsObject ds_reconciler rpc xplane_obj []) s"

lemma xplane_succeeds: "sync_xplane rpc s = (None, snd (sync_xplane rpc s))"
  by (simp add: prod_eq_iff syncDsObject_def syncDaemonSet_def updateDaemonsetNodeSelector_def xplane_obj_def ds_lib_def demo_lib_def
      no_object_def api_call_def ds_do_def split: option.splits)

section \<open>Properties\<close>

text \<open>
  Property C25. Synchronising the DaemonSet of xplane for a pool reaches its goal: after a success a DaemonSet is stored that the
  wanted one is derived from, with the pool as its owner and the agent's tolerations, and no other DaemonSet has
  changed. It also settles: if nobody else writes, repeating it sends nothing.
\<close>

theorem syncDsObject_converges:
  assumes "daemonset_server r dsets" "u_Kind obj = ''DaemonSet''"
    and "run_state (syncDsObject r rpc obj tolerations) s = (None, s1)"
    and "run_state (syncDsObject r rpc obj tolerations) s1 = (None, s2)"
  shows "\<exists>inn ds. wanted_ds (lib r) rpc obj tolerations = Some inn \<and> dsets (env s1) (ds_key inn) = Some ds \<and> in_sync (lib r) inn ds \<and>
    (\<forall>k. k \<noteq> ds_key inn \<longrightarrow> dsets (env s1) k = dsets (env s) k) \<and>
    dsets (env s2) = dsets (env s1) \<and> events s2 = events s1"
proof -
  obtain in0 inn where inn: "wanted_ds (lib r) rpc obj tolerations = Some inn" "SetControllerReference_ds (lib r) rpc in0 = Inr inn"
    "run_state (syncDaemonSet r rpc in0) s = (None, s1)" by (rule syncDsObject_daemonset [OF assms(2,3)])
  obtain in2 where in2: "SetControllerReference_ds (lib r) rpc in2 = Inr inn" "run_state (syncDaemonSet r rpc in2) s1 = (None, s2)"
    using syncDsObject_daemonset [OF assms(2,4)] inn(1) by (metis option.inject)
  from daemonset_server.syncDaemonSet_reaches [OF assms(1) inn(2,3)] obtain ds where
    ds: "dsets (env s1) (ds_key inn) = Some ds" "in_sync (lib r) inn ds" "\<forall>k. k \<noteq> ds_key inn \<longrightarrow> dsets (env s1) k = dsets (env s) k" by blast
  from daemonset_server.syncDaemonSet_silent [OF assms(1) in2 ds(1,2)] inn(1) ds show ?thesis by blast
qed

theorem syncDsObject_converges_witness:
  "let rpc = demo_rpc [] []; s1 = snd (sync_xplane rpc \<lparr>events = [], env = Map.empty\<rparr>); s2 = snd (sync_xplane rpc s1) in
   env s1 (''ns'', ''xplane'') \<noteq> None \<and> events s2 = events s1"
proof -
  have key: "ds_key (xplane_ds (demo_rpc [] [])) = (''ns'', ''xplane'')"
    by (simp add: ds_key_def xplane_ds_def demo_convert_def xplane_obj_def)
  have "u_Kind xplane_obj = ''DaemonSet''" by (simp add: xplane_obj_def)
  from syncDsObject_converges [OF dserver.daemonset_server_axioms this xplane_succeeds xplane_succeeds,
      of "demo_rpc [] []" "\<lparr>events = [], env = Map.empty\<rparr>"]
  show ?thesis by (auto simp: Let_def xplane_wanted key)
qed

text \<open>
  Property C36. The name of the xplane DaemonSet does not depend on the pool, so pools of a namespace take it from each other: after
  pool \<open>a\<close> was synchronised, a synchronisation for \<open>b\<close> with its own owner reference makes it \<open>b\<close>'s, and with the node selector
  of \<open>b\<close> the nodes of \<open>a\<close> are no longer selected.
\<close>

theorem xplane_follows_last_pool:
  assumes "daemonset_server r dsets" "daemonset_law (lib r)" "equality_law (lib r)" "u_Kind obj = ''DaemonSet''"
    and "wanted_ds (lib r) a obj ta = Some x" "wanted_ds (lib r) b obj tb = Some y"
    and "ds_key x = ds_key y" "ds_OwnerReferences x \<noteq> ds_OwnerReferences y" "NodeSelector (rpc_Spec b) \<noteq> Map.empty"
    and "run_state (syncDsObject r a obj ta) s = (None, s1)" "run_state (syncDsObject r b obj tb) s1 = (None, s2)"
  shows "\<exists>ds. dsets (env s2) (ds_key x) = Some ds \<and> ds_OwnerReferences ds = ds_OwnerReferences y \<and>
    ds_NodeSelector ds = NodeSelector (rpc_Spec b)"
proof -
  have owners: "ds_OwnerReferences i = ds_OwnerReferences ds" if "in_sync (lib r) i ds" for i ds
    using that assms(3) by (simp add: in_sync_def equality_law_def)
  obtain in1 where "SetControllerReference_ds (lib r) a in1 = Inr x" "run_state (syncDaemonSet r a in1) s = (None, s1)"
    using syncDsObject_daemonset [OF assms(4,10)] assms(5) by (metis option.inject)
  from daemonset_server.syncDaemonSet_reaches [OF assms(1) this] obtain d where
    d: "dsets (env s1) (ds_key y) = Some d" "ds_OwnerReferences d = ds_OwnerReferences x" using owners assms(7) by auto
  then have "\<not> in_sync (lib r) y d" using owners assms(8) by force
  moreover obtain in2 where "SetControllerReference_ds (lib r) b in2 = Inr y" "run_state (syncDaemonSet r b in2) s1 = (None, s2)"
    using syncDsObject_daemonset [OF assms(4,11)] assms(6) by (metis option.inject)
  ultimately obtain ds' where "dsets (env s2) (ds_key y) = Some ds'" "in_sync (lib r) y ds'" "ds_NodeSelector ds' = ds_NodeSelector y"
    using daemonset_server.syncDaemonSet_takes_over [OF assms(1) _ _ d(1)] by (metis fun_upd_same)
  with wanted_placed [OF assms(2,6)] owners assms(7,9) show ?thesis by (auto simp: placed_def)
qed

definition rack_pool :: "string \<Rightarrow> SpectrumXRailPoolConfig" where
  "rack_pool n = (demo_rpc [] [])\<lparr>rpc_Name := n, rpc_Spec := (rpc_Spec (demo_rpc [] []))\<lparr>NodeSelector := [''rack'' \<mapsto> n]\<rparr>\<rparr>"

lemma rack_pool_facts [simp]:
  "ds_key (xplane_ds rpc) = (''ns'', ''xplane'')" "ds_OwnerReferences (xplane_ds rpc) = [pool_owner rpc]"
  "NodeSelector (rpc_Spec (rack_pool n)) = [''rack'' \<mapsto> n]" "or_Name (pool_owner (rack_pool n)) = n"
  by (simp_all add: ds_key_def xplane_ds_def demo_convert_def xplane_obj_def rack_pool_def pool_owner_def)

lemma ds_lib_laws: "daemonset_law ds_lib" "equality_law ds_lib"
  by (simp_all add: daemonset_law_def equality_law_def ds_lib_def demo_lib_def demo_convert_def)

theorem xplane_follows_last_pool_witness:
  "let s2 = snd (sync_xplane (rack_pool ''b'') (snd (sync_xplane (rack_pool ''a'') \<lparr>events = [], env = Map.empty\<rparr>))) in
   \<exists>ds. env s2 (''ns'', ''xplane'') = Some ds \<and> ds_NodeSelector ds = [''rack'' \<mapsto> ''b'']"
proof -
  have laws: "daemonset_law (lib ds_reconciler)" "equality_law (lib ds_reconciler)" "u_Kind xplane_obj = ''DaemonSet''"
    "wanted_ds (lib ds_reconciler) rpc xplane_obj [] = Some (xplane_ds rpc)" for rpc
    by (simp_all add: ds_lib_laws xplane_wanted) (simp add: xplane_obj_def)
  have "pool_owner (rack_pool ''a'') \<noteq> pool_owner (rack_pool ''b'')" using rack_pool_facts(4) [of "''a''"] rack_pool_facts(4) [of "''b''"] by force
  then have other: "ds_key (xplane_ds (rack_pool ''a'')) = ds_key (xplane_ds (rack_pool ''b''))"
    "ds_OwnerReferences (xplane_ds (rack_pool ''a'')) \<noteq> ds_OwnerReferences (xplane_ds (rack_pool ''b''))"
    "NodeSelector (rpc_Spec (rack_pool ''b'')) \<noteq> Map.empty" by simp_all
  from xplane_follows_last_pool [OF dserver.daemonset_server_axioms laws(1,2,3) laws(4) laws(4) other xplane_succeeds xplane_succeeds,
      of "\<lparr>events = [], env = Map.empty\<rparr>"]
  show ?thesis by (auto simp: Let_def)
qed

text \<open>
  Property C37. Clearing the node selector of a pool has no effect on xplane: if the stored DaemonSet is in sync with what was wanted
  before and only the selector goes away, the next synchronisation writes nothing and the old selector stays.
\<close>

theorem cleared_selector_sticks:
  assumes "daemonset_server r dsets" "equality_law (lib r)" "u_Kind obj = ''DaemonSet''"
    and "wanted_ds (lib r) a obj tolerations = Some x" "wanted_ds (lib r) b obj tolerations = Some (x\<lparr>ds_NodeSelector := Map.empty\<rparr>)"
    and "dsets (env s) (ds_key x) = Some ds" "in_sync (lib r) x ds"
    and "run_state (syncDsObject r b obj tolerations) s = (None, s')"
  shows "dsets (env s') (ds_key x) = Some ds \<and> events s' = events s"
proof -
  obtain in1 where "SetControllerReference_ds (lib r) b in1 = Inr (x\<lparr>ds_NodeSelector := Map.empty\<rparr>)"
    "run_state (syncDaemonSet r b in1) s = (None, s')"
    using syncDsObject_daemonset [OF assms(3,8)] assms(5) by (metis option.inject)
  from daemonset_server.syncDaemonSet_silent [OF assms(1) this] in_sync_unset [OF assms(2,7)] assms(6)
  show ?thesis by (simp add: ds_key_def)
qed

theorem cleared_selector_sticks_witness:
  "let s = \<lparr>events = [], env = [(''ns'', ''xplane'') \<mapsto> xplane_ds (rack_pool ''a'')]\<rparr>;
       b = (rack_pool ''a'')\<lparr>rpc_Spec := (rpc_Spec (rack_pool ''a''))\<lparr>NodeSelector := Map.empty\<rparr>\<rparr> in
   env (snd (sync_xplane b s)) (''ns'', ''xplane'') = Some (xplane_ds (rack_pool ''a''))"
proof -
  let ?s = "\<lparr>events = [], env = [(''ns'', ''xplane'') \<mapsto> xplane_ds (rack_pool ''a'')]\<rparr>"
  let ?b = "(rack_pool ''a'')\<lparr>rpc_Spec := (rpc_Spec (rack_pool ''a''))\<lparr>NodeSelector := Map.empty\<rparr>\<rparr>"
  have lib: "equality_law (lib ds_reconciler)" "u_Kind xplane_obj = ''DaemonSet''"
    "wanted_ds (lib ds_reconciler) (rack_pool ''a'') xplane_obj [] = Some (xplane_ds (rack_pool ''a''))"
    by (simp_all add: ds_lib_laws xplane_wanted) (simp add: xplane_obj_def)
  have cleared: "wanted_ds (lib ds_reconciler) ?b xplane_obj [] = Some ((xplane_ds (rack_pool ''a''))\<lparr>ds_NodeSelector := Map.empty\<rparr>)"
    by (simp add: xplane_wanted) (simp add: xplane_ds_def pool_owner_def)
  have stored: "env ?s (ds_key (xplane_ds (rack_pool ''a''))) = Some (xplane_ds (rack_pool ''a''))"
    "in_sync (lib ds_reconciler) (xplane_ds (rack_pool ''a'')) (xplane_ds (rack_pool ''a''))"
    by (simp_all add: in_sync_def ds_lib_def demo_lib_def)
  from cleared_selector_sticks [OF dserver.daemonset_server_axioms lib cleared stored xplane_succeeds]
  show ?thesis by (simp add: Let_def)
qed

end
