(* ===== verification/Vsctl.thy ===== *)
theory Vsctl
  imports Exec_Api
begin

text \<open>
  The part of \<^verbatim>\<open>ovs-vsctl\<close> that sets up bridges: the subcommands, how a command line is read, and what they do to the
  configuration database of Open vSwitch. A command line is one transaction: it is carried out
  completely, or it fails and changes nothing.
\<close>

section \<open>The database\<close>

text \<open>Bridges with their settings, and ports by their names, which are unique, each with its bridge and the settings of its interface.\<close>

record topology =
  tp_bridges :: "string \<rightharpoonup> (string \<rightharpoonup> string)"
  tp_ports :: "string \<rightharpoonup> string \<times> (string \<rightharpoonup> string)"

datatype vsctl =
    Add_Br string
  | Set_Bridge string "(string \<times> string) list"
  | Br_Set_External_Id string string string
  | Add_Port string string
  | Set_Interface string "(string \<times> string) list"
  | Del_Br string

text \<open>
  \<open>add-br\<close> and \<open>add-port\<close> are used with \<open>--may-exist\<close> and \<open>del-br\<close> with \<open>--if-exists\<close>. A bridge has an internal port of its
  own name, so bridges and ports cannot have the same name; a port that is already on another bridge is an error.
\<close>

fun run_sub :: "vsctl \<Rightarrow> topology \<Rightarrow> topology option" where
  "run_sub (Add_Br b) v = (case tp_bridges v b of
      Some a \<Rightarrow> Some v
    | None \<Rightarrow> if tp_ports v b \<noteq> None then None else Some (v\<lparr>tp_bridges := (tp_bridges v)(b \<mapsto> Map.empty)\<rparr>))"
| "run_sub (Set_Bridge b kvs) v = (case tp_bridges v b of
      None \<Rightarrow> None
    | Some a \<Rightarrow> Some (v\<lparr>tp_bridges := (tp_bridges v)(b \<mapsto> a ++ map_of kvs)\<rparr>))"
| "run_sub (Br_Set_External_Id b k x) v = (case tp_bridges v b of
      None \<Rightarrow> None
    | Some a \<Rightarrow> Some (v\<lparr>tp_bridges := (tp_bridges v)(b \<mapsto> a(''external_ids:'' @ k \<mapsto> x))\<rparr>))"
| "run_sub (Add_Port b p) v =
     (if tp_bridges v b = None \<or> tp_bridges v p \<noteq> None then None
      else case tp_ports v p of
        None \<Rightarrow> Some (v\<lparr>tp_ports := (tp_ports v)(p \<mapsto> (b, Map.empty))\<rparr>)
      | Some (b', a) \<Rightarrow> if b' = b then Some v else None)"
| "run_sub (Set_Interface p kvs) v = (case tp_ports v p of
      None \<Rightarrow> None
    | Some (b, a) \<Rightarrow> Some (v\<lparr>tp_ports := (tp_ports v)(p \<mapsto> (b, a ++ map_of kvs))\<rparr>))"
| "run_sub (Del_Br b) v = (case tp_bridges v b of
      None \<Rightarrow> Some v
    | Some a \<Rightarrow> Some (v\<lparr>tp_bridges := (tp_bridges v)(b := None),
        tp_ports := (\<lambda>p. case tp_ports v p of None \<Rightarrow> None | Some (b', a) \<Rightarrow> if b' = b then None else Some (b', a))\<rparr>))"

fun run_vsctl :: "vsctl list \<Rightarrow> topology \<Rightarrow> topology option" where
  "run_vsctl [] v = Some v"
| "run_vsctl (c # cs) v = Option.bind (run_sub c v) (run_vsctl cs)"

section \<open>Command lines\<close>

fun key_value :: "string \<Rightarrow> (string \<times> string) option" where
  "key_value [] = None"
| "key_value (c # cs) = (if c = CHR ''='' then Some ([], cs) else map_option (apfst (Cons c)) (key_value cs))"

fun all_some :: "('a \<Rightarrow> 'b option) \<Rightarrow> 'a list \<Rightarrow> 'b list option" where
  "all_some f [] = Some []"
| "all_some f (x # xs) = Option.bind (f x) (\<lambda>y. map_option (Cons y) (all_some f xs))"

definition parse_sub :: "string list \<Rightarrow> vsctl option" where
  "parse_sub ts =
     (if length ts = 3 \<and> take 2 ts = [''--may-exist'', ''add-br''] then Some (Add_Br (ts ! 2))
      else if length ts = 4 \<and> take 2 ts = [''--may-exist'', ''add-port''] then Some (Add_Port (ts ! 2) (ts ! 3))
      else if length ts = 3 \<and> take 2 ts = [''--if-exists'', ''del-br''] then Some (Del_Br (ts ! 2))
      else if length ts = 4 \<and> take 1 ts = [''br-set-external-id''] then Some (Br_Set_External_Id (ts ! 1) (ts ! 2) (ts ! 3))
      else if length ts > 3 \<and> take 2 ts = [''set'', ''bridge''] then map_option (Set_Bridge (ts ! 2)) (all_some key_value (drop 3 ts))
      else if length ts > 3 \<and> take 2 ts = [''set'', ''Interface''] then map_option (Set_Interface (ts ! 2)) (all_some key_value (drop 3 ts))
      else None)"

text \<open>Subcommands are separated by \<open>--\<close>.\<close>

fun parts :: "string list \<Rightarrow> string list list" where
  "parts [] = [[]]"
| "parts (t # ts) = (if t = ''--'' then [] # parts ts else (case parts ts of [] \<Rightarrow> [[t]] | p # ps \<Rightarrow> (t # p) # ps))"

definition parse_vsctl :: "string \<Rightarrow> vsctl list option" where
  "parse_vsctl c = (case Split c CHR '' '' of
      [] \<Rightarrow> None
    | t # ts \<Rightarrow> if t = ''ovs-vsctl'' then all_some parse_sub (parts ts) else None)"

text \<open>Letters, digits and the few other characters that neither the shell nor \<^verbatim>\<open>ovs-vsctl\<close> treats in a special way.\<close>

definition name_char :: "char \<Rightarrow> bool" where
  "name_char c \<longleftrightarrow> (let n = of_char c :: nat in
     97 \<le> n \<and> n \<le> 122 \<or> 65 \<le> n \<and> n \<le> 90 \<or> 48 \<le> n \<and> n \<le> 57 \<or> n = 45 \<or> n = 46 \<or> n = 95)"

definition plain_cmd :: "string \<Rightarrow> bool" where
  "plain_cmd c \<longleftrightarrow> list_all (\<lambda>x. name_char x \<or> x = CHR '' '' \<or> x = CHR ''='' \<or> x = CHR '':'') c"

definition ovs_name :: "string \<Rightarrow> bool" where
  "ovs_name s \<longleftrightarrow> s \<noteq> [] \<and> hd s \<noteq> CHR ''-'' \<and> list_all name_char s"

lemma name_char_lits: "name_char c \<Longrightarrow> c \<noteq> CHR '' '' \<and> c \<noteq> CHR ''=''"
  by (auto simp: name_char_def)

lemma ovs_nameD:
  assumes "ovs_name s"
  shows "CHR '' '' \<notin> set s" "s \<noteq> ''--''" "plain_cmd s"
proof -
  have chars: "name_char c" if "c \<in> set s" for c using assms that by (simp add: ovs_name_def list_all_iff)
  show "CHR '' '' \<notin> set s" using chars name_char_lits by blast
  show "s \<noteq> ''--''" using assms by (cases s) (simp_all add: ovs_name_def)
  show "plain_cmd s" using chars by (simp add: plain_cmd_def list_all_iff)
qed

lemma plain_cmd_append [simp]: "plain_cmd (a @ b) \<longleftrightarrow> plain_cmd a \<and> plain_cmd b"
  by (simp add: plain_cmd_def)

lemma plain_cmd_Cons [simp]:
  "plain_cmd []" "plain_cmd (c # s) \<longleftrightarrow> (name_char c \<or> c = CHR '' '' \<or> c = CHR ''='' \<or> c = CHR '':'') \<and> plain_cmd s"
  by (simp_all add: plain_cmd_def)

lemma fmt_d_plain [simp]: "plain_cmd (fmt_d i)" "CHR '' '' \<notin> set (fmt_d i)"
proof -
  have digits: "c = CHR ''-'' \<or> (\<exists>d < 10. c = digit_char d)" if "c \<in> set (fmt_d i)" for c
    using that fmt_base_digits [of 10] by (auto simp: fmt_d_def split: if_splits)
  have "list_all (\<lambda>d. name_char (digit_char d)) [0..<10]" by code_simp
  then have "name_char (digit_char d)" if "d < 10" for d using that by (simp add: list_all_iff)
  moreover have "name_char CHR ''-''" by (simp add: name_char_def)
  ultimately have "list_all name_char (fmt_d i)" using digits unfolding list_all_iff by metis
  then show "plain_cmd (fmt_d i)" "CHR '' '' \<notin> set (fmt_d i)"
    by (auto simp: plain_cmd_def list_all_iff dest: name_char_lits)
qed

text \<open>A command line that is printed from its words is read back.\<close>

lemma parse_printed:
  assumes "\<forall>t \<in> set ts. CHR '' '' \<notin> set t"
  shows "parse_vsctl (Join CHR '' '' (''ovs-vsctl'' # ts)) = all_some parse_sub (parts ts)"
proof -
  have "Split (Join CHR '' '' (''ovs-vsctl'' # ts)) CHR '' '' = ''ovs-vsctl'' # ts"
    using assms by (intro Split_Join) auto
  then show ?thesis by (simp add: parse_vsctl_def)
qed

section \<open>The contract\<close>

locale ovs_database =
  fixes sh :: "'w shell"
    and view :: "'w \<Rightarrow> topology"
  assumes ran: "plain_cmd c \<Longrightarrow> parse_vsctl c = Some p \<Longrightarrow> answers sh c w out w' \<Longrightarrow> run_vsctl p (view w) = Some (view w')"
    and aborted: "plain_cmd c \<Longrightarrow> parse_vsctl c = Some p \<Longrightarrow> sh c w = (oc, w') \<Longrightarrow> \<not> sh_deadline oc \<Longrightarrow> sh_err oc \<noteq> None \<Longrightarrow>
      view w' = view w"
begin

lemma Execute_vsctl:
  assumes "plain_cmd c" "parse_vsctl c = Some p" "run_state (Execute sh c) s = (x, s')"
  obtains (ok) out where "x = Inr out" "run_vsctl p (view (env s)) = Some (view (env s'))"
    | (failed) e where "x = Inl e" "\<not> errors_Is e ErrTimeout" "view (env s') = view (env s)"
    | (timeout) e where "x = Inl e" "errors_Is e ErrTimeout"
proof (cases x)
  case (Inr out)
  with ran [OF assms(1,2) Execute_answers] assms(3) show thesis by (auto intro: ok)
next
  case (Inl e)
  obtain oc w' where sh: "sh c (env s) = (oc, w')" by fastforce
  with assms(3) Inl have "if sh_deadline oc then errors_Is e ErrTimeout else \<not> errors_Is e ErrTimeout \<and> sh_err oc \<noteq> None \<and> env s' = w'"
    by (auto simp: Execute_def split: option.splits if_splits)
  with aborted [OF assms(1,2) sh] Inl show thesis by (auto split: if_splits intro: failed timeout)
qed

end

text \<open>A shell that only knows \<^verbatim>\<open>ovs-vsctl\<close>.\<close>

definition vsctl_shell :: "topology shell" where
  "vsctl_shell c v = (case Option.bind (parse_vsctl c) (\<lambda>p. run_vsctl p v) of
      None \<Rightarrow> (\<lparr>sh_out = [], sh_err = Some ''exit status 1'', sh_deadline = False\<rparr>, v)
    | Some v' \<Rightarrow> (\<lparr>sh_out = [], sh_err = None, sh_deadline = False\<rparr>, v'))"

interpretation vsctl_db: ovs_database vsctl_shell "\<lambda>v. v"
  by unfold_locales (auto simp: vsctl_shell_def answers_def split: option.splits)

end
