(* ===== verification/XPlane_Topology.thy ===== *)
theory XPlane_Topology
  imports Vsctl Views Rail_Properties
begin

text \<open>
  The bridges of multiplane rails on the switch. \<open>XPlane\<close> has the commands; here they are read as transactions on the
  configuration of Open vSwitch, and it is shown what \<open>createXPlaneBridges\<close> builds, that rails do not disturb each other when
  they are built, and what the removal of one does to the others.
\<close>

section \<open>The commands as transactions\<close>

definition xplane_port :: "RailTopology \<Rightarrow> string" where
  "xplane_port rt = ''patch-xplane-to-'' @ railBridge (rt_Name rt)"

definition rail_port :: "RailTopology \<Rightarrow> string" where
  "rail_port rt = ''patch-'' @ railBridge (rt_Name rt) @ ''-to-xplane''"

definition add_br_prog :: "string \<Rightarrow> string \<Rightarrow> vsctl list" where
  "add_br_prog b mode = [Add_Br b, Set_Bridge b [(''datapath_type'', ovsDataPathType), (''fail-mode'', mode)],
     Br_Set_External_Id b ''bridge-id'' b]"

definition uplink_prog :: "RailTopology \<Rightarrow> string \<Rightarrow> int \<Rightarrow> vsctl list" where
  "uplink_prog rt pf plane = [Add_Port xplaneBridge pf, Set_Interface pf [(''mtu_request'', fmt_d (rt_MTU rt)), (''type'', ''doca''),
     (''external_ids:xplane-plane-id'', fmt_d plane), (''external_ids:xplane-group-id'', rt_Name rt),
     (''external_ids:xplane-uplink'', ''true'')]]"

definition patch_prog :: "RailTopology \<Rightarrow> vsctl list" where
  "patch_prog rt = [Add_Port xplaneBridge (xplane_port rt),
     Set_Interface (xplane_port rt) [(''type'', ''patch''), (''options:peer'', rail_port rt), (''mtu_request'', fmt_d (rt_MTU rt)),
       (''external_ids:xplane-group-id'', rt_Name rt), (''external_ids:xplane-downlink'', ''patch'')],
     Add_Port (railBridge (rt_Name rt)) (rail_port rt),
     Set_Interface (rail_port rt) [(''type'', ''patch''), (''options:peer'', xplane_port rt), (''mtu_request'', fmt_d (rt_MTU rt))]]"

lemma railBridge_name: "ovs_name n \<Longrightarrow> ovs_name (railBridge n)"
  by (simp add: ovs_name_def railBridge_def) (simp add: name_char_def)

lemma xplaneBridge_name: "ovs_name xplaneBridge"
  by (simp add: ovs_name_def xplaneBridge_def name_char_def)

lemma parse_add_br:
  assumes "ovs_name b" "ovs_name mode"
  shows "parse_vsctl (add_br_cmd b mode) = Some (add_br_prog b mode) \<and> plain_cmd (add_br_cmd b mode)"
proof
  let ?ts = "[''--may-exist'', ''add-br'', b, ''--'', ''set'', ''bridge'', b, ''datapath_type='' @ ovsDataPathType, ''fail-mode='' @ mode,
    ''--'', ''br-set-external-id'', b, ''bridge-id'', b]"
  note names = ovs_nameD [OF assms(1)] ovs_nameD [OF assms(2)]
  have "add_br_cmd b mode = Join CHR '' '' (''ovs-vsctl'' # ?ts)" by (simp add: add_br_cmd_def)
  moreover have "\<forall>t \<in> set ?ts. CHR '' '' \<notin> set t" using names by (simp add: ovsDataPathType_def)
  ultimately have "parse_vsctl (add_br_cmd b mode) = all_some parse_sub (parts ?ts)" by (metis parse_printed)
  then show "parse_vsctl (add_br_cmd b mode) = Some (add_br_prog b mode)"
    using names by (simp add: parse_sub_def add_br_prog_def)
  show "plain_cmd (add_br_cmd b mode)"
    using names by (simp add: add_br_cmd_def ovsDataPathType_def) (simp add: name_char_def)
qed

lemma parse_uplink:
  assumes "ovs_name pf" "ovs_name (rt_Name rt)"
  shows "parse_vsctl (add_uplink_cmd rt pf plane) = Some (uplink_prog rt pf plane) \<and> plain_cmd (add_uplink_cmd rt pf plane)"
proof
  let ?ts = "[''--may-exist'', ''add-port'', xplaneBridge, pf, ''--'', ''set'', ''Interface'', pf, ''mtu_request='' @ fmt_d (rt_MTU rt), ''type=doca'',
    ''external_ids:xplane-plane-id='' @ fmt_d plane, ''external_ids:xplane-group-id='' @ rt_Name rt, ''external_ids:xplane-uplink=true'']"
  note names = ovs_nameD [OF assms(1)] ovs_nameD [OF assms(2)] ovs_nameD [OF xplaneBridge_name]
  have "add_uplink_cmd rt pf plane = Join CHR '' '' (''ovs-vsctl'' # ?ts)" by (simp add: add_uplink_cmd_def)
  moreover have "\<forall>t \<in> set ?ts. CHR '' '' \<notin> set t" using names by simp
  ultimately have "parse_vsctl (add_uplink_cmd rt pf plane) = all_some parse_sub (parts ?ts)" by (metis parse_printed)
  then show "parse_vsctl (add_uplink_cmd rt pf plane) = Some (uplink_prog rt pf plane)"
    using names by (simp add: parse_sub_def uplink_prog_def)
  show "plain_cmd (add_uplink_cmd rt pf plane)"
    using names by (simp add: add_uplink_cmd_def) (simp add: name_char_def)
qed

lemma parse_patch:
  assumes "ovs_name (rt_Name rt)"
  shows "parse_vsctl (add_patch_cmd rt) = Some (patch_prog rt) \<and> plain_cmd (add_patch_cmd rt)"
proof
  let ?ts = "[''--may-exist'', ''add-port'', xplaneBridge, xplane_port rt, ''--'', ''set'', ''Interface'', xplane_port rt, ''type=patch'',
    ''options:peer='' @ rail_port rt, ''mtu_request='' @ fmt_d (rt_MTU rt), ''external_ids:xplane-group-id='' @ rt_Name rt,
    ''external_ids:xplane-downlink=patch'', ''--'', ''--may-exist'', ''add-port'', railBridge (rt_Name rt), rail_port rt, ''--'', ''set'',
    ''Interface'', rail_port rt, ''type=patch'', ''options:peer='' @ xplane_port rt, ''mtu_request='' @ fmt_d (rt_MTU rt)]"
  note names = ovs_nameD [OF assms] ovs_nameD [OF railBridge_name [OF assms]] ovs_nameD [OF xplaneBridge_name]
  have ports: "xplane_port rt \<noteq> ''--''" "rail_port rt \<noteq> ''--''" "CHR '' '' \<notin> set (xplane_port rt)" "CHR '' '' \<notin> set (rail_port rt)"
    using names by (simp_all add: xplane_port_def rail_port_def)
  have "add_patch_cmd rt = Join CHR '' '' (''ovs-vsctl'' # ?ts)" by (simp add: add_patch_cmd_def Let_def xplane_port_def rail_port_def)
  moreover have "\<forall>t \<in> set ?ts. CHR '' '' \<notin> set t" using names ports by simp
  ultimately have "parse_vsctl (add_patch_cmd rt) = all_some parse_sub (parts ?ts)" by (metis parse_printed)
  then show "parse_vsctl (add_patch_cmd rt) = Some (patch_prog rt)"
    using names ports by (simp add: parse_sub_def patch_prog_def)
  show "plain_cmd (add_patch_cmd rt)"
    using names by (simp add: add_patch_cmd_def Let_def) (simp add: name_char_def)
qed

lemma parse_del_br:
  assumes "ovs_name b"
  shows "parse_vsctl (del_br_cmd b) = Some [Del_Br b] \<and> plain_cmd (del_br_cmd b)"
proof
  let ?ts = "[''--if-exists'', ''del-br'', b]"
  note names = ovs_nameD [OF assms]
  have "del_br_cmd b = Join CHR '' '' (''ovs-vsctl'' # ?ts)" by (simp add: del_br_cmd_def)
  moreover have "\<forall>t \<in> set ?ts. CHR '' '' \<notin> set t" using names by simp
  ultimately have "parse_vsctl (del_br_cmd b) = all_some parse_sub (parts ?ts)" by (metis parse_printed)
  then show "parse_vsctl (del_br_cmd b) = Some [Del_Br b]" using names by (simp add: parse_sub_def)
  show "plain_cmd (del_br_cmd b)" using names by (simp add: del_br_cmd_def) (simp add: name_char_def)
qed

section \<open>What the transactions do\<close>

lemma run_vsctl_append: "run_vsctl (p @ q) v = Option.bind (run_vsctl p v) (run_vsctl q)"
  by (induction p arbitrary: v) (auto split: bind_splits)

lemma add_br_run:
  assumes "run_vsctl (add_br_prog b mode) v = Some v'"
  obtains a where "tp_bridges v' = (tp_bridges v)(b \<mapsto> a)" "a ''fail-mode'' = Some mode" "tp_ports v' = tp_ports v"
  using assms by (auto simp: add_br_prog_def split: option.splits if_splits)

lemma map_le_lookup: "m \<subseteq>\<^sub>m a \<Longrightarrow> m k = Some x \<Longrightarrow> a k = Some x"
  by (metis domI map_le_def)

lemma add_port_run:
  assumes "run_vsctl [Add_Port b p, Set_Interface p kvs] v = Some v'"
  obtains a where "tp_ports v' = (tp_ports v)(p \<mapsto> (b, a))" "map_of kvs \<subseteq>\<^sub>m a" "tp_bridges v' = tp_bridges v"
  using assms by (auto split: option.splits if_splits prod.splits)

lemma del_br_run:
  assumes "run_vsctl [Del_Br b] v = Some v'"
  shows "tp_bridges v' = (tp_bridges v)(b := None)"
  using assms by (auto split: option.splits)

text \<open>A rail is joined: its bridge and the shared bridge exist, every PF is an uplink of the shared bridge with its plane, and the two bridges are connected.\<close>

definition joined :: "RailTopology \<Rightarrow> topology \<Rightarrow> bool" where
  "joined rt v \<longleftrightarrow>
     (\<exists>a. tp_bridges v xplaneBridge = Some a \<and> a ''fail-mode'' = Some ''secure'') \<and>
     (\<exists>a. tp_bridges v (railBridge (rt_Name rt)) = Some a \<and> a ''fail-mode'' = Some ''standalone'') \<and>
     (\<forall>i < length (pf_names rt). \<exists>a. tp_ports v (pf_names rt ! i) = Some (xplaneBridge, a) \<and>
        a ''external_ids:xplane-plane-id'' = Some (fmt_d (plane_id rt i)) \<and> a ''external_ids:xplane-group-id'' = Some (rt_Name rt)) \<and>
     (\<exists>a. tp_ports v (xplane_port rt) = Some (xplaneBridge, a) \<and> a ''options:peer'' = Some (rail_port rt)) \<and>
     (\<exists>a. tp_ports v (rail_port rt) = Some (railBridge (rt_Name rt), a) \<and> a ''options:peer'' = Some (xplane_port rt))"

lemma bridge_names [simp]:
  "railBridge m = railBridge n \<longleftrightarrow> m = n" "railBridge m \<noteq> xplaneBridge" "xplaneBridge \<noteq> railBridge m"
  by (simp_all add: railBridge_def xplaneBridge_def)

lemma port_names [simp]: "xplane_port rt \<noteq> rail_port rt'" "rail_port rt' \<noteq> xplane_port rt"
  by (simp_all add: xplane_port_def rail_port_def railBridge_def)

definition own_ports :: "RailTopology \<Rightarrow> string set" where
  "own_ports rt = set (pf_names rt) \<union> {xplane_port rt, rail_port rt}"

lemma patch_run:
  assumes "run_vsctl (patch_prog rt) v = Some v'"
  obtains a b where "tp_ports v' = (tp_ports v)(xplane_port rt \<mapsto> (xplaneBridge, a), rail_port rt \<mapsto> (railBridge (rt_Name rt), b))"
    "a ''options:peer'' = Some (rail_port rt)" "b ''options:peer'' = Some (xplane_port rt)" "tp_bridges v' = tp_bridges v"
proof -
  let ?ka = "[(''type'', ''patch''), (''options:peer'', rail_port rt), (''mtu_request'', fmt_d (rt_MTU rt)),
       (''external_ids:xplane-group-id'', rt_Name rt), (''external_ids:xplane-downlink'', ''patch'')]"
  let ?kb = "[(''type'', ''patch''), (''options:peer'', xplane_port rt), (''mtu_request'', fmt_d (rt_MTU rt))]"
  have two: "patch_prog rt = [Add_Port xplaneBridge (xplane_port rt), Set_Interface (xplane_port rt) ?ka] @
      [Add_Port (railBridge (rt_Name rt)) (rail_port rt), Set_Interface (rail_port rt) ?kb]" by (simp add: patch_prog_def)
  from assms [unfolded two run_vsctl_append] obtain u where u: "run_vsctl [Add_Port xplaneBridge (xplane_port rt), Set_Interface (xplane_port rt) ?ka] v = Some u"
    "run_vsctl [Add_Port (railBridge (rt_Name rt)) (rail_port rt), Set_Interface (rail_port rt) ?kb] u = Some v'"
    by (auto simp only: bind_eq_Some_conv)
  from add_port_run [OF u(1)] obtain a where a: "tp_ports u = (tp_ports v)(xplane_port rt \<mapsto> (xplaneBridge, a))"
    "map_of ?ka \<subseteq>\<^sub>m a" "tp_bridges u = tp_bridges v" .
  from add_port_run [OF u(2)] obtain b where b: "tp_ports v' = (tp_ports u)(rail_port rt \<mapsto> (railBridge (rt_Name rt), b))"
    "map_of ?kb \<subseteq>\<^sub>m b" "tp_bridges v' = tp_bridges u" .
  have "a ''options:peer'' = Some (rail_port rt)" "b ''options:peer'' = Some (xplane_port rt)"
    using map_le_lookup [OF a(2)] map_le_lookup [OF b(2)] by simp_all
  with a b show ?thesis by (intro that [of a b]) simp_all
qed

fun uplink_progs :: "RailTopology \<Rightarrow> nat \<Rightarrow> string list \<Rightarrow> vsctl list list" where
  "uplink_progs rt idx [] = []"
| "uplink_progs rt idx (pf # pfs) = uplink_prog rt pf (plane_id rt idx) # uplink_progs rt (Suc idx) pfs"

definition xplane_progs :: "RailTopology \<Rightarrow> vsctl list list" where
  "xplane_progs rt = [add_br_prog xplaneBridge ''secure'', add_br_prog (railBridge (rt_Name rt)) ''standalone''] @
     uplink_progs rt 0 (pf_names rt) @ [patch_prog rt]"

definition uplink :: "RailTopology \<Rightarrow> string \<Rightarrow> int \<Rightarrow> topology \<Rightarrow> bool" where
  "uplink rt pf plane v \<longleftrightarrow> (\<exists>a. tp_ports v pf = Some (xplaneBridge, a) \<and>
     a ''external_ids:xplane-plane-id'' = Some (fmt_d plane) \<and> a ''external_ids:xplane-group-id'' = Some (rt_Name rt))"

lemma uplink_run:
  assumes "run_vsctl (uplink_prog rt pf plane) v = Some v'"
  shows "uplink rt pf plane v' \<and> tp_bridges v' = tp_bridges v \<and> (\<forall>p. p \<noteq> pf \<longrightarrow> tp_ports v' p = tp_ports v p)"
proof -
  from add_port_run [OF assms [unfolded uplink_prog_def]] obtain a where "tp_ports v' = (tp_ports v)(pf \<mapsto> (xplaneBridge, a))"
    "map_of [(''mtu_request'', fmt_d (rt_MTU rt)), (''type'', ''doca''), (''external_ids:xplane-plane-id'', fmt_d plane),
      (''external_ids:xplane-group-id'', rt_Name rt), (''external_ids:xplane-uplink'', ''true'')] \<subseteq>\<^sub>m a" "tp_bridges v' = tp_bridges v" .
  then show ?thesis using map_le_lookup by (fastforce simp: uplink_def)
qed

lemma uplinks_run:
  "run_vsctl (concat (uplink_progs rt idx pfs)) v = Some v' \<Longrightarrow> distinct pfs \<Longrightarrow>
   tp_bridges v' = tp_bridges v \<and> (\<forall>p. p \<notin> set pfs \<longrightarrow> tp_ports v' p = tp_ports v p) \<and>
   (\<forall>i < length pfs. uplink rt (pfs ! i) (plane_id rt (idx + i)) v')"
proof (induction pfs arbitrary: idx v)
  case (Cons pf pfs)
  from Cons.prems(1) obtain u where u: "run_vsctl (uplink_prog rt pf (plane_id rt idx)) v = Some u"
    "run_vsctl (concat (uplink_progs rt (Suc idx) pfs)) u = Some v'" by (auto simp: run_vsctl_append bind_eq_Some_conv)
  note IH = Cons.IH [OF u(2)] and step = uplink_run [OF u(1)]
  have "uplink rt pf (plane_id rt idx) v'" using IH step Cons.prems(2) by (simp add: uplink_def)
  then have "uplink rt ((pf # pfs) ! i) (plane_id rt (idx + i)) v'" if "i < length (pf # pfs)" for i
    using that IH Cons.prems(2) by (cases i) simp_all
  with IH step Cons.prems(2) show ?case by auto
qed simp

definition rail_ok :: "RailTopology \<Rightarrow> bool" where
  "rail_ok rt \<longleftrightarrow> ovs_name (rt_Name rt) \<and> list_all ovs_name (pf_names rt) \<and> distinct (pf_names rt) \<and>
     xplane_port rt \<notin> set (pf_names rt) \<and> rail_port rt \<notin> set (pf_names rt)"

lemma xplane_progs_join:
  assumes "run_vsctl (concat (xplane_progs rt)) v = Some v'" "rail_ok rt"
  shows "joined rt v'"
proof -
  from assms(1) obtain v1 v2 v3 where run: "run_vsctl (add_br_prog xplaneBridge ''secure'') v = Some v1"
    "run_vsctl (add_br_prog (railBridge (rt_Name rt)) ''standalone'') v1 = Some v2"
    "run_vsctl (concat (uplink_progs rt 0 (pf_names rt))) v2 = Some v3" "run_vsctl (patch_prog rt) v3 = Some v'"
    by (auto simp: xplane_progs_def run_vsctl_append bind_eq_Some_conv)
  from add_br_run [OF run(1)] obtain a1 where 1: "tp_bridges v1 = (tp_bridges v)(xplaneBridge \<mapsto> a1)" "a1 ''fail-mode'' = Some ''secure''" .
  from add_br_run [OF run(2)] obtain a2 where 2: "tp_bridges v2 = (tp_bridges v1)(railBridge (rt_Name rt) \<mapsto> a2)"
    "a2 ''fail-mode'' = Some ''standalone''" .
  have 3: "tp_bridges v3 = tp_bridges v2" "\<forall>i < length (pf_names rt). uplink rt (pf_names rt ! i) (plane_id rt i) v3"
    using uplinks_run [OF run(3)] assms(2) by (simp_all add: rail_ok_def)
  from patch_run [OF run(4)] obtain a b where
    4: "tp_ports v' = (tp_ports v3)(xplane_port rt \<mapsto> (xplaneBridge, a), rail_port rt \<mapsto> (railBridge (rt_Name rt), b))"
    "a ''options:peer'' = Some (rail_port rt)" "b ''options:peer'' = Some (xplane_port rt)" "tp_bridges v' = tp_bridges v3" .
  have "tp_ports v' (pf_names rt ! i) = tp_ports v3 (pf_names rt ! i)" if "i < length (pf_names rt)" for i
    using assms(2) nth_mem [OF that] 4(1) by (auto simp: rail_ok_def)
  with 1 2 3 4 show ?thesis by (auto simp: joined_def uplink_def)
qed

text \<open>Rails with different names that share no port do not disturb each other.\<close>

definition apart :: "RailTopology \<Rightarrow> RailTopology \<Rightarrow> bool" where
  "apart rt rt' \<longleftrightarrow> rt_Name rt \<noteq> rt_Name rt' \<and> own_ports rt \<inter> own_ports rt' = {}"

lemma joined_frame:
  assumes "joined rt' v" "\<forall>p \<in> own_ports rt'. tp_ports v' p = tp_ports v p"
    and "tp_bridges v' (railBridge (rt_Name rt')) = tp_bridges v (railBridge (rt_Name rt'))"
    and "tp_bridges v' xplaneBridge = tp_bridges v xplaneBridge \<or> (\<exists>a. tp_bridges v' xplaneBridge = Some a \<and> a ''fail-mode'' = Some ''secure'')"
  shows "joined rt' v'"
  using assms by (auto simp: joined_def own_ports_def)

lemma uplink_progs_member: "p \<in> set (uplink_progs rt idx pfs) \<Longrightarrow> \<exists>pf \<in> set pfs. \<exists>plane. p = uplink_prog rt pf plane"
  by (induction pfs arbitrary: idx) auto

lemma xplane_prog_keeps:
  assumes "p \<in> set (xplane_progs rt)" "run_vsctl p v = Some v'" "apart rt rt'" "joined rt' v"
  shows "joined rt' v'"
proof -
  consider "p = add_br_prog xplaneBridge ''secure''" | "p = add_br_prog (railBridge (rt_Name rt)) ''standalone''"
    | pf plane where "pf \<in> set (pf_names rt)" "p = uplink_prog rt pf plane" | "p = patch_prog rt"
    using assms(1) uplink_progs_member by (fastforce simp: xplane_progs_def)
  then show ?thesis
  proof cases
    case 1
    show ?thesis using assms(2) [unfolded 1] by (rule add_br_run) (intro joined_frame [OF assms(4)], auto)
  next
    case 2
    show ?thesis using assms(2) [unfolded 2]
      by (rule add_br_run) (intro joined_frame [OF assms(4)], use assms(3) in \<open>auto simp: apart_def\<close>)
  next
    case 3
    from uplink_run [OF assms(2) [unfolded 3(2)]] 3(1) assms(3) show ?thesis
      by (intro joined_frame [OF assms(4)]) (auto simp: apart_def own_ports_def)
  next
    case 4
    show ?thesis using assms(2) [unfolded 4]
      by (rule patch_run) (intro joined_frame [OF assms(4)], use assms(3) in \<open>auto simp: apart_def own_ports_def\<close>)
  qed
qed

lemma xplane_progs_keep:
  assumes "set qs \<subseteq> set (xplane_progs rt)" "run_vsctl (concat qs) v = Some v'" "apart rt rt'" "joined rt' v"
  shows "joined rt' v'"
  using assms
proof (induction qs arbitrary: v)
  case (Cons q qs)
  from Cons.prems(2) obtain u where u: "run_vsctl q v = Some u" "run_vsctl (concat qs) u = Some v'"
    by (auto simp: run_vsctl_append bind_eq_Some_conv)
  have "joined rt' u" by (rule xplane_prog_keeps [OF _ u(1) Cons.prems(3,4)]) (use Cons.prems(1) in simp)
  with Cons u(2) show ?case by simp
qed simp

text \<open>
  When the transactions can be carried out: no name is used for a port and a bridge, and the ports of the rail are not on
  other bridges.
\<close>

definition on_bridge :: "topology \<Rightarrow> string \<Rightarrow> string \<Rightarrow> bool" where
  "on_bridge v b p \<longleftrightarrow> p \<notin> dom (tp_bridges v) \<and> (\<forall>b' a. tp_ports v p = Some (b', a) \<longrightarrow> b' = b)"

lemma on_bridge_cong:
  "tp_ports v' p = tp_ports v p \<Longrightarrow> p \<in> dom (tp_bridges v') \<longleftrightarrow> p \<in> dom (tp_bridges v) \<Longrightarrow> on_bridge v' b p = on_bridge v b p"
  by (simp add: on_bridge_def)

lemma add_br_ok:
  assumes "tp_ports v b = None"
  shows "\<exists>v'. run_vsctl (add_br_prog b mode) v = Some v' \<and> tp_ports v' = tp_ports v \<and> dom (tp_bridges v') = insert b (dom (tp_bridges v))"
  using assms by (cases "tp_bridges v b") (auto simp: add_br_prog_def)

lemma add_port_ok:
  assumes "b \<in> dom (tp_bridges v)" "on_bridge v b p"
  shows "\<exists>v' a. run_vsctl [Add_Port b p, Set_Interface p kvs] v = Some v' \<and> tp_bridges v' = tp_bridges v \<and> tp_ports v' = (tp_ports v)(p \<mapsto> (b, a))"
  using assms by (cases "tp_ports v p") (auto simp: on_bridge_def domIff)

lemma uplinks_ok:
  assumes "xplaneBridge \<in> dom (tp_bridges v)" "\<forall>p \<in> set pfs. on_bridge v xplaneBridge p"
  shows "\<exists>v'. run_vsctl (concat (uplink_progs rt idx pfs)) v = Some v' \<and> tp_bridges v' = tp_bridges v \<and>
    (\<forall>p. p \<notin> set pfs \<longrightarrow> tp_ports v' p = tp_ports v p)"
  using assms
proof (induction pfs arbitrary: idx v)
  case (Cons pf pfs)
  from Cons.prems obtain u a where u: "run_vsctl (uplink_prog rt pf (plane_id rt idx)) v = Some u" "tp_bridges u = tp_bridges v"
    "tp_ports u = (tp_ports v)(pf \<mapsto> (xplaneBridge, a))"
    using add_port_ok [of xplaneBridge v pf] unfolding uplink_prog_def by (meson list.set_intros(1))
  have "\<forall>p \<in> set pfs. on_bridge u xplaneBridge p" using Cons.prems(2) u by (auto simp: on_bridge_def)
  with Cons.IH [of u "Suc idx"] Cons.prems(1) u show ?case by (auto simp: run_vsctl_append)
qed simp

lemma patch_ok:
  assumes "xplaneBridge \<in> dom (tp_bridges v)" "railBridge (rt_Name rt) \<in> dom (tp_bridges v)"
    and "on_bridge v xplaneBridge (xplane_port rt)" "on_bridge v (railBridge (rt_Name rt)) (rail_port rt)"
  shows "\<exists>v'. run_vsctl (patch_prog rt) v = Some v'"
proof -
  have "\<exists>ka kb. patch_prog rt = [Add_Port xplaneBridge (xplane_port rt), Set_Interface (xplane_port rt) ka] @
      [Add_Port (railBridge (rt_Name rt)) (rail_port rt), Set_Interface (rail_port rt) kb]" by (simp add: patch_prog_def)
  then obtain ka kb where two: "patch_prog rt = [Add_Port xplaneBridge (xplane_port rt), Set_Interface (xplane_port rt) ka] @
      [Add_Port (railBridge (rt_Name rt)) (rail_port rt), Set_Interface (rail_port rt) kb]" by blast
  from add_port_ok [OF assms(1,3), of ka] obtain u a where
    u: "run_vsctl [Add_Port xplaneBridge (xplane_port rt), Set_Interface (xplane_port rt) ka] v = Some u" "tp_bridges u = tp_bridges v"
      "tp_ports u = (tp_ports v)(xplane_port rt \<mapsto> (xplaneBridge, a))" by blast
  have "railBridge (rt_Name rt) \<in> dom (tp_bridges u)" "on_bridge u (railBridge (rt_Name rt)) (rail_port rt)"
    using assms(2,4) u(2,3) on_bridge_cong [of u "rail_port rt" v] by simp_all
  from add_port_ok [OF this, of kb] u(1) show ?thesis
    unfolding two run_vsctl_append by (auto simp del: run_vsctl.simps)
qed

lemma xplane_progs_ok:
  assumes "rail_ok rt" "tp_ports v xplaneBridge = None" "tp_ports v (railBridge (rt_Name rt)) = None"
    and "\<forall>p \<in> set (pf_names rt) \<union> {xplane_port rt}. on_bridge v xplaneBridge p" "on_bridge v (railBridge (rt_Name rt)) (rail_port rt)"
    and "own_ports rt \<inter> {xplaneBridge, railBridge (rt_Name rt)} = {}"
  shows "\<exists>v'. run_vsctl (concat (xplane_progs rt)) v = Some v'"
proof -
  obtain v1 where 1: "run_vsctl (add_br_prog xplaneBridge ''secure'') v = Some v1" "tp_ports v1 = tp_ports v"
    "dom (tp_bridges v1) = insert xplaneBridge (dom (tp_bridges v))" using add_br_ok [OF assms(2)] by blast
  obtain v2 where 2: "run_vsctl (add_br_prog (railBridge (rt_Name rt)) ''standalone'') v1 = Some v2" "tp_ports v2 = tp_ports v1"
    "dom (tp_bridges v2) = insert (railBridge (rt_Name rt)) (dom (tp_bridges v1))" using add_br_ok [of v1 "railBridge (rt_Name rt)"] 1(2) assms(3) by metis
  have on: "on_bridge v2 b p \<longleftrightarrow> on_bridge v b p" if "p \<in> own_ports rt" for b p
    by (rule on_bridge_cong) (use that assms(6) 1 2 in auto)
  obtain v3 where 3: "run_vsctl (concat (uplink_progs rt 0 (pf_names rt))) v2 = Some v3" "tp_bridges v3 = tp_bridges v2"
    "\<forall>p. p \<notin> set (pf_names rt) \<longrightarrow> tp_ports v3 p = tp_ports v2 p"
    using uplinks_ok [of v2 "pf_names rt" rt 0] 1(3) 2(3) on assms(4) by (auto simp: own_ports_def)
  have on3: "on_bridge v3 b p \<longleftrightarrow> on_bridge v b p" if "p \<in> {xplane_port rt, rail_port rt}" for b p
  proof -
    have "p \<in> own_ports rt" "p \<notin> set (pf_names rt)" using that assms(1) by (auto simp: own_ports_def rail_ok_def)
    then show ?thesis using on 3 on_bridge_cong [of v3 p v2 b] by simp
  qed
  have "\<exists>v5. run_vsctl (patch_prog rt) v3 = Some v5"
    by (rule patch_ok) (use 1(3) 2(3) 3(2) on3 assms(4,5) in auto)
  with 1(1) 2(1) 3(1) show ?thesis by (auto simp: xplane_progs_def run_vsctl_append simp del: run_vsctl.simps)
qed

section \<open>Runs of the code\<close>

text \<open>The commands of a plan, each with the transaction it stands for.\<close>

definition transactions :: "tstep list \<Rightarrow> vsctl list list \<Rightarrow> bool" where
  "transactions plan ps \<longleftrightarrow> list_all2 (\<lambda>st p. parse_vsctl (fst st) = Some p \<and> plain_cmd (fst st)) plan ps"

lemma uplink_transactions:
  "ovs_name (rt_Name rt) \<Longrightarrow> list_all ovs_name pfs \<Longrightarrow> transactions (uplink_plan rt idx pfs) (uplink_progs rt idx pfs)"
  by (induction pfs arbitrary: idx) (simp_all add: transactions_def parse_uplink)

lemma xplane_transactions:
  assumes "rail_ok rt"
  shows "transactions (xplane_plan rt) (xplane_progs rt)"
proof -
  have rt: "ovs_name (rt_Name rt)" "list_all ovs_name (pf_names rt)" using assms by (simp_all add: rail_ok_def)
  have "ovs_name ''secure''" "ovs_name ''standalone''" by (simp_all add: ovs_name_def name_char_def)
  with rt uplink_transactions [OF rt, of 0] show ?thesis
    by (auto simp: transactions_def xplane_plan_def xplane_progs_def parse_add_br parse_patch railBridge_name xplaneBridge_name
        intro!: list_all2_appendI)
qed

lemma cleanup_transactions: "ovs_name n \<Longrightarrow> transactions (cleanup_plan n) [[Del_Br (railBridge n)], [Del_Br xplaneBridge]]"
  using parse_del_br [OF railBridge_name] parse_del_br [OF xplaneBridge_name] by (simp add: transactions_def cleanup_plan_def)

context ovs_database
begin

text \<open>A plan that meets no timeout is a run of the transactions of the commands that succeeded.\<close>

lemma tolerant_transactions:
  assumes "transactions plan ps" "run_state (exec_tolerant (Execute sh) plan) s = (x, s')"
    and "events s' = events s @ es" "\<forall>e \<in> set es. \<not> timed_out e"
  shows "\<exists>qs. set qs \<subseteq> set ps \<and> run_vsctl (concat qs) (view (env s)) = Some (view (env s')) \<and>
    (x = None \<and> (\<forall>e \<in> set es. cmd_ok e) \<longrightarrow> qs = ps)"
  using assms
proof (induction plan arbitrary: ps s es)
  case Nil
  then show ?case by (auto simp: transactions_def)
next
  case (Cons st plan)
  obtain c strict wrap where st: "st = (c, strict, wrap)" by (cases st)
  from Cons.prems(1) obtain p ps' where ps: "ps = p # ps'" "parse_vsctl c = Some p" "plain_cmd c" "transactions plan ps'"
    by (auto simp: transactions_def list_all2_Cons1 st)
  obtain r t where ex: "run_state (Execute sh c) s = (r, t)" by fastforce
  have t: "events t = events s @ [Cmd c r]" using trace_specD [OF xapi.exec_event ex] by auto
  have rest: ?case if run: "run_state (exec_tolerant (Execute sh) plan) t = (x, s')"
      and step: "(\<exists>out. r = Inr out) \<and> run_vsctl p (view (env s)) = Some (view (env t)) \<or> (\<exists>e. r = Inl e) \<and> view (env t) = view (env s)"
  proof -
    from trace_specD [OF xapi.exec_tolerant_outcome run] obtain fs where "events s' = events t @ fs" by auto
    with t Cons.prems(3) have es: "es = Cmd c r # fs" "events s' = events t @ fs" by simp_all
    from Cons.IH [OF ps(4) run es(2)] Cons.prems(4) es(1) obtain qs where qs: "set qs \<subseteq> set ps'"
      "run_vsctl (concat qs) (view (env t)) = Some (view (env s'))" "x = None \<and> (\<forall>e \<in> set fs. cmd_ok e) \<longrightarrow> qs = ps'" by auto
    from step show ?thesis
    proof
      assume "(\<exists>out. r = Inr out) \<and> run_vsctl p (view (env s)) = Some (view (env t))"
      with qs es ps show ?thesis by (intro exI [of _ "p # qs"]) (auto simp: run_vsctl_append)
    next
      assume "(\<exists>e. r = Inl e) \<and> view (env t) = view (env s)"
      with qs es ps show ?thesis by (intro exI [of _ qs]) auto
    qed
  qed
  from ps(3,2) ex show ?case
  proof (cases rule: Execute_vsctl)
    case (ok out)
    with Cons.prems(2) ex have "run_state (exec_tolerant (Execute sh) plan) t = (x, s')" by (simp add: st)
    with ok show ?thesis by (intro rest) auto
  next
    case (failed e)
    show ?thesis
    proof (cases strict)
      case True
      with Cons.prems(2) ex failed st have "s' = t" "x \<noteq> None" by auto
      with failed show ?thesis by (intro exI [of _ "[]"]) auto
    next
      case False
      with Cons.prems(2) ex failed st have "run_state (exec_tolerant (Execute sh) plan) t = (x, s')" by simp
      with failed show ?thesis by (intro rest) auto
    qed
  next
    case (timeout e)
    with Cons.prems(2) ex st have "s' = t" by auto
    with t Cons.prems(3,4) timeout show ?thesis by auto
  qed
qed

end

text \<open>The host of an agent: the switch, which writes to the API server do not change.\<close>

definition gone :: "topology \<Rightarrow> bool" where
  "gone v \<longleftrightarrow> tp_bridges v xplaneBridge = None"

lemma gone_joined: "gone v \<Longrightarrow> \<not> joined rt v"
  by (simp add: gone_def joined_def)

lemma tolerant_outcome_cmds: "tolerant_outcome p x es \<Longrightarrow> \<forall>e \<in> set es. \<exists>c r. e = Cmd c r"
proof (induction p arbitrary: es)
  case (Cons a p)
  obtain c strict wrap where a: "a = (c, strict, wrap)" by (cases a)
  from Cons.prems [unfolded a] show ?case by (cases rule: tolerant_outcome_cases) (auto dest: Cons.IH)
qed simp

locale xplane_host = ovs_database "shell r" view
  for r :: "'w HostReconciler" and view :: "'w \<Rightarrow> topology" +
  assumes api_keeps: "view (snd (api_do (kube r) a w)) = view w"
    and list_keeps: "view (snd (list_NodePolicies (kube r) ns sel w)) = view w"
begin

lemma cleanup_run:
  assumes "ovs_name n" "run_state (cleanupXPlaneBridges (shell r) n) s = (None, s')"
  shows "(gone (view (env s)) \<longrightarrow> gone (view (env s'))) \<and>
    (\<exists>es. events s' = events s @ es \<and> ((\<forall>c e. Cmd c (Inl e) \<notin> set es) \<longrightarrow> gone (view (env s'))))"
proof -
  let ?ps = "[[Del_Br (railBridge n)], [Del_Br xplaneBridge]]"
  note tr = cleanup_transactions [OF assms(1)]
  note run = assms(2) [unfolded cleanupXPlaneBridges_plan]
  from trace_specD [OF xapi.exec_tolerant_outcome run] obtain es where es: "events s' = events s @ es" "tolerant_outcome (cleanup_plan n) None es"
    by auto
  from tolerant_transactions [OF tr run es(1)] tolerant_outcome_success [OF es(2)] obtain qs where
    qs: "set qs \<subseteq> set ?ps" "run_vsctl (concat qs) (view (env s)) = Some (view (env s'))" "(\<forall>e \<in> set es. cmd_ok e) \<longrightarrow> qs = ?ps" by auto
  have keep: "gone u \<Longrightarrow> gone v" if "set qs \<subseteq> set ?ps" "run_vsctl (concat qs) u = Some v" for qs u v
    using that
  proof (induction qs arbitrary: u)
    case (Cons q qs)
    then obtain b t where b: "q = [Del_Br b]" "run_vsctl [Del_Br b] u = Some t" "run_vsctl (concat qs) t = Some v"
      by (auto simp: run_vsctl_append bind_eq_Some_conv)
    have "gone t" using del_br_run [OF b(2)] Cons.prems(1) by (simp add: gone_def)
    with Cons b show ?case by auto
  qed simp
  have "gone (view (env s'))" if ok: "\<forall>c e. Cmd c (Inl e) \<notin> set es"
  proof -
    have "cmd_ok e" if e: "e \<in> set es" for e
    proof -
      from tolerant_outcome_cmds [OF es(2)] e obtain c x where x: "e = Cmd c x" by blast
      with ok e show ?thesis by (cases x) auto
    qed
    with qs(2,3) obtain t where "run_vsctl [Del_Br xplaneBridge] t = Some (view (env s'))"
      by (auto simp: bind_eq_Some_conv simp del: run_sub.simps)
    from del_br_run [OF this] show ?thesis by (simp add: gone_def)
  qed
  with es(1) keep [OF qs(1,2)] show ?thesis by blast
qed

lemma keeps_resources: "keeps view (deleteRailTopologyResources r ns n)"
  unfolding deleteRailTopologyResources_def delete_object_def api_call_def by (intro keeps_rules api_keeps)

lemma tear_down_run:
  assumes "ovs_name n" "run_state (tear_down r ns n m) s = (None, s')"
  shows "(gone (view (env s)) \<longrightarrow> gone (view (env s'))) \<and>
    (\<exists>es. events s' = events s @ es \<and> (m \<and> (\<forall>c e. Cmd c (Inl e) \<notin> set es) \<longrightarrow> gone (view (env s'))))"
proof -
  from trace_specD [OF trace_tear_down assms(2)] obtain es where es: "events s' = events s @ es" by auto
  show ?thesis
  proof (cases m)
    case False
    with assms(2) keepsD [OF keeps_resources] es show ?thesis by (auto simp: tear_down_def)
  next
    case True
    with assms(2) obtain t where t: "run_state (cleanupXPlaneBridges (shell r) n) s = (None, t)"
      "run_state (deleteRailTopologyResources r ns n) t = (None, s')" by (auto simp: tear_down_def split: prod.splits option.splits)
    from cleanup_run [OF assms(1) t(1)] obtain fs where fs: "events t = events s @ fs"
      "(\<forall>c e. Cmd c (Inl e) \<notin> set fs) \<longrightarrow> gone (view (env t))" "gone (view (env s)) \<longrightarrow> gone (view (env t))" by blast
    have "\<exists>gs. events s' = events t @ gs"
      using trace_specD [OF emits_deleteRail [unfolded emits_def] t(2)] by blast
    then obtain gs where "es = fs @ gs" using es fs(1) by auto
    with es fs keepsD [OF keeps_resources t(2)] show ?thesis by auto
  qed
qed

lemma delete_removed_run:
  assumes "\<forall>p \<in> set ps. ovs_name (policy_rail p)" "run_state (delete_removed r rpc current ps deleted) s = (None, s')"
  shows "(gone (view (env s)) \<longrightarrow> gone (view (env s'))) \<and>
    (\<exists>es. events s' = events s @ es \<and>
      (True \<in> snd ` set (removed_rails current ps deleted) \<and> (\<forall>c e. Cmd c (Inl e) \<notin> set es) \<longrightarrow> gone (view (env s'))))"
  using assms
proof (induction ps arbitrary: deleted s)
  case (Cons p ps)
  show ?case
  proof (cases "policy_rail p \<in> current \<or> policy_rail p \<in> deleted")
    case True
    with Cons.prems(2) have "run_state (delete_removed r rpc current ps deleted) s = (None, s')" by (simp split: if_splits)
    with Cons.IH [OF _ this] Cons.prems(1) True show ?thesis by simp
  next
    case False
    with Cons.prems(2) obtain t where t: "run_state (tear_down r (rpc_Namespace rpc) (policy_rail p) (policy_multiplane p)) s = (None, t)"
      "run_state (delete_removed r rpc current ps (insert (policy_rail p) deleted)) t = (None, s')"
      by (auto split: prod.splits option.splits)
    have "ovs_name (policy_rail p)" "\<forall>p \<in> set ps. ovs_name (policy_rail p)" using Cons.prems(1) by simp_all
    with tear_down_run [OF _ t(1)] Cons.IH [OF _ t(2)] obtain fs gs where
      "events t = events s @ fs" "policy_multiplane p \<and> (\<forall>c e. Cmd c (Inl e) \<notin> set fs) \<longrightarrow> gone (view (env t))"
      "gone (view (env s)) \<longrightarrow> gone (view (env t))" "gone (view (env t)) \<longrightarrow> gone (view (env s'))" "events s' = events t @ gs"
      "True \<in> snd ` set (removed_rails current ps (insert (policy_rail p) deleted)) \<and> (\<forall>c e. Cmd c (Inl e) \<notin> set gs) \<longrightarrow> gone (view (env s'))"
      by blast
    with False show ?thesis by (intro conjI exI [of _ "fs @ gs"]) auto
  qed
qed simp

end

section \<open>A host\<close>

definition no_bridges :: topology where
  "no_bridges = \<lparr>tp_bridges = Map.empty, tp_ports = Map.empty\<rparr>"

abbreviation (input) host :: "SpectrumXRailPoolConfig \<Rightarrow> SriovNetworkNodePolicy list \<Rightarrow> topology HostReconciler" where
  "host rpc policies \<equiv> demo_reconciler (demo_client rpc policies) vsctl_shell
     \<lparr>os_do = (\<lambda>f w. (None, w)), os_ReadFile = (\<lambda>p w. (no_object, w))\<rparr>"

interpretation vhost: xplane_host "host rpc policies" "\<lambda>v. v" for rpc policies
proof -
  have "shell (host rpc policies) = vsctl_shell" by (simp add: demo_reconciler_def)
  then show "xplane_host (host rpc policies) (\<lambda>v. v)"
    using vsctl_db.ovs_database_axioms by unfold_locales (auto simp: ovs_database_def demo_reconciler_def demo_client_def)
qed

lemma cmd_ok_in_time: "cmd_ok e \<Longrightarrow> \<not> timed_out e"
  by (cases e rule: cmd_ok.cases) auto

lemma vsctl_all_ok:
  assumes "transactions plan ps" "run_vsctl (concat ps) (env s) = Some v"
  shows "\<exists>t es. run_state (exec_tolerant (Execute vsctl_shell) plan) s = (None, t) \<and> env t = v \<and>
    events t = events s @ es \<and> list_all cmd_ok es"
  using assms
proof (induction plan arbitrary: ps s)
  case (Cons st plan)
  obtain c strict wrap where st: "st = (c, strict, wrap)" by (cases st)
  from Cons.prems(1) obtain p ps' where ps: "ps = p # ps'" "parse_vsctl c = Some p" "transactions plan ps'"
    by (auto simp: transactions_def list_all2_Cons1 st)
  with Cons.prems(2) obtain u where u: "run_vsctl p (env s) = Some u" "run_vsctl (concat ps') u = Some v"
    by (auto simp: run_vsctl_append bind_eq_Some_conv)
  let ?t = "\<lparr>events = events s @ [Cmd c (Inr [])], env = u\<rparr>"
  have ex: "run_state (Execute vsctl_shell c) s = (Inr [], ?t)"
    using ps(2) u(1) by (simp add: Execute_def vsctl_shell_def TrimSuffix_def newline_def)
  from Cons.IH [OF ps(3), of ?t] u(2) show ?case by (auto simp: st ex)
qed (simp add: transactions_def)

section \<open>Properties\<close>

text \<open>
  Property C11. The bridges of a multiplane rail. If all commands succeed the rail is joined: the shared bridge and the bridge of
  the rail exist, every PF is an uplink of the shared bridge with the plane that is computed for it, and patch ports connect
  the two bridges. Whatever fails short of a timeout, rails that were joined before stay joined, if they have other
  names and ports.
\<close>

theorem createXPlaneBridges_joins:
  assumes "ovs_database sh view" "rail_ok rt" "run_state (createXPlaneBridges sh rt) s = (x, s')"
    and "events s' = events s @ es" "\<forall>e \<in> set es. \<not> timed_out e"
  shows "(x = None \<and> (\<forall>e \<in> set es. cmd_ok e) \<longrightarrow> joined rt (view (env s'))) \<and>
    (\<forall>rt'. apart rt rt' \<and> joined rt' (view (env s)) \<longrightarrow> joined rt' (view (env s')))"
proof -
  from ovs_database.tolerant_transactions [OF assms(1) xplane_transactions [OF assms(2)] assms(3) [unfolded createXPlaneBridges_plan] assms(4,5)]
  obtain qs where "set qs \<subseteq> set (xplane_progs rt)" "run_vsctl (concat qs) (view (env s)) = Some (view (env s'))"
    "x = None \<and> (\<forall>e \<in> set es. cmd_ok e) \<longrightarrow> qs = xplane_progs rt" by blast
  then show ?thesis using xplane_progs_join [OF _ assms(2)] xplane_progs_keep by blast
qed

lemma demo_rail_ok: "rail_ok (demo_rail ''a'' [''p0'', ''p1''])"
  by (simp add: rail_ok_def demo_rail_def ovs_name_def name_char_def xplane_port_def rail_port_def)

lemma demo_join_run:
  obtains t where "run_state (createXPlaneBridges vsctl_shell (demo_rail ''a'' [''p0'', ''p1''])) \<lparr>events = [], env = no_bridges\<rparr> = (None, t)"
    "list_all cmd_ok (events t)"
proof -
  let ?rt = "demo_rail ''a'' [''p0'', ''p1'']"
  have free: "on_bridge no_bridges b p" "tp_ports no_bridges p = None" for b p by (simp_all add: on_bridge_def no_bridges_def)
  have "own_ports ?rt \<inter> {xplaneBridge, railBridge (rt_Name ?rt)} = {}"
    by (simp add: own_ports_def demo_rail_def xplaneBridge_def railBridge_def xplane_port_def rail_port_def)
  from xplane_progs_ok [OF demo_rail_ok free(2,2) _ free(1) this] free(1)
  have "\<exists>v. run_vsctl (concat (xplane_progs ?rt)) no_bridges = Some v" by blast
  then obtain v where v: "run_vsctl (concat (xplane_progs ?rt)) no_bridges = Some v" by blast
  from vsctl_all_ok [OF xplane_transactions [OF demo_rail_ok], of "\<lparr>events = [], env = no_bridges\<rparr>"] v
  obtain t es where "run_state (exec_tolerant (Execute vsctl_shell) (xplane_plan ?rt)) \<lparr>events = [], env = no_bridges\<rparr> = (None, t)"
    "events t = [] @ es" "list_all cmd_ok es" unfolding world.select_convs by blast
  then show thesis by (intro that [of t]) (simp_all add: createXPlaneBridges_plan)
qed

theorem createXPlaneBridges_joins_witness:
  "joined (demo_rail ''a'' [''p0'', ''p1''])
     (env (snd (run_state (createXPlaneBridges vsctl_shell (demo_rail ''a'' [''p0'', ''p1''])) \<lparr>events = [], env = no_bridges\<rparr>)))"
proof -
  let ?s = "\<lparr>events = [], env = no_bridges\<rparr>"
  obtain t where run: "run_state (createXPlaneBridges vsctl_shell (demo_rail ''a'' [''p0'', ''p1''])) ?s = (None, t)"
    and ok: "list_all cmd_ok (events t)" by (rule demo_join_run)
  then have ok: "cmd_ok e" if "e \<in> set (events t)" for e using that by (simp add: list_all_iff)
  have time: "\<forall>e \<in> set (events t). \<not> timed_out e" using ok cmd_ok_in_time by blast
  have ev: "events t = events ?s @ events t" by simp
  from createXPlaneBridges_joins [OF vsctl_db.ovs_database_axioms demo_rail_ok run ev time] ok
  show ?thesis unfolding run snd_conv by blast
qed

text \<open>
  Property C39. Removing a multiplane rail disconnects all others: after a successful pass without a failed command that has torn
  down a multiplane rail the shared bridge is gone with all its uplinks, so no rail is joined any more, also not those
  that the same reconciliation has just configured.
\<close>

theorem deleteRemoved_disconnects:
  assumes "xplane_host r view" "\<forall>p \<in> set policies. ovs_name (policy_rail p)"
    and "list_NodePolicies (kube r) (rpc_Namespace rpc) [labelOwnerName \<mapsto> rpc_Name rpc] (env s) = (Inr policies, w')"
    and "run_state (deleteRemovedRailTopologies r rpc) s = (None, s')" "(n, True) \<in> set (removed_rails (rail_names rpc) policies {})"
    and "events s' = events s @ es" "\<forall>c e. Cmd c (Inl e) \<notin> set es"
  shows "\<not> joined rt (view (env s'))"
proof -
  from assms(3,4) have "run_state (delete_removed r rpc (rail_names rpc) policies {}) (s\<lparr>env := w'\<rparr>) = (None, s')"
    by (simp add: deleteRemovedRailTopologies_def)
  from xplane_host.delete_removed_run [OF assms(1,2) this] assms(5-7) have "gone (view (env s'))" by force
  then show ?thesis by (rule gone_joined)
qed

lemma host_cleanup:
  assumes "ovs_name n"
  shows "\<exists>t es. run_state (cleanupXPlaneBridges vsctl_shell n) s = (None, t) \<and> events t = events s @ es \<and> list_all cmd_ok es"
proof -
  have "\<exists>v. run_vsctl (concat [[Del_Br (railBridge n)], [Del_Br xplaneBridge]]) (env s) = Some v" by (simp split: option.split)
  then obtain v where "run_vsctl (concat [[Del_Br (railBridge n)], [Del_Br xplaneBridge]]) (env s) = Some v" by blast
  from vsctl_all_ok [OF cleanup_transactions [OF assms] this] show ?thesis unfolding cleanupXPlaneBridges_plan by blast
qed

lemma host_tear_down:
  assumes "ovs_name n"
  shows "\<exists>t es. run_state (tear_down (host rpc ps) ns n m) s = (None, t) \<and> events t = events s @ es \<and> (\<forall>c e. Cmd c (Inl e) \<notin> set es)"
proof -
  have objs: "\<exists>t es. run_state (deleteRailTopologyResources (host rpc ps) ns n) s = (None, t) \<and> events t = events s @ es \<and>
      (\<forall>c e. Cmd c (Inl e) \<notin> set es)" for s
    by (simp add: deleteRailTopologyResources_def delete_object_def api_call_def demo_reconciler_def demo_client_def relevant_error_def)
  have sh: "shell (host rpc ps) = vsctl_shell" by (simp add: demo_reconciler_def)
  obtain t es where t: "run_state (cleanupXPlaneBridges vsctl_shell n) s = (None, t)" "events t = events s @ es" "list_all cmd_ok es"
    using host_cleanup [OF assms] by blast
  have "Cmd c (Inl e) \<notin> set es" for c e using t(3) by (auto simp: list_all_iff)
  moreover obtain u fs where "run_state (deleteRailTopologyResources (host rpc ps) ns n) t = (None, u)" "events u = events t @ fs"
    "\<forall>c e. Cmd c (Inl e) \<notin> set fs" using objs by blast
  ultimately show ?thesis using t objs [of s] by (cases m) (auto simp: tear_down_def sh)
qed

theorem deleteRemoved_disconnects_witness:
  "let rpc = demo_rpc [demo_rail ''a'' [''p0'', ''p1'']] []; r = host rpc [old_policy ''b'' [''q0'', ''q1'']] in
   \<forall>s. \<not> joined (demo_rail ''a'' [''p0'', ''p1'']) (env (snd (run_state (deleteRemovedRailTopologies r rpc) s)))"
proof -
  let ?rpc = "demo_rpc [demo_rail ''a'' [''p0'', ''p1'']] []" and ?p = "old_policy ''b'' [''q0'', ''q1'']"
  have p: "policy_rail ?p = ''b''" "policy_multiplane ?p" "rail_names ?rpc = {''a''}"
    by (simp_all add: old_policy_facts rail_names_def demo_defs)
  then have removed: "(''b'', True) \<in> set (removed_rails (rail_names ?rpc) [?p] {})" by simp
  have names: "ovs_name ''b''" by (simp add: ovs_name_def name_char_def)
  have "\<not> joined (demo_rail ''a'' [''p0'', ''p1'']) (env (snd (run_state (deleteRemovedRailTopologies (host ?rpc [?p]) ?rpc) s)))" for s
  proof -
    have list: "list_NodePolicies (kube (host ?rpc [?p])) ns sel (env s) = (Inr [?p], env s)" for ns sel
      by (simp add: demo_reconciler_def demo_client_def)
    obtain t es where t: "run_state (tear_down (host ?rpc [?p]) (rpc_Namespace ?rpc) ''b'' True) s = (None, t)" "events t = events s @ es"
      "\<forall>c e. Cmd c (Inl e) \<notin> set es" using host_tear_down [OF names] by blast
    then have run: "run_state (deleteRemovedRailTopologies (host ?rpc [?p]) ?rpc) s = (None, t)"
      by (simp add: deleteRemovedRailTopologies_def list p)
    have "\<forall>q \<in> set [?p]. ovs_name (policy_rail q)" using names p(1) by simp
    from deleteRemoved_disconnects [OF vhost.xplane_host_axioms this list run removed t(2,3)] run show ?thesis by simp
  qed
  then show ?thesis by (simp add: Let_def)
qed

end
