(* ===== verification/Store_Frame.thy ===== *)
theory Store_Frame
  imports Store_Properties Controllers
begin

text \<open>
  What a reconciliation of one pool may do to the objects of the API server in any case, failed runs included:
  it only touches the names that belong to the pool, and everything that is stored stays labelled and named as the
  reconciler expects it.
\<close>

section \<open>Names of pools\<close>

text \<open>
  \<open>own\<close> gives every pool the rail names it may use over time; pools of one namespace have different names for
  their policies and networks.
\<close>

definition names_assigned :: "(nsname \<Rightarrow> string set) \<Rightarrow> bool" where
  "names_assigned own \<longleftrightarrow> (\<forall>k. names_apart (own k) \<and> [] \<notin> own k) \<and>
     (\<forall>k l. fst k = fst l \<longrightarrow> k \<noteq> l \<longrightarrow> policy_names (own k) \<inter> policy_names (own l) = {})"

lemma names_assignedD:
  assumes "names_assigned own"
  shows "names_apart (own k)" "[] \<notin> own k" "fst k = fst l \<Longrightarrow> k \<noteq> l \<Longrightarrow> policy_names (own k) \<inter> policy_names (own l) = {}"
  using assms unfolding names_assigned_def by blast+

definition pool_valid :: "(nsname \<Rightarrow> string set) \<Rightarrow> SpectrumXRailPoolConfig \<Rightarrow> bool" where
  "pool_valid own rpc \<longleftrightarrow> rail_names rpc \<subseteq> own (key_of rpc) \<and> distinct (map rt_Name (RailTopologies (rpc_Spec rpc)))"

text \<open>Every policy is stored under its name, and one that is labelled as a pool's is named after one of the pool's rails.\<close>

definition orderly :: "(nsname \<Rightarrow> string set) \<Rightarrow> store \<Rightarrow> bool" where
  "orderly own v \<longleftrightarrow> (\<forall>k p. st_policies v k = Some p \<longrightarrow> policy_key p = k) \<and>
     (\<forall>ns n. \<forall>p \<in> matching v ns [labelOwnerName \<mapsto> n]. np_Name p \<in> policy_names {policy_rail p} \<and> policy_rail p \<in> own (ns, n))"

definition outside_same :: "string set \<Rightarrow> nsname \<Rightarrow> store \<Rightarrow> store \<Rightarrow> bool" where
  "outside_same N k v v' \<longleftrightarrow>
     (\<forall>l. fst l \<noteq> fst k \<or> snd l \<notin> policy_names N \<longrightarrow> st_policies v' l = st_policies v l) \<and>
     (\<forall>l. fst l \<noteq> fst k \<or> snd l \<notin> N \<longrightarrow> st_networks v' l = st_networks v l) \<and>
     (\<forall>l. l \<noteq> k \<longrightarrow> st_pools v' l = st_pools v l)"

lemma outside_same_refl [simp]: "outside_same N k v v"
  by (simp add: outside_same_def)

lemma orderly_wf:
  assumes "orderly own v" "pool_valid own rpc" "names_assigned own"
  shows "store_wf rpc v"
proof -
  have sub: "rail_names rpc \<union> policy_rail ` owned rpc v \<subseteq> own (key_of rpc)"
    using assms(1,2) by (auto simp: orderly_def pool_valid_def owned_def key_of_def)
  moreover note names_assignedD [OF assms(3), of "key_of rpc"]
  ultimately have "names_apart (rail_names rpc \<union> policy_rail ` owned rpc v)" "[] \<notin> rail_names rpc"
    using names_apart_mono by blast+
  with assms(1,2) show ?thesis by (auto simp: store_wf_def orderly_def owned_def pool_valid_def)
qed

text \<open>The writes of a reconciliation keep order and stay inside.\<close>

definition in_scope :: "(nsname \<Rightarrow> string set) \<Rightarrow> nsname \<Rightarrow> store \<Rightarrow> store \<Rightarrow> bool" where
  "in_scope own k v0 v \<longleftrightarrow> orderly own v \<and> outside_same (own k) k v0 v"

lemma owner_label: "np_Labels p = owner_labels rpc rt \<Longrightarrow> np_Labels p labelOwnerName = Some (rpc_Name rpc)"
  by (simp add: owner_labels_def Let_def labelOwnerName_def labelRailTopologyName_def labelMultiplane_def)

lemma scope_policy:
  assumes "in_scope own (key_of rpc) v0 v" "rt_Name rt \<in> own (key_of rpc)" "rt_Name rt \<noteq> []"
    and "p = primary_policy rpc rt pf \<or> p = secondary_policy rpc rt pfs"
  shows "in_scope own (key_of rpc) v0 (effect (PatchPolicy p) v)"
proof -
  have p: "policy_rail p = rt_Name rt" "fst (policy_key p) = rpc_Namespace rpc" "np_Name p \<in> policy_names {rt_Name rt}"
    "np_Name p = snd (policy_key p)"
    using assms(4) generated_rail [OF assms(3)] generated_keys(1) [of rpc rt pf] generated_keys(2) [of rpc rt pfs]
    by (auto simp: policy_names_def policy_key_def)
  have l: "np_Labels p labelOwnerName = Some (rpc_Name rpc)"
    using assms(4) by (auto intro!: owner_label simp: primary_policy_def secondary_policy_def)
  have "np_Name q \<in> policy_names {policy_rail q} \<and> policy_rail q \<in> own (ns, n)"
    if "q \<in> matching (effect (PatchPolicy p) v) ns [labelOwnerName \<mapsto> n]" for q ns n
  proof (cases "q = p")
    case True
    with that have "np_Labels p labelOwnerName = Some n" by (auto simp: matching_def map_le_def)
    moreover have "ns = rpc_Namespace rpc"
    proof -
      from that obtain m where "st_policies (effect (PatchPolicy p) v) (ns, m) = Some p" by (auto simp: matching_def True)
      then show ?thesis using assms(1) p(2) by (auto simp: in_scope_def orderly_def split: if_splits) (metis fst_conv)+
    qed
    ultimately show ?thesis using p l assms(2) True by (simp add: key_of_def)
  next
    case False
    with that have "q \<in> matching v ns [labelOwnerName \<mapsto> n]" by (auto simp: matching_def split: if_splits)
    with assms(1) show ?thesis by (auto simp: in_scope_def orderly_def)
  qed
  moreover have "snd (policy_key p) \<in> policy_names (own (key_of rpc))" using p(3,4) assms(2) by (auto simp: policy_names_def)
  moreover obtain m where "policy_key p = (rpc_Namespace rpc, m)" using p(2) by (cases "policy_key p") auto
  ultimately show ?thesis
    using assms(1) by (auto simp: in_scope_def orderly_def outside_same_def key_of_def)
qed

lemma scope_network:
  "in_scope own (key_of rpc) v0 v \<Longrightarrow> rt_Name rt \<in> own (key_of rpc) \<Longrightarrow>
   in_scope own (key_of rpc) v0 (effect (PatchOVSNetwork (ovs_network rpc rt b)) v)"
  by (auto simp: in_scope_def orderly_def outside_same_def matching_def key_of_def)

lemma scope_pool:
  "in_scope own (key_of rpc) v0 v \<Longrightarrow> in_scope own (key_of rpc) v0 (effect (PatchPoolConfig (pool_config rpc)) v)"
  "in_scope own (key_of rpc) v0 v \<Longrightarrow> in_scope own (key_of rpc) v0 (effect (DeletePoolConfig (rpc_Namespace rpc, rpc_Name rpc)) v)"
  by (auto simp: in_scope_def orderly_def outside_same_def matching_def key_of_def)

lemma scope_delete:
  assumes "in_scope own (key_of rpc) v0 v" "n \<in> own (key_of rpc)"
  shows "in_scope own (key_of rpc) v0 (effect (DeletePolicy (rpc_Namespace rpc, n)) v)"
    and "in_scope own (key_of rpc) v0 (effect (DeletePolicy (rpc_Namespace rpc, n @ unusedPolicySuffix)) v)"
    and "in_scope own (key_of rpc) v0 (effect (DeleteOVSNetwork (rpc_Namespace rpc, n)) v)"
proof -
  have sub: "matching (effect (DeletePolicy k) v) ns sel \<subseteq> matching v ns sel" for k ns sel
    by (auto simp: matching_def split: if_splits)
  have del: "in_scope own (key_of rpc) v0 (effect (DeletePolicy (rpc_Namespace rpc, m)) v)" if "m \<in> policy_names (own (key_of rpc))" for m
  proof -
    have "orderly own (effect (DeletePolicy (rpc_Namespace rpc, m)) v)"
      using assms(1) sub unfolding in_scope_def orderly_def by (fastforce split: if_splits)
    with assms(1) that show ?thesis by (auto simp: in_scope_def outside_same_def key_of_def)
  qed
  show "in_scope own (key_of rpc) v0 (effect (DeletePolicy (rpc_Namespace rpc, n)) v)"
    "in_scope own (key_of rpc) v0 (effect (DeletePolicy (rpc_Namespace rpc, n @ unusedPolicySuffix)) v)"
    using assms(2) by (auto intro!: del simp: policy_names_def simp del: effect.simps)
  show "in_scope own (key_of rpc) v0 (effect (DeleteOVSNetwork (rpc_Namespace rpc, n)) v)"
    using assms by (auto simp: in_scope_def orderly_def outside_same_def matching_def key_of_def)
qed

section \<open>Every run stays in scope\<close>

text \<open>
  The contract of the store, with what the callers of an API may expect of a write that is answered with an error: it was
  carried out, or it was not.
\<close>

locale tracked_store = lawful_store r view pools
  for r :: "'w HostReconciler" and view :: "'w \<Rightarrow> store" and pools +
  assumes rejected: "fst (api_do (kube r) a w) = Some e \<Longrightarrow>
    view (snd (api_do (kube r) a w)) = view w \<or> view (snd (api_do (kube r) a w)) = effect a (view w)"
begin

lemma maintains_api:
  assumes "\<And>v. J v \<Longrightarrow> J (effect a v)"
  shows "maintains view J (api_call (kube r) a)"
  unfolding maintains_def
proof (intro allI impI)
  fix s x s'
  assume run: "run_state (api_call (kube r) a) s = (x, s')" and J: "J (view (env s))"
  obtain err w where do: "api_do (kube r) a (env s) = (err, w)" by fastforce
  with run have "view (env s') = view w" by (auto simp: api_call_def)
  moreover have "view w = view (env s) \<or> view w = effect a (view (env s))"
    using rejected [of a "env s"] accepted [of a "env s"] other_write [of a "env s"] do by (cases err; cases "on_store a") auto
  ultimately show "J (view (env s'))" using J assms by auto
qed

lemma maintains_delete: "(\<And>v. J v \<Longrightarrow> J (effect a v)) \<Longrightarrow> maintains view J (delete_object r a wrap)"
  unfolding delete_object_def by (intro maintains_rules maintains_api)

lemma scope_tear_down:
  assumes "n \<in> own (key_of rpc)"
  shows "maintains view (in_scope own (key_of rpc) v0) (tear_down r (rpc_Namespace rpc) n m)"
  unfolding tear_down_def deleteRailTopologyResources_def
  by (intro maintains_rules maintains_delete keeps_maintains keeps_cleanup scope_delete assms)

lemma scope_delete_removed:
  "\<forall>p \<in> set ps. policy_rail p \<in> own (key_of rpc) \<Longrightarrow>
   maintains view (in_scope own (key_of rpc) v0) (delete_removed r rpc current ps deleted)"
proof (induction ps arbitrary: deleted)
  case (Cons p ps)
  have p: "policy_rail p \<in> own (key_of rpc)" and ps: "\<forall>p \<in> set ps. policy_rail p \<in> own (key_of rpc)" using Cons.prems by simp_all
  show ?case
    unfolding delete_removed.simps by (intro maintains_rules scope_tear_down p Cons.IH [OF ps])
qed (simp add: maintains_return)

lemma scope_deleteRemoved: "maintains view (in_scope own (key_of rpc) v0) (deleteRemovedRailTopologies r rpc)"
  unfolding deleteRemovedRailTopologies_def
proof (rule maintains_bind_run)
  show "maintains view (in_scope own (key_of rpc) v0)
      (observe (list_NodePolicies (kube r) (rpc_Namespace rpc) [labelOwnerName \<mapsto> rpc_Name rpc]))"
    by (intro keeps_maintains keeps_observe list_policies)
  fix got s s'
  assume run: "run_state (observe (list_NodePolicies (kube r) (rpc_Namespace rpc) [labelOwnerName \<mapsto> rpc_Name rpc])) s = (got, s')"
    and J: "in_scope own (key_of rpc) v0 (view (env s))"
  have "\<forall>p \<in> set ps. policy_rail p \<in> own (key_of rpc)" if "got = Inr ps" for ps
    using that run J listed [of "rpc_Namespace rpc" "[labelOwnerName \<mapsto> rpc_Name rpc]" "env s" ps]
    by (auto simp: in_scope_def orderly_def key_of_def split: prod.splits)
  then show "maintains view (in_scope own (key_of rpc) v0)
      (case got of Inl err \<Rightarrow> if \<not> IsNotFound (lib r) err then State_Monad.return (Some (WrapError ''failed to list SriovNetworkNodePolicies: '' err []))
         else delete_removed r rpc (rail_names rpc) [] {}
       | Inr policies \<Rightarrow> delete_removed r rpc (rail_names rpc) policies {})"
    by (cases got) (auto intro: scope_delete_removed maintains_return)
qed

lemma scope_rail:
  assumes "rt_Name rt \<in> own (key_of rpc)" "rt_Name rt \<noteq> []"
  shows "maintains view (in_scope own (key_of rpc) v0) (reconcileRailTopology r rpc rt)"
proof -
  have net: "maintains view (in_scope own (key_of rpc) v0) (reconcile_network r rpc rt)"
    unfolding reconcile_network_def
    by (intro maintains_rules maintains_api keeps_maintains keeps_decide_vrf keeps_configureXPlane scope_network assms)
  have pol: "maintains view (in_scope own (key_of rpc) v0) (api_call (kube r) (PatchPolicy p))"
    if "p = primary_policy rpc rt pf \<or> p = secondary_policy rpc rt pfs" for p pf pfs
    by (rule maintains_api, rule scope_policy [where rt = rt and pf = pf and pfs = pfs]) (use assms that in simp_all)
  show ?thesis
    unfolding reconcileRailTopology_def
    by (cases "pf_names rt") (auto intro!: maintains_rules net pol)
qed

lemma scope_rails:
  "\<forall>rt \<in> set rts. rt_Name rt \<in> own (key_of rpc) \<and> rt_Name rt \<noteq> [] \<Longrightarrow>
   maintains view (in_scope own (key_of rpc) v0) (reconcile_rails r rpc rts)"
  by (induction rts) (auto intro!: maintains_rules scope_rail)

lemma scope_delete_rails:
  "\<forall>rt \<in> set rts. rt_Name rt \<in> own (key_of rpc) \<Longrightarrow> maintains view (in_scope own (key_of rpc) v0) (delete_rails r rpc rts)"
proof (induction rts)
  case (Cons rt rts)
  have rt: "rt_Name rt \<in> own (key_of rpc)" using Cons.prems by simp
  show ?case
    unfolding delete_rails.simps
    by (intro maintains_rules scope_tear_down rt keeps_maintains [OF keeps_localNode] keeps_maintains [OF keeps_status [OF laws(1)]] Cons.IH)
      (use Cons.prems in simp)
qed (simp add: maintains_return)

lemma scope_fail: "maintains view J (failReconcile r x err msg sel)"
  unfolding failReconcile_def by (intro maintains_rules keeps_maintains [OF keeps_status [OF laws(1)]])

lemma scope_selected:
  assumes "pool_valid own rpc" "[] \<notin> own (key_of rpc)"
  shows "maintains view (in_scope own (key_of rpc) v0) (reconcile_selected r rpc sel)"
proof -
  have rails: "\<forall>rt \<in> set (RailTopologies (rpc_Spec rpc)). rt_Name rt \<in> own (key_of rpc) \<and> rt_Name rt \<noteq> []"
    using assms by (auto simp: pool_valid_def rail_names_def)
  have pool: "maintains view (in_scope own (key_of rpc) v0) (applyPoolConfig r rpc)"
    unfolding applyPoolConfig_def by (intro maintains_rules maintains_api scope_pool)
  show ?thesis
    unfolding reconcile_selected_def reconcileRailTopologies_def
    by (intro maintains_rules scope_fail pool scope_rails rails scope_deleteRemoved keeps_maintains [OF keeps_process [OF laws(1)]])
qed

lemma Reconcile_scope:
  assumes "pool_valid own rpc" "[] \<notin> own (key_of rpc)"
  shows "maintains view (in_scope own (key_of rpc) v0) (Reconcile r rpc)"
proof -
  have "rt_Name rt \<in> own (key_of rpc)" if "rt \<in> set (RailTopologies (rpc_Spec rpc))" for rt
    using that assms(1) by (auto simp: pool_valid_def rail_names_def)
  then have del: "maintains view (in_scope own (key_of rpc) v0) (handleDeletion r rpc)"
    unfolding handleDeletion_def
    by (intro maintains_rules scope_delete_rails maintains_delete scope_pool keeps_maintains [OF keeps_api]) simp_all
  have sel: "maintains view (in_scope own (key_of rpc) v0) (reconcile_selected r y sel)" if "same_but_status rpc y" for y sel
  proof -
    from that obtain st where y: "y = rpc\<lparr>rpc_Status := st\<rparr>" by (auto simp: same_but_status_def)
    have "key_of y = key_of rpc" "pool_valid own y" using assms(1) by (simp_all add: y key_of_def pool_valid_def rail_names_def)
    with scope_selected [of own y] assms(2) show ?thesis by simp
  qed
  have start: "maintains view (in_scope own (key_of rpc) v0) (State_Monad.bind (patchSyncStatus r rpc SyncStatusInProgress)
      (\<lambda>res. case res of (err, y) \<Rightarrow> (case err of
          Some e \<Rightarrow> State_Monad.return (Some e) | None \<Rightarrow> reconcile_selected r y b)))" for b
  proof (rule maintains_bind_run)
    show "maintains view (in_scope own (key_of rpc) v0) (patchSyncStatus r rpc SyncStatusInProgress)"
      unfolding patchSyncStatus_def by (rule keeps_maintains [OF keeps_status [OF laws(1)]])
    fix res s s'
    assume "run_state (patchSyncStatus r rpc SyncStatusInProgress) s = (res, s')"
    then obtain err y where res: "res = (err, y)" "run_state (patchSyncStatusWithMessage r rpc SyncStatusInProgress []) s = ((err, y), s')"
      by (cases res) (simp add: patchSyncStatus_def)
    from trace_specD [OF trace_patch_object [OF laws(1)] res(2)] have "same_but_status rpc y" by auto
    then show "maintains view (in_scope own (key_of rpc) v0) (case res of (err, y) \<Rightarrow> (case err of
          Some e \<Rightarrow> State_Monad.return (Some e) | None \<Rightarrow> reconcile_selected r y b))"
      by (auto simp: res(1) intro!: maintains_rules sel)
  qed
  show ?thesis
    unfolding Reconcile_eq doReconcile_def
    by (intro maintains_rules del start sel keeps_maintains [OF keeps_localNode] keeps_maintains [OF keeps_api]) (simp_all add: same_but_status_refl)
qed

end

interpretation tracked: tracked_store "objs_reconciler pools rpc" objs_view pools for pools rpc
proof unfold_locales
  fix a w e
  assume "fst (api_do (kube (objs_reconciler pools rpc)) a w) = Some e"
  then show "objs_view (snd (api_do (kube (objs_reconciler pools rpc)) a w)) = objs_view w \<or>
      objs_view (snd (api_do (kube (objs_reconciler pools rpc)) a w)) = effect a (objs_view w)"
    by (cases a) (auto simp: objs_reconciler_def demo_reconciler_def split: if_splits)
qed

end
