(* ===== verification/Compat_Writes.thy ===== *)
theory Compat_Writes
  imports Store_Frame
begin

text \<open>
  The agents of all nodes write the same objects: every agent reconciles every pool, at the same time as the others. Here it is said
  which changes of the store do not undo what the pools want, and shown that the writes of a reconciliation are such changes
  in every state of the store in which they may arrive.
\<close>

section \<open>Compatible changes\<close>

text \<open>The patches that make the objects of a pool what they should be, and the policies that should go.\<close>

definition rail_writes :: "(nsname \<Rightarrow> nested_string result) \<Rightarrow> SpectrumXRailPoolConfig \<Rightarrow> RailTopology \<Rightarrow> api_write set" where
  "rail_writes pools rpc rt =
     {PatchPolicy (primary_policy rpc rt (hd (pf_names rt))),
      PatchOVSNetwork (ovs_network rpc rt (vrf_wanted pools (rpc_Namespace rpc) rt))} \<union>
     (if tl (pf_names rt) = [] then {} else {PatchPolicy (secondary_policy rpc rt (tl (pf_names rt)))})"

definition wanted_writes :: "(nsname \<Rightarrow> nested_string result) \<Rightarrow> SpectrumXRailPoolConfig \<Rightarrow> api_write set" where
  "wanted_writes pools rpc =
     insert (PatchPoolConfig (pool_config rpc)) (\<Union>rt \<in> set (RailTopologies (rpc_Spec rpc)). rail_writes pools rpc rt)"

definition in_place :: "api_write \<Rightarrow> store \<Rightarrow> bool" where
  "in_place a v \<longleftrightarrow> effect a v = v"

definition stale_keys :: "SpectrumXRailPoolConfig \<Rightarrow> store \<Rightarrow> nsname set" where
  "stale_keys rpc v = policy_key ` {p \<in> owned rpc v. policy_rail p \<notin> rail_names rpc}"

lemma in_place_simps [simp]:
  "in_place (PatchPolicy p) v \<longleftrightarrow> st_policies v (policy_key p) = Some p"
  "in_place (PatchOVSNetwork n) v \<longleftrightarrow> st_networks v (on_Namespace n, on_Name n) = Some n"
  "in_place (PatchPoolConfig q) v \<longleftrightarrow> st_pools v (pc_Namespace q, pc_Name q) = Some q"
proof -
  have upd: "f(x \<mapsto> y) = f \<longleftrightarrow> f x = Some y" for f :: "'a \<rightharpoonup> 'b" and x y by (metis fun_upd_same fun_upd_triv)
  show "in_place (PatchPolicy p) v \<longleftrightarrow> st_policies v (policy_key p) = Some p"
    "in_place (PatchOVSNetwork n) v \<longleftrightarrow> st_networks v (on_Namespace n, on_Name n) = Some n"
    "in_place (PatchPoolConfig q) v \<longleftrightarrow> st_pools v (pc_Namespace q, pc_Name q) = Some q"
    by (cases v; simp add: in_place_def upd)+
qed

lemma store_desired_eq: "store_desired pools rpc v \<longleftrightarrow> (\<forall>a \<in> wanted_writes pools rpc. in_place a v) \<and> stale_keys rpc v = {}"
  by (auto simp: store_desired_def wanted_writes_def rail_writes_def rail_wanted_def stale_keys_def)

text \<open>
  A change is compatible with a set of pools if it keeps the store in order, and whatever is already as one of the pools wants
  it stays so.
\<close>

definition advances :: "(nsname \<Rightarrow> nested_string result) \<Rightarrow> SpectrumXRailPoolConfig \<Rightarrow> store \<Rightarrow> store \<Rightarrow> bool" where
  "advances pools rpc v v' \<longleftrightarrow>
     (\<forall>a \<in> wanted_writes pools rpc. in_place a v \<longrightarrow> in_place a v') \<and> stale_keys rpc v' \<subseteq> stale_keys rpc v"

definition compatible :: "(nsname \<Rightarrow> string set) \<Rightarrow> (nsname \<Rightarrow> nested_string result) \<Rightarrow> SpectrumXRailPoolConfig set \<Rightarrow>
    store \<Rightarrow> store \<Rightarrow> bool" where
  "compatible own pools specs v v' \<longleftrightarrow> (orderly own v \<longrightarrow> orderly own v' \<and> (\<forall>rpc \<in> specs. advances pools rpc v v'))"

definition harmless :: "(nsname \<Rightarrow> string set) \<Rightarrow> (nsname \<Rightarrow> nested_string result) \<Rightarrow> SpectrumXRailPoolConfig set \<Rightarrow>
    api_write \<Rightarrow> bool" where
  "harmless own pools specs a \<longleftrightarrow> (\<forall>v. compatible own pools specs v (effect a v))"

definition specs_valid :: "(nsname \<Rightarrow> string set) \<Rightarrow> SpectrumXRailPoolConfig set \<Rightarrow> bool" where
  "specs_valid own specs \<longleftrightarrow> names_assigned own \<and> inj_on key_of specs \<and> (\<forall>rpc \<in> specs. pool_valid own rpc)"

lemma compatible_refl [simp]: "compatible own pools specs v v"
  by (simp add: compatible_def advances_def)

lemma compatible_trans: "compatible own pools specs u v \<Longrightarrow> compatible own pools specs v w \<Longrightarrow> compatible own pools specs u w"
  unfolding compatible_def advances_def by blast

text \<open>Any sequence of harmless writes is a compatible change.\<close>

lemma harmless_writes: "\<forall>a \<in> set as. harmless own pools specs a \<Longrightarrow> compatible own pools specs v (fold effect as v)"
  by (induction as arbitrary: v) (auto simp: harmless_def intro: compatible_trans)

section \<open>The writes of a reconciliation are harmless\<close>

text \<open>For other pools, as they stay in the scope of theirs.\<close>

lemma stale_keysE:
  assumes "k \<in> stale_keys rpc v" "orderly own v"
  obtains p n where "k = (rpc_Namespace rpc, n)" "st_policies v k = Some p" "p \<in> owned rpc v" "policy_rail p \<notin> rail_names rpc"
    "n \<in> policy_names {policy_rail p}" "policy_rail p \<in> own (key_of rpc)"
proof -
  from assms(1) obtain p n where p: "k = policy_key p" "p \<in> owned rpc v" "policy_rail p \<notin> rail_names rpc"
    "st_policies v (rpc_Namespace rpc, n) = Some p"
    by (auto simp: stale_keys_def owned_def matching_def)
  moreover have k: "k = (rpc_Namespace rpc, n)" using p(1,4) assms(2) by (simp add: orderly_def)
  moreover have "np_Name p = n" using k p(1) by (simp add: policy_key_def)
  ultimately show thesis using assms(2) that [of n p] by (auto simp: orderly_def owned_def key_of_def)
qed

lemma stale_keysI: "orderly own v \<Longrightarrow> st_policies v k = Some p \<Longrightarrow> p \<in> owned rpc v \<Longrightarrow> policy_rail p \<notin> rail_names rpc \<Longrightarrow>
   k \<in> stale_keys rpc v"
  unfolding stale_keys_def orderly_def by (rule image_eqI [of _ _ p]) (metis, simp)

lemma policy_names_mono: "M \<subseteq> N \<Longrightarrow> policy_names M \<subseteq> policy_names N"
  by (auto simp: policy_names_def)

lemma frame_advances:
  assumes "names_assigned own" "pool_valid own rpc" "key_of rpc \<noteq> l" "outside_same (own l) l v v'" "orderly own v" "orderly own v'"
  shows "advances pools rpc v v'"
proof -
  let ?k = "key_of rpc" and ?ns = "rpc_Namespace rpc"
  have apart: "m \<notin> policy_names (own l)" if "m \<in> policy_names (own ?k)" "fst l = ?ns" for m
    using names_assignedD(3) [OF assms(1), of ?k l] assms(3) that by (auto simp: key_of_def)
  have pol: "st_policies v' (?ns, m) = st_policies v (?ns, m)" if "m \<in> policy_names (own ?k)" for m
    using assms(4) apart [OF that] by (auto simp: outside_same_def)
  have net: "st_networks v' (?ns, m) = st_networks v (?ns, m)" if "m \<in> own ?k" for m
    using assms(4) apart [of m] that by (auto simp: outside_same_def policy_names_def)
  have pool: "st_pools v' ?k = st_pools v ?k" using assms(3,4) unfolding outside_same_def by blast
  have rail: "rt_Name rt \<in> own ?k" if "rt \<in> set (RailTopologies (rpc_Spec rpc))" for rt
    using that assms(2) by (auto simp: pool_valid_def rail_names_def)
  have "in_place a v \<longrightarrow> in_place a v'" if "a \<in> wanted_writes pools rpc" for a
    using that pol net pool rail
    by (auto simp: wanted_writes_def rail_writes_def policy_names_def key_of_def split: if_splits)
  moreover have "k \<in> stale_keys rpc v" if k: "k \<in> stale_keys rpc v'" for k
  proof -
    from stale_keysE [OF k assms(6)] obtain p n where p: "k = (?ns, n)" "st_policies v' k = Some p" "p \<in> owned rpc v'"
      "policy_rail p \<notin> rail_names rpc" "n \<in> policy_names {policy_rail p}" "policy_rail p \<in> own ?k" .
    then have "n \<in> policy_names (own ?k)" using policy_names_mono [of "{policy_rail p}" "own ?k"] by blast
    with pol p(1,2) have "st_policies v k = Some p" by simp
    moreover from this p(1,3) have "p \<in> owned rpc v" by (auto simp: owned_def matching_def)
    ultimately show ?thesis using stale_keysI [OF assms(5)] p(4) by blast
  qed
  ultimately show ?thesis by (auto simp: advances_def)
qed

lemma harmlessI:
  assumes "specs_valid own specs" "rpc \<in> specs"
    and scope: "\<And>v. orderly own v \<Longrightarrow> in_scope own (key_of rpc) v (effect a v)"
    and own: "\<And>v. orderly own v \<Longrightarrow> advances pools rpc v (effect a v)"
  shows "harmless own pools specs a"
proof -
  have "advances pools x v (effect a v)" if "orderly own v" "x \<in> specs" for v x
  proof (cases "x = rpc")
    case False
    then have "key_of x \<noteq> key_of rpc" using assms(1,2) that(2) by (auto simp: specs_valid_def dest: inj_onD)
    moreover have "names_assigned own" "pool_valid own x" using assms(1) that(2) by (auto simp: specs_valid_def)
    ultimately show ?thesis using frame_advances scope [OF that(1)] that(1) by (auto simp: in_scope_def)
  qed (simp add: own that(1))
  then show ?thesis using scope by (auto simp: harmless_def compatible_def in_scope_def)
qed

text \<open>For the pool itself, as all its objects have names of their own.\<close>

lemma rail_distinct:
  assumes "pool_valid own rpc" "rt \<in> set (RailTopologies (rpc_Spec rpc))" "rt' \<in> set (RailTopologies (rpc_Spec rpc))"
  shows "rt_Name rt = rt_Name rt' \<longleftrightarrow> rt = rt'"
  using assms by (auto simp: pool_valid_def distinct_map inj_on_def)

lemma rail_unused:
  assumes "pool_valid own rpc" "names_assigned own" "rt \<in> set (RailTopologies (rpc_Spec rpc))" "n \<in> own (key_of rpc)"
  shows "rt_Name rt \<noteq> n @ unusedPolicySuffix" "n \<noteq> rt_Name rt @ unusedPolicySuffix"
proof -
  have "rt_Name rt \<in> own (key_of rpc)" using assms(1,3) by (auto simp: pool_valid_def rail_names_def)
  then show "rt_Name rt \<noteq> n @ unusedPolicySuffix" "n \<noteq> rt_Name rt @ unusedPolicySuffix"
    using names_assignedD(1) [OF assms(2), of "key_of rpc"] assms(4) by (auto simp: names_apart_def)
qed

lemma rail_keys_apart:
  assumes "pool_valid own rpc" "names_assigned own" "rt \<in> set (RailTopologies (rpc_Spec rpc))" "rt' \<in> set (RailTopologies (rpc_Spec rpc))"
  shows "rt_Name rt \<noteq> rt_Name rt' @ unusedPolicySuffix"
proof -
  have "rt_Name rt' \<in> own (key_of rpc)" using assms(1,4) by (auto simp: pool_valid_def rail_names_def)
  from rail_unused(1) [OF assms(1-3) this] show ?thesis .
qed

lemma wanted_in_place:
  assumes "pool_valid own rpc" "names_assigned own" "a \<in> wanted_writes pools rpc" "b \<in> wanted_writes pools rpc" "in_place b v"
  shows "in_place b (effect a v)"
  using assms(3-5) rail_distinct [OF assms(1)] rail_keys_apart [OF assms(1,2)]
  by (auto simp: wanted_writes_def rail_writes_def split: if_splits) metis+

lemma wanted_policy_rail:
  assumes "PatchPolicy p \<in> wanted_writes pools rpc" "[] \<notin> rail_names rpc"
  shows "policy_rail p \<in> rail_names rpc"
proof -
  from assms(1) obtain rt where rt: "rt \<in> set (RailTopologies (rpc_Spec rpc))" "p = primary_policy rpc rt (hd (pf_names rt)) \<or> p = secondary_policy rpc rt (tl (pf_names rt))"
    by (auto simp: wanted_writes_def rail_writes_def split: if_splits)
  moreover from this(1) have "rt_Name rt \<in> rail_names rpc" by (simp add: rail_names_def)
  moreover from this assms(2) have "rt_Name rt \<noteq> []" by metis
  ultimately show ?thesis using generated_rail by metis
qed

lemma wanted_harmless:
  assumes specs: "specs_valid own specs" "rpc \<in> specs" and a: "a \<in> wanted_writes pools rpc"
  shows "harmless own pools specs a"
proof (rule harmlessI [OF specs])
  have valid: "pool_valid own rpc" "names_assigned own" using specs by (auto simp: specs_valid_def)
  have names: "[] \<notin> own (key_of rpc)" "rail_names rpc \<subseteq> own (key_of rpc)"
    using names_assignedD(2) [OF valid(2)] valid(1) by (auto simp: pool_valid_def)
  fix v
  assume v: "orderly own v"
  have rail: "rt_Name rt \<in> own (key_of rpc)" "rt_Name rt \<noteq> []" if "rt \<in> set (RailTopologies (rpc_Spec rpc))" for rt
    using that names by (auto simp: rail_names_def)
  have sc: "in_scope own (key_of rpc) v v" using v by (simp add: in_scope_def)
  note scope = scope_pool(1) [OF sc] scope_policy [OF sc rail disjI1] scope_policy [OF sc rail disjI2] scope_network [OF sc rail(1)]
  show "in_scope own (key_of rpc) v (effect a v)"
    using a scope unfolding wanted_writes_def rail_writes_def by (auto simp del: effect.simps split: if_splits)
  have "k \<in> stale_keys rpc v" if k: "k \<in> stale_keys rpc (effect a v)" for k
  proof (cases "\<exists>p. a = PatchPolicy p")
    case True
    then obtain p where p: "a = PatchPolicy p" by blast
    then have "policy_rail p \<in> rail_names rpc" using wanted_policy_rail a names by blast
    with k show ?thesis by (auto simp: p stale_keys_def owned_def matching_def split: if_splits)
  next
    case False
    with a have "st_policies (effect a v) = st_policies v" by (auto simp: wanted_writes_def rail_writes_def split: if_splits)
    with k show ?thesis by (simp add: stale_keys_def owned_def matching_def)
  qed
  with wanted_in_place [OF valid a] show "advances pools rpc v (effect a v)" by (auto simp: advances_def)
qed

definition rail_deletes :: "string \<Rightarrow> string \<Rightarrow> api_write set" where
  "rail_deletes ns n = {DeletePolicy (ns, n), DeletePolicy (ns, n @ unusedPolicySuffix), DeleteOVSNetwork (ns, n)}"

lemma delete_harmless:
  assumes specs: "specs_valid own specs" "rpc \<in> specs"
    and n: "n \<in> own (key_of rpc)" "n \<notin> rail_names rpc" and a: "a \<in> rail_deletes (rpc_Namespace rpc) n"
  shows "harmless own pools specs a"
proof (rule harmlessI [OF specs])
  have valid: "pool_valid own rpc" "names_assigned own" using specs by (auto simp: specs_valid_def)
  fix v
  assume v: "orderly own v"
  then have sc: "in_scope own (key_of rpc) v v" by (simp add: in_scope_def)
  show "in_scope own (key_of rpc) v (effect a v)"
    using a scope_delete [OF sc n(1)] by (auto simp: rail_deletes_def simp del: effect.simps)
  have "in_place b (effect a v)" if "b \<in> wanted_writes pools rpc" "in_place b v" for b
    using that a n(2) rail_unused [OF valid _ n(1)]
    by (auto simp: wanted_writes_def rail_writes_def rail_deletes_def rail_names_def split: if_splits) blast
  moreover have "owned rpc (effect a v) \<subseteq> owned rpc v"
    using a by (auto simp: rail_deletes_def owned_def matching_def split: if_splits)
  then have "stale_keys rpc (effect a v) \<subseteq> stale_keys rpc v" unfolding stale_keys_def by blast
  ultimately show "advances pools rpc v (effect a v)" by (auto simp: advances_def)
qed

end
