(* ===== verification/Agent_Loop.thy ===== *)
theory Agent_Loop
  imports Store_Frame
begin

text \<open>
  An agent at work: users change the pools at any time, events put requests into the queue of the controller,
  and its worker takes one request after the other, reads the pool and runs \<open>Reconcile\<close>. A request whose run
  returns an error goes back into the queue, as do requests that arrive during the run. Here the registrations of
  \<open>SetupWithManager\<close>, the delivery of events, the reconciler and the store come together: however changes and runs
  interleave, an agent with nothing to do has brought the objects of every pool into the desired state.
\<close>

section \<open>The state and its steps\<close>

record 'w agent =
  objects :: "nsname \<rightharpoonup> SpectrumXRailPoolConfig"
  queue :: "nsname set"
  active :: "(nsname \<times> SpectrumXRailPoolConfig) option"
  world_of :: "'w world"

definition requested :: "('w Controller \<Rightarrow> watch_event \<Rightarrow> ('w, nsname list) op) \<Rightarrow> 'w Controller \<Rightarrow> watch_event \<Rightarrow> 'w world \<Rightarrow> nsname set" where
  "requested deliver c ev s = set (fst (run_state (deliver c ev) s))"

text \<open>
  Pools are created, changed (their spec, but also finalizers, status or the deletion timestamp) and vanish. \<open>start\<close>
  and \<open>finish\<close> are the worker; \<open>skip\<close> is a request for a pool that is gone. The changes of a run are made
  at \<open>finish\<close>, for the pool as it was read at \<open>start\<close>.
\<close>

inductive agent_step :: "'w HostReconciler \<Rightarrow> (watch_event \<Rightarrow> 'w world \<Rightarrow> nsname set) \<Rightarrow> (nsname \<Rightarrow> string set) \<Rightarrow>
    'w agent \<Rightarrow> 'w agent \<Rightarrow> bool" for r req own where
  create: "objects a (key_of rpc) = None \<Longrightarrow> pool_valid own rpc \<Longrightarrow>
    agent_step r req own a (a\<lparr>objects := (objects a)(key_of rpc \<mapsto> rpc),
      queue := queue a \<union> req (CreateEvent (RailPoolObject rpc)) (world_of a)\<rparr>)"
| update: "objects a (key_of rpc) = Some old \<Longrightarrow> pool_valid own rpc \<Longrightarrow>
    agent_step r req own a (a\<lparr>objects := (objects a)(key_of rpc \<mapsto> rpc),
      queue := queue a \<union> req (UpdateEvent (RailPoolObject old) (RailPoolObject rpc)) (world_of a)\<rparr>)"
| vanish: "objects a k = Some old \<Longrightarrow>
    agent_step r req own a (a\<lparr>objects := (objects a)(k := None),
      queue := queue a \<union> req (DeleteEvent (RailPoolObject old)) (world_of a)\<rparr>)"
| skip: "active a = None \<Longrightarrow> k \<in> queue a \<Longrightarrow> objects a k = None \<Longrightarrow>
    agent_step r req own a (a\<lparr>queue := queue a - {k}\<rparr>)"
| start: "active a = None \<Longrightarrow> k \<in> queue a \<Longrightarrow> objects a k = Some rpc \<Longrightarrow>
    agent_step r req own a (a\<lparr>queue := queue a - {k}, active := Some (k, rpc)\<rparr>)"
| finish: "active a = Some (k, rpc) \<Longrightarrow> run_state (Reconcile r rpc) (world_of a) = (err, s') \<Longrightarrow>
    agent_step r req own a (a\<lparr>active := None, queue := (if err = None then queue a else insert k (queue a)), world_of := s'\<rparr>)"

text \<open>At the beginning every pool that exists is announced by an event.\<close>

definition agent_init :: "(nsname \<Rightarrow> string set) \<Rightarrow> ('w \<Rightarrow> store) \<Rightarrow> 'w agent \<Rightarrow> bool" where
  "agent_init own view a \<longleftrightarrow> active a = None \<and> dom (objects a) \<subseteq> queue a \<and> orderly own (view (env (world_of a))) \<and>
     (\<forall>k rpc. objects a k = Some rpc \<longrightarrow> key_of rpc = k \<and> pool_valid own rpc)"

definition live :: "SpectrumXRailPoolConfig \<Rightarrow> bool" where
  "live rpc \<longleftrightarrow> finalizerName \<in> set (Finalizers rpc) \<and> DeletionTimestamp rpc = None"

section \<open>The invariant\<close>

definition agent_inv :: "(nsname \<Rightarrow> nested_string result) \<Rightarrow> (nsname \<Rightarrow> string set) \<Rightarrow> ('w \<Rightarrow> store) \<Rightarrow> 'w agent \<Rightarrow> bool" where
  "agent_inv pools own view a \<longleftrightarrow>
     orderly own (view (env (world_of a))) \<and>
     (\<forall>k rpc. objects a k = Some rpc \<longrightarrow> key_of rpc = k \<and> pool_valid own rpc) \<and>
     (\<forall>k rpc. active a = Some (k, rpc) \<longrightarrow> key_of rpc = k \<and> pool_valid own rpc \<and> (objects a k = Some rpc \<or> k \<in> queue a)) \<and>
     (\<forall>k rpc. objects a k = Some rpc \<longrightarrow> live rpc \<longrightarrow>
        k \<in> queue a \<or> (\<exists>x. active a = Some (k, x)) \<or> store_desired pools rpc (view (env (world_of a))))"

lemma agent_invD:
  assumes "agent_inv pools own view a"
  shows "orderly own (view (env (world_of a)))"
    and "objects a k = Some rpc \<Longrightarrow> key_of rpc = k \<and> pool_valid own rpc"
    and "active a = Some (k, x) \<Longrightarrow> key_of x = k \<and> pool_valid own x \<and> (objects a k = Some x \<or> k \<in> queue a)"
    and "objects a k = Some rpc \<Longrightarrow> live rpc \<Longrightarrow>
      k \<in> queue a \<or> (\<exists>x. active a = Some (k, x)) \<or> store_desired pools rpc (view (env (world_of a)))"
  using assms unfolding agent_inv_def by blast+

text \<open>Whatever happens to a pool, it is requested.\<close>

lemma inv_change:
  assumes "agent_inv pools own view a" "k \<in> Q" "\<And>rpc. x = Some rpc \<Longrightarrow> key_of rpc = k \<and> pool_valid own rpc"
  shows "agent_inv pools own view (a\<lparr>objects := (objects a)(k := x), queue := queue a \<union> Q\<rparr>)"
  using agent_invD [OF assms(1)] assms(2,3) unfolding agent_inv_def by (simp add: fun_upd_def) metis

lemma inv_take:
  assumes "agent_inv pools own view a" "active a = None"
  shows "objects a k = None \<Longrightarrow> agent_inv pools own view (a\<lparr>queue := queue a - {k}\<rparr>)"
    and "objects a k = Some rpc \<Longrightarrow> agent_inv pools own view (a\<lparr>queue := queue a - {k}, active := Some (k, rpc)\<rparr>)"
  using agent_invD [OF assms(1)] assms(2) unfolding agent_inv_def by (simp_all, metis option.distinct(1), metis)

lemma desired_frame:
  assumes "names_assigned own" "pool_valid own rpc" "key_of rpc \<noteq> k" "outside_same (own k) k v v'" "orderly own v'"
    and "store_desired pools rpc v"
  shows "store_desired pools rpc v'"
proof -
  let ?l = "key_of rpc"
  have apart: "policy_names (own k) \<inter> policy_names (own ?l) = {}" if "fst k = rpc_Namespace rpc"
    using names_assignedD(3) [OF assms(1), of k ?l] assms(3) that by (auto simp: key_of_def)
  have mine: "fst k \<noteq> rpc_Namespace rpc \<or> n \<notin> policy_names (own k)" if "n \<in> policy_names (own ?l)" for n
    using apart that by auto
  have pol: "st_policies v' (rpc_Namespace rpc, n) = st_policies v (rpc_Namespace rpc, n)" if "n \<in> policy_names (own ?l)" for n
    using mine [OF that] assms(4) by (auto simp: outside_same_def)
  have net: "st_networks v' (rpc_Namespace rpc, n) = st_networks v (rpc_Namespace rpc, n)" if "n \<in> own ?l" for n
    using mine [of n] that assms(4) by (auto simp: outside_same_def policy_names_def)
  have names: "rt_Name rt \<in> own ?l" "rt_Name rt \<in> policy_names (own ?l)" "rt_Name rt @ unusedPolicySuffix \<in> policy_names (own ?l)"
    if "rt \<in> set (RailTopologies (rpc_Spec rpc))" for rt
    using that assms(2) by (auto simp: pool_valid_def rail_names_def policy_names_def)
  have "p \<in> owned rpc v" if "p \<in> owned rpc v'" for p
  proof -
    from that obtain n where n: "st_policies v' (rpc_Namespace rpc, n) = Some p" "[labelOwnerName \<mapsto> rpc_Name rpc] \<subseteq>\<^sub>m np_Labels p"
      by (auto simp: owned_def matching_def)
    have "np_Name p \<in> policy_names {policy_rail p}" "policy_rail p \<in> own ?l"
      using that assms(5) by (auto simp: orderly_def owned_def key_of_def)
    moreover have "n = np_Name p" using n(1) assms(5) by (auto simp: orderly_def policy_key_def)
    ultimately have "n \<in> policy_names (own ?l)" by (auto simp: policy_names_def)
    with pol n show ?thesis by (auto simp: owned_def matching_def)
  qed
  moreover have "st_pools v' (rpc_Namespace rpc, rpc_Name rpc) = st_pools v (rpc_Namespace rpc, rpc_Name rpc)"
    using assms(3,4) by (auto simp: outside_same_def key_of_def)
  ultimately show ?thesis
    using assms(6) names pol net by (auto simp: store_desired_def rail_wanted_def)
qed

context tracked_store
begin

lemma run_desired:
  assumes "names_assigned own" "pool_valid own rpc" "live rpc" "orderly own (view (env s))" "run_state (Reconcile r rpc) s = (None, s')"
  shows "store_desired pools rpc (view (env s'))"
proof -
  have "view (env s') = reconcile_store pools rpc (view (env s))"
    using refinesD [OF live_refines] assms(3,5) by (simp add: live_def Reconcile_eq)
  with reconcile_store_desired [OF orderly_wf [OF assms(4,2,1)]] show ?thesis by simp
qed

lemma run_scope:
  assumes "names_assigned own" "pool_valid own rpc" "orderly own (view (env s))" "run_state (Reconcile r rpc) s = (err, s')"
  shows "orderly own (view (env s'))" "outside_same (own (key_of rpc)) (key_of rpc) (view (env s)) (view (env s'))"
proof -
  from maintainsD [OF Reconcile_scope [OF assms(2) names_assignedD(2) [OF assms(1)], of "view (env s)"] assms(4)] assms(3)
  show "orderly own (view (env s'))" "outside_same (own (key_of rpc)) (key_of rpc) (view (env s)) (view (env s'))"
    by (simp_all add: in_scope_def)
qed

text \<open>Requests of the events of pools are all that the invariant needs of the delivery.\<close>

lemma inv_step:
  assumes names: "names_assigned own"
    and req: "\<And>ev s. kind_of (newest ev) = RailPoolKind \<Longrightarrow> req ev s = object_key ` set (event_objects ev)"
    and "agent_step r req own a b" "agent_inv pools own view a"
  shows "agent_inv pools own view b"
  using assms(3,4)
proof cases
  case (finish k rpc err s')
  let ?v = "view (env (world_of a))" and ?v' = "view (env s')"
  have inv: "orderly own ?v" "key_of rpc = k" "pool_valid own rpc" "objects a k = Some rpc \<or> k \<in> queue a"
    using agent_invD(1,3) [OF assms(4)] finish(2) by blast+
  note scope = run_scope [OF names inv(3,1) finish(3)]
  have "l \<in> queue b \<or> store_desired pools x ?v'" if x: "objects a l = Some x" "live x" for l x
  proof (cases "l = k")
    case True
    show ?thesis
    proof (cases "err = None \<and> l \<notin> queue a")
      case True
      with \<open>l = k\<close> inv(4) x have "x = rpc" by simp
      with run_desired [OF names inv(3) _ inv(1)] True finish(3) x(2) show ?thesis by simp
    qed (use \<open>l = k\<close> finish(1) in auto)
  next
    case False
    have valid: "key_of x = l" "pool_valid own x" using agent_invD(2) [OF assms(4) x(1)] by simp_all
    have "l \<in> queue a \<or> store_desired pools x ?v" using agent_invD(4) [OF assms(4) x] False finish(2) by auto
    with desired_frame [OF names valid(2) _ scope(2,1)] False valid(1) inv(2) finish(1) show ?thesis by auto
  qed
  with scope(1) agent_invD(2) [OF assms(4)] finish(1) show ?thesis unfolding agent_inv_def by simp
next
  case (create rpc)
  have "key_of rpc \<in> req (CreateEvent (RailPoolObject rpc)) (world_of a)" by (simp add: req)
  from inv_change [OF assms(4) this, of "Some rpc"] create(3) show ?thesis unfolding create(1) by blast
next
  case (update rpc old)
  have "key_of rpc \<in> req (UpdateEvent (RailPoolObject old) (RailPoolObject rpc)) (world_of a)" by (simp add: req)
  from inv_change [OF assms(4) this, of "Some rpc"] update(3) show ?thesis unfolding update(1) by blast
next
  case (vanish k old)
  have "k \<in> req (DeleteEvent (RailPoolObject old)) (world_of a)" using agent_invD(2) [OF assms(4) vanish(2)] by (simp add: req)
  from inv_change [OF assms(4) this, of None] show ?thesis unfolding vanish(1) by blast
qed (use inv_take [OF assms(4)] in simp_all)

lemma inv_init: "agent_init own view a \<Longrightarrow> agent_inv pools own view a"
  unfolding agent_init_def agent_inv_def by auto

lemma inv_reachable:
  assumes "names_assigned own" "\<And>ev s. kind_of (newest ev) = RailPoolKind \<Longrightarrow> req ev s = object_key ` set (event_objects ev)"
    and "(agent_step r req own)\<^sup>*\<^sup>* a b" "agent_inv pools own view a"
  shows "agent_inv pools own view b"
  using assms(3,4) by (induction rule: rtranclp_induct) (auto intro: inv_step [OF assms(1,2)])

end

text \<open>The worker alone empties the queue when its runs succeed.\<close>

lemma work_off:
  assumes "finite (queue a)" "active a = None"
    and "\<forall>k rpc s. objects a k = Some rpc \<longrightarrow> fst (run_state (Reconcile r rpc) s) = None"
  shows "\<exists>b. (agent_step r req own)\<^sup>*\<^sup>* a b \<and> queue b = {} \<and> active b = None \<and> objects b = objects a"
  using assms
proof (induction "card (queue a)" arbitrary: a)
  case 0
  then show ?case by auto
next
  case (Suc n)
  then obtain k where k: "k \<in> queue a" by (metis card.empty ex_in_conv nat.distinct(1))
  obtain b where b: "(agent_step r req own)\<^sup>*\<^sup>* a b" "queue b = queue a - {k}" "active b = None" "objects b = objects a"
  proof (cases "objects a k")
    case None
    show thesis
      by (rule that [of "a\<lparr>queue := queue a - {k}\<rparr>"]) (use agent_step.skip [OF Suc.prems(2) k None] Suc.prems(2) in auto)
  next
    case (Some rpc)
    obtain s' where run: "run_state (Reconcile r rpc) (world_of a) = (None, s')"
      using Suc.prems(3) Some by (metis prod.collapse)
    let ?m = "a\<lparr>queue := queue a - {k}, active := Some (k, rpc)\<rparr>"
    have "agent_step r req own ?m (?m\<lparr>active := None, world_of := s'\<rparr>)"
      using agent_step.finish [of ?m k rpc r None s' req own] run by (cases a) simp
    then have "(agent_step r req own)\<^sup>*\<^sup>* ?m (?m\<lparr>active := None, world_of := s'\<rparr>)" by (rule r_into_rtranclp)
    with agent_step.start [OF Suc.prems(2) k Some, of r req own]
    have "(agent_step r req own)\<^sup>*\<^sup>* a (?m\<lparr>active := None, world_of := s'\<rparr>)" by (rule converse_rtranclp_into_rtranclp)
    then show thesis by (rule that) simp_all
  qed
  have "\<exists>c. (agent_step r req own)\<^sup>*\<^sup>* b c \<and> queue c = {} \<and> active c = None \<and> objects c = objects b"
    by (rule Suc.hyps(1)) (use Suc b k in auto)
  with b show ?case by (metis rtranclp_trans)
qed

section \<open>Events of pools\<close>

context event_delivery
begin

lemma pool_events:
  assumes "c = snd (SetupWithManager P cf name r0)" "kind_of (newest ev) = RailPoolKind"
  shows "requested deliver c ev s = object_key ` set (event_objects ev)"
proof -
  have "filter (accepts c ev) (watches_of c) = [\<lparr>w_Kind = RailPoolKind, w_Handler = EnqueueRequestForObject, w_Predicates = []\<rparr>]"
    using assms by (simp add: SetupWithManager_def watches_of_def accepts_def Let_def)
  then show ?thesis unfolding requested_def by (rule own) simp
qed

end

section \<open>Properties\<close>

text \<open>
  Property C3. The agent is level-triggered and loses nothing. Users may create, change and delete pools at any time, also
  during a run, and runs may fail after some of their writes: whenever the agent has nothing to do, the objects of every
  pool that is not being deleted are as its current spec wants them. Pools of one namespace must use different rail names.
\<close>

theorem idle_agent_desired:
  assumes "SetupWithManager P cf name r0 = (r, c)" "event_delivery P deliver" "tracked_store r view pools" "names_assigned own"
    and "agent_init own view a" "(agent_step r (requested deliver c) own)\<^sup>*\<^sup>* a b"
    and "queue b = {}" "active b = None" "objects b k = Some rpc" "live rpc"
  shows "store_desired pools rpc (view (env (world_of b)))"
proof -
  have req: "requested deliver c ev s = object_key ` set (event_objects ev)" if "kind_of (newest ev) = RailPoolKind" for ev s
    using event_delivery.pool_events [OF assms(2) _ that, of c cf name r0] assms(1) by simp
  have "agent_inv pools own view b"
    by (rule tracked_store.inv_reachable [OF assms(3,4) req assms(6) tracked_store.inv_init [OF assms(3,5)]])
  from agent_invD(4) [OF this assms(9,10)] assms(7,8) show ?thesis by simp
qed

text \<open>
  Property C6. The agent settles: from every state it can get into, with finitely many requests and when the runs on the
  current pools return no error, its worker alone reaches a state with nothing to do, in which no pool has been
  touched and the objects of all of them are as they are wanted.
\<close>

theorem agent_settles:
  assumes "SetupWithManager P cf name r0 = (r, c)" "event_delivery P deliver" "tracked_store r view pools" "names_assigned own"
    and "agent_init own view a" "(agent_step r (requested deliver c) own)\<^sup>*\<^sup>* a b" "finite (queue b)"
    and "\<forall>k rpc s. objects b k = Some rpc \<or> active b = Some (k, rpc) \<longrightarrow> fst (run_state (Reconcile r rpc) s) = None"
  shows "\<exists>d. (agent_step r (requested deliver c) own)\<^sup>*\<^sup>* b d \<and> queue d = {} \<and> active d = None \<and> objects d = objects b \<and>
    (\<forall>k rpc. objects b k = Some rpc \<longrightarrow> live rpc \<longrightarrow> store_desired pools rpc (view (env (world_of d))))"
proof -
  let ?step = "agent_step r (requested deliver c) own"
  have req: "requested deliver c ev s = object_key ` set (event_objects ev)" if "kind_of (newest ev) = RailPoolKind" for ev s
    using event_delivery.pool_events [OF assms(2) _ that, of c cf name r0] assms(1) by simp
  obtain b' where b': "?step\<^sup>*\<^sup>* b b'" "queue b' = queue b" "active b' = None" "objects b' = objects b"
  proof (cases "active b")
    case (Some kx)
    obtain k x where kx: "kx = (k, x)" by (cases kx)
    obtain s' where run: "run_state (Reconcile r x) (world_of b) = (None, s')" using assms(8) Some kx by (metis prod.collapse)
    from agent_step.finish [OF Some [unfolded kx] run, of "requested deliver c" own] show thesis
      by (intro that [of "b\<lparr>active := None, world_of := s'\<rparr>"]) auto
  qed auto
  have "\<exists>d. ?step\<^sup>*\<^sup>* b' d \<and> queue d = {} \<and> active d = None \<and> objects d = objects b'"
    by (rule work_off) (use b' assms(7,8) in auto)
  then obtain d where d: "?step\<^sup>*\<^sup>* b' d" "queue d = {}" "active d = None" "objects d = objects b'" by blast
  from b'(1) d(1) have bd: "?step\<^sup>*\<^sup>* b d" by (rule rtranclp_trans)
  have "agent_inv pools own view d"
    by (rule tracked_store.inv_reachable [OF assms(3,4) req _ tracked_store.inv_init [OF assms(3,5)]])
      (use assms(6) bd in \<open>auto intro: rtranclp_trans\<close>)
  from agent_invD(4) [OF this] d b'(4) bd show ?thesis by (intro exI [of _ d]) auto
qed

text \<open>An agent that starts with one pool and a store with objects of an earlier spec.\<close>

definition demo_own :: "nsname \<Rightarrow> string set" where
  "demo_own k = (if k = (''ns'', ''pool'') then {''a'', ''b''} else {})"

definition demo_agent :: "objs agent" where
  "demo_agent = \<lparr>objects = [(''ns'', ''pool'') \<mapsto> labelled_rpc], queue = {(''ns'', ''pool'')}, active = None,
     world_of = \<lparr>events = [], env = old_objs\<rparr>\<rparr>"

abbreviation (input) demo_agent_reconciler :: "objs HostReconciler" where
  "demo_agent_reconciler \<equiv> objs_reconciler (\<lambda>_. no_object) labelled_rpc"

lemma demo_setup: "fst (SetupWithManager P (cfg demo_agent_reconciler) ''node'' demo_agent_reconciler) = demo_agent_reconciler"
  by (simp add: SetupWithManager_def Let_def objs_reconciler_def demo_reconciler_def)

lemma demo_names: "names_assigned demo_own"
  by (auto simp: names_assigned_def demo_own_def names_apart_def policy_names_def unusedPolicySuffix_def)

lemma labelled_valid: "pool_valid demo_own labelled_rpc" "key_of labelled_rpc = (''ns'', ''pool'')" "live labelled_rpc"
  using labelled_live
  by (simp_all add: pool_valid_def demo_own_def key_of_def live_def) (simp_all add: labelled_rpc_def rail_names_def demo_rpc_def demo_rail_def)

lemma demo_init: "agent_init demo_own objs_view demo_agent"
proof -
  let ?e = "\<lparr>st_policies = Map.empty, st_networks = Map.empty, st_pools = Map.empty\<rparr>" and ?k = "(''ns'', ''pool'')"
  have empty: "in_scope demo_own ?k ?e ?e" by (simp add: in_scope_def orderly_def matching_def)
  have b: "old_policy ''b'' [''q0''] = primary_policy (demo_rpc [] []) (demo_rail ''b'' [''q0'']) ''q0''" "key_of (demo_rpc [] []) = ?k"
    "rt_Name (demo_rail ''b'' [''q0'']) = ''b''" "rt_Name (demo_rail ''a'' [''p0'', ''p1'']) = ''a''" "rpc_Namespace labelled_rpc = ''ns''"
    "rpc_Namespace (demo_rpc [] []) = ''ns''"
    by (simp_all add: old_policy_def key_of_def labelled_rpc_def demo_rpc_def demo_rail_def)
  have "in_scope demo_own ?k ?e (effect (PatchPolicy (old_policy ''b'' [''q0''])) ?e)"
    using scope_policy [of demo_own "demo_rpc [] []" ?e ?e "demo_rail ''b'' [''q0'']" _ "''q0''", OF _ _ _ disjI1 [OF b(1)]] empty b
    by (simp add: demo_own_def del: effect.simps)
  then have "in_scope demo_own ?k ?e (effect (PatchPolicy old_unused) (effect (PatchPolicy (old_policy ''b'' [''q0''])) ?e))"
    using scope_policy [of demo_own labelled_rpc ?e _ "demo_rail ''a'' [''p0'', ''p1'']" _ _ "[''p1'']", OF _ _ _ disjI2 [OF old_unused_def]]
      labelled_valid(2) b(4) by (simp add: demo_own_def del: effect.simps)
  moreover have "policy_key (old_policy ''b'' [''q0'']) = (''ns'', ''b'')" "policy_key old_unused = (''ns'', ''a-unused'')"
    using generated_keys b(3-6) by (simp_all add: b(1) old_unused_def unusedPolicySuffix_def)
  then have "objs_view old_objs = effect (PatchPolicy old_unused) (effect (PatchPolicy (old_policy ''b'' [''q0''])) ?e)"
    by (simp add: objs_view_def old_objs_def fun_upd_twist)
  ultimately have "orderly demo_own (objs_view old_objs)" by (simp add: in_scope_def)
  then show ?thesis using labelled_valid by (simp add: agent_init_def demo_agent_def)
qed

lemma demo_controller:
  "SetupWithManager P (cfg demo_agent_reconciler) ''node'' demo_agent_reconciler =
   (demo_agent_reconciler, snd (SetupWithManager P (cfg demo_agent_reconciler) ''node'' demo_agent_reconciler))"
  using demo_setup by (metis prod.collapse)

theorem idle_agent_desired_witness:
  "\<exists>b :: objs agent. queue b = {} \<and> active b = None \<and> objects b (''ns'', ''pool'') = Some labelled_rpc \<and>
     store_desired (\<lambda>_. no_object) labelled_rpc (objs_view (env (world_of b)))"
proof -
  let ?r = demo_agent_reconciler and ?k = "(''ns'', ''pool'')"
  let ?c = "snd (SetupWithManager demo_predicates (cfg ?r) ''node'' ?r)"
  let ?step = "agent_step ?r (requested demo_deliver ?c) demo_own"
  have "\<forall>k rpc s. objects demo_agent k = Some rpc \<longrightarrow> fst (run_state (Reconcile ?r rpc) s) = None"
    by (auto simp: demo_agent_def agree.labelled_succeeds split: if_splits)
  from work_off [OF _ _ this, of "requested demo_deliver ?c" demo_own]
  obtain b where b: "?step\<^sup>*\<^sup>* demo_agent b" "queue b = {}" "active b = None" "objects b ?k = Some labelled_rpc"
    by (auto simp: demo_agent_def)
  from idle_agent_desired [OF demo_controller queue.event_delivery_axioms tracked.tracked_store_axioms demo_names demo_init b labelled_valid(3)] b
  show ?thesis by blast
qed

theorem agent_settles_witness:
  "\<exists>d :: objs agent. queue d = {} \<and> store_desired (\<lambda>_. no_object) labelled_rpc (objs_view (env (world_of d)))"
proof -
  let ?r = demo_agent_reconciler
  have fin: "finite (queue demo_agent)" by (simp add: demo_agent_def)
  have ok: "\<forall>k rpc s. objects demo_agent k = Some rpc \<or> active demo_agent = Some (k, rpc) \<longrightarrow> fst (run_state (Reconcile ?r rpc) s) = None"
    by (auto simp: demo_agent_def agree.labelled_succeeds split: if_splits)
  have obj: "objects demo_agent (''ns'', ''pool'') = Some labelled_rpc" by (simp add: demo_agent_def)
  from agent_settles [OF demo_controller queue.event_delivery_axioms tracked.tracked_store_axioms demo_names demo_init rtranclp.rtrancl_refl fin ok]
  show ?thesis using obj labelled_valid(3) by blast
qed

end
