(* ===== verification/Shared_Store.thy ===== *)
theory Shared_Store
  imports Compat_Writes Agent_Loop
begin

text \<open>
  A run of \<open>Reconcile\<close> is shown correct when writes of other agents come in between any two of its own, in the style of rely and
  guarantee: the run relies on changes by others being compatible with what the pools want, and its own writes are of that kind.
\<close>

section \<open>The contract of a store that others write too\<close>

text \<open>
  While one of its operations is under way, others may change the store in compatible ways, before and after the server carries the
  operation out: an accepted write has its effect, one answered with \<open>NotFound\<close> has none to have, and any other error leaves
  open whether it was carried out; a list is complete at some moment. \<open>specs\<close> are the pools as all agents see them.
\<close>

locale shared_store = lawful_reconciler r
  for r :: "'w HostReconciler" +
  fixes view :: "'w \<Rightarrow> store"
    and pools :: "nsname \<Rightarrow> nested_string result"
    and own :: "nsname \<Rightarrow> string set"
    and specs :: "SpectrumXRailPoolConfig set"
  assumes specs: "specs_valid own specs"
    and read_node: "compatible own pools specs (view w) (view (snd (get_Node (kube r) n w)))"
    and read_rpc: "compatible own pools specs (view w) (view (snd (get_RailPoolConfig (kube r) k w)))"
    and read_state: "compatible own pools specs (view w) (view (snd (get_SriovNodeState (kube r) k w)))"
    and read_pod: "compatible own pools specs (view w) (view (snd (get_Pod (kube r) k w)))"
    and read_ds: "compatible own pools specs (view w) (view (snd (get_DaemonSet (kube r) k w)))"
    and list_nodes: "compatible own pools specs (view w) (view (snd (list_Nodes (kube r) sel w)))"
    and read_cidr: "fst (get_CIDRPool (kube r) k w) = pools k"
      "compatible own pools specs (view w) (view (snd (get_CIDRPool (kube r) k w)))"
    and run_command: "compatible own pools specs (view w) (view (snd (shell r c w)))"
    and use_file: "compatible own pools specs (view w) (view (snd (os_do (osys r) f w)))"
      "compatible own pools specs (view w) (view (snd (os_ReadFile (osys r) p w)))"
    and render: "compatible own pools specs (view w) (view (snd (RenderDir (lib r) d x w)))"
    and patch_status: "compatible own pools specs (view w) (view (snd (patch_status (kube r) base u w)))"
    and other_write: "\<not> on_store a \<Longrightarrow> compatible own pools specs (view w) (view (snd (api_do (kube r) a w)))"
    and accepted: "on_store a \<Longrightarrow> fst (api_do (kube r) a w) = None \<Longrightarrow>
      \<exists>v. compatible own pools specs (view w) v \<and> compatible own pools specs (effect a v) (view (snd (api_do (kube r) a w)))"
    and not_found: "on_store a \<Longrightarrow> fst (api_do (kube r) a w) = Some e \<Longrightarrow> IsNotFound (lib r) e \<Longrightarrow>
      \<exists>v. compatible own pools specs (view w) v \<and> effect a v = v \<and> compatible own pools specs v (view (snd (api_do (kube r) a w)))"
    and rejected: "on_store a \<Longrightarrow> fst (api_do (kube r) a w) = Some e \<Longrightarrow>
      \<exists>v v'. compatible own pools specs (view w) v \<and> (v' = v \<or> v' = effect a v) \<and>
        compatible own pools specs v' (view (snd (api_do (kube r) a w)))"
    and list_policies: "compatible own pools specs (view w) (view (snd (list_NodePolicies (kube r) ns sel w)))"
    and listed: "fst (list_NodePolicies (kube r) ns sel w) = Inr ps \<Longrightarrow>
      \<exists>v. compatible own pools specs (view w) v \<and> set ps = matching v ns sel \<and>
        compatible own pools specs v (view (snd (list_NodePolicies (kube r) ns sel w)))"
    and none_listed: "fst (list_NodePolicies (kube r) ns sel w) = Inl e \<Longrightarrow> IsNotFound (lib r) e \<Longrightarrow>
      \<exists>v. compatible own pools specs (view w) v \<and> matching v ns sel = {} \<and>
        compatible own pools specs v (view (snd (list_NodePolicies (kube r) ns sel w)))"

text \<open>What a run does to the world it shares: the store changes compatibly, and every write it sends is harmless.\<close>

definition cooperates :: "(nsname \<Rightarrow> string set) \<Rightarrow> (nsname \<Rightarrow> nested_string result) \<Rightarrow> SpectrumXRailPoolConfig set \<Rightarrow>
    ('w \<Rightarrow> store) \<Rightarrow> 'w world \<Rightarrow> 'w world \<Rightarrow> bool" where
  "cooperates own pools specs view s s' \<longleftrightarrow> (orderly own (view (env s)) \<longrightarrow>
     compatible own pools specs (view (env s)) (view (env s')) \<and>
     (\<exists>es. events s' = events s @ es \<and> (\<forall>a err. Api a err \<in> set es \<longrightarrow> on_store a \<longrightarrow> harmless own pools specs a)))"

lemma cooperates_orderly: "cooperates own pools specs view s s' \<Longrightarrow> orderly own (view (env s)) \<Longrightarrow> orderly own (view (env s'))"
  by (simp add: cooperates_def compatible_def)

lemma cooperates_preorder: "reflp (cooperates own pools specs view)" "transp (cooperates own pools specs view)"
proof -
  show "reflp (cooperates own pools specs view)" by (simp add: reflp_def cooperates_def)
  show "transp (cooperates own pools specs view)"
  proof (rule transpI)
    fix s t u :: "'a world"
    assume "cooperates own pools specs view s t" "cooperates own pools specs view t u"
    with cooperates_orderly [OF this(1)] show "cooperates own pools specs view s u"
      unfolding cooperates_def by (auto elim: compatible_trans) blast+
  qed
qed

lemma cooperates_observe:
  "(\<And>w. compatible own pools specs (view w) (view (snd (f w)))) \<Longrightarrow> drifts (cooperates own pools specs view) (observe f)"
  by (auto simp: drifts_def cooperates_def)

lemma cooperates_perform:
  "(\<And>w. compatible own pools specs (view w) (view (snd (f w)))) \<Longrightarrow>
   (\<And>x a err. ev x = Api a err \<Longrightarrow> on_store a \<Longrightarrow> harmless own pools specs a) \<Longrightarrow>
   drifts (cooperates own pools specs view) (perform ev f)"
  by (auto simp: drifts_def cooperates_def) metis

context shared_store
begin

lemma api_moves:
  assumes "on_store a \<Longrightarrow> harmless own pools specs a"
  shows "compatible own pools specs (view w) (view (snd (api_do (kube r) a w)))"
proof (cases "on_store a")
  case True
  then obtain v v' where "compatible own pools specs (view w) v" "v' = v \<or> v' = effect a v"
    "compatible own pools specs v' (view (snd (api_do (kube r) a w)))"
    using accepted [of a w] rejected [of a w] by (cases "fst (api_do (kube r) a w)") blast+
  with assms [OF True] show ?thesis by (auto simp: harmless_def intro: compatible_trans)
qed (rule other_write)

end

sublocale shared_store \<subseteq> others: outside_access r "cooperates own pools specs view"
proof unfold_locales
  show "drifts (cooperates own pools specs view) (Execute (shell r) c)" for c
    unfolding drifts_def Execute_def cooperates_def using run_command [of _ c]
    by (auto simp: Let_def split: prod.splits) (metis snd_conv)
qed (auto simp: cooperates_preorder api_call_def do_file_def status_call_def
    intro!: cooperates_observe cooperates_perform read_node read_rpc read_state read_pod read_ds list_nodes read_cidr use_file render
      patch_status api_moves)

section \<open>What runs achieve\<close>

text \<open>A fact about the store that compatible changes do not undo, and operations that establish one.\<close>

definition lasting :: "(nsname \<Rightarrow> string set) \<Rightarrow> (nsname \<Rightarrow> nested_string result) \<Rightarrow> SpectrumXRailPoolConfig set \<Rightarrow>
    (store \<Rightarrow> bool) \<Rightarrow> bool" where
  "lasting own pools specs K \<longleftrightarrow> (\<forall>v v'. orderly own v \<longrightarrow> K v \<longrightarrow> compatible own pools specs v v' \<longrightarrow> K v')"

definition establishes :: "(nsname \<Rightarrow> string set) \<Rightarrow> ('w \<Rightarrow> store) \<Rightarrow> ('w, goerr option) op \<Rightarrow> (store \<Rightarrow> bool) \<Rightarrow> bool" where
  "establishes own view m K \<longleftrightarrow>
     (\<forall>s s'. run_state m s = (None, s') \<longrightarrow> orderly own (view (env s)) \<longrightarrow> K (view (env s')))"

lemma lastingD: "lasting own pools specs K \<Longrightarrow> orderly own v \<Longrightarrow> K v \<Longrightarrow> compatible own pools specs v v' \<Longrightarrow> K v'"
  by (auto simp: lasting_def)

lemma lasting_conj: "lasting own pools specs K \<Longrightarrow> lasting own pools specs L \<Longrightarrow> lasting own pools specs (\<lambda>v. K v \<and> L v)"
  unfolding lasting_def by blast

lemma lasting_all: "(\<And>x. x \<in> A \<Longrightarrow> lasting own pools specs (K x)) \<Longrightarrow> lasting own pools specs (\<lambda>v. \<forall>x \<in> A. K x v)"
  unfolding lasting_def by blast

lemma lasting_in_place: "rpc \<in> specs \<Longrightarrow> a \<in> wanted_writes pools rpc \<Longrightarrow> lasting own pools specs (in_place a)"
  unfolding lasting_def compatible_def advances_def by blast

lemma lasting_not_stale: "rpc \<in> specs \<Longrightarrow> lasting own pools specs (\<lambda>v. k \<notin> stale_keys rpc v)"
  unfolding lasting_def compatible_def advances_def by blast

text \<open>An operation that several agents may run: it cooperates, and without error a lasting fact is established.\<close>

definition achieves :: "(nsname \<Rightarrow> string set) \<Rightarrow> (nsname \<Rightarrow> nested_string result) \<Rightarrow> SpectrumXRailPoolConfig set \<Rightarrow>
    ('w \<Rightarrow> store) \<Rightarrow> ('w, goerr option) op \<Rightarrow> (store \<Rightarrow> bool) \<Rightarrow> bool" where
  "achieves own pools specs view m K \<longleftrightarrow>
     drifts (cooperates own pools specs view) m \<and> lasting own pools specs K \<and> establishes own view m K"

lemma achieves_drifts: "drifts (cooperates own pools specs view) m \<Longrightarrow> achieves own pools specs view m (\<lambda>_. True)"
  by (simp add: achieves_def lasting_def establishes_def)

lemma achieves_fails:
  "fails m \<Longrightarrow> drifts (cooperates own pools specs view) m \<Longrightarrow> lasting own pools specs K \<Longrightarrow> achieves own pools specs view m K"
  by (auto simp: achieves_def establishes_def fails_def)

lemma achieves_cong: "achieves own pools specs view m K \<Longrightarrow> (\<And>v. K v = L v) \<Longrightarrow> achieves own pools specs view m L"
  by (simp add: achieves_def establishes_def lasting_def)

text \<open>The idiom \<open>if err := m; err != nil { return ... }; n\<close>: what \<open>m\<close> has established lasts through \<open>n\<close>.\<close>

lemma achieves_then:
  assumes "achieves own pools specs view m K" "achieves own pools specs view n L"
    and "\<And>e. fails (h e)" "\<And>e. drifts (cooperates own pools specs view) (h e)"
  shows "achieves own pools specs view (State_Monad.bind m (\<lambda>err. case err of None \<Rightarrow> n | Some e \<Rightarrow> h e)) (\<lambda>v. K v \<and> L v)"
proof -
  have m: "establishes own view m K" "lasting own pools specs K" "drifts (cooperates own pools specs view) m"
    and n: "establishes own view n L" "lasting own pools specs L" "drifts (cooperates own pools specs view) n"
    using assms(1,2) by (simp_all add: achieves_def)
  have "K (view (env s')) \<and> L (view (env s'))"
    if run: "run_state (State_Monad.bind m (\<lambda>err. case err of None \<Rightarrow> n | Some e \<Rightarrow> h e)) s = (None, s')"
      and ok: "orderly own (view (env s))" for s s'
  proof -
    from run obtain err t where 1: "run_state m s = (err, t)" and 2: "run_state (case err of None \<Rightarrow> n | Some e \<Rightarrow> h e) t = (None, s')"
      by (auto split: prod.splits)
    have none: "err = None" using 2 assms(3) by (cases err) (auto simp: fails_def)
    then have 3: "run_state n t = (None, s')" using 2 by simp
    have t: "orderly own (view (env t))" by (rule cooperates_orderly [OF driftsD [OF m(3) 1] ok])
    have "K (view (env t))" using m(1) 1 none ok by (simp add: establishes_def)
    then have "K (view (env s'))" using lastingD [OF m(2) t] driftsD [OF n(3) 3] t by (simp add: cooperates_def)
    with n(1) 3 t show ?thesis by (simp add: establishes_def)
  qed
  then show ?thesis
    unfolding achieves_def using lasting_conj [OF m(2) n(2)] m(3) n(3) assms(4)
    by (auto simp: establishes_def intro!: drifts_bind cooperates_preorder drifts_case_option)
qed

lemma achieves_after:
  assumes "drifts (cooperates own pools specs view) m" "\<And>a s s'. run_state m s = (a, s') \<Longrightarrow> achieves own pools specs view (f a) K"
  shows "achieves own pools specs view (State_Monad.bind m f) K"
proof -
  have "K (view (env s'))" if run: "run_state (State_Monad.bind m f) s = (None, s')" and ok: "orderly own (view (env s))" for s s'
  proof -
    from run obtain a t where 1: "run_state m s = (a, t)" and 2: "run_state (f a) t = (None, s')" by (auto split: prod.splits)
    from assms(2) [OF 1] 2 cooperates_orderly [OF driftsD [OF assms(1) 1] ok] show ?thesis by (auto simp: achieves_def establishes_def)
  qed
  moreover obtain a s s' where "run_state m s = (a, s')" by (metis prod.collapse)
  with assms(2) have "lasting own pools specs K" by (auto simp: achieves_def)
  moreover have "drifts (cooperates own pools specs view) (State_Monad.bind m f)"
    using assms by (intro drifts_bind_run cooperates_preorder) (auto simp: achieves_def)
  ultimately show ?thesis by (auto simp: achieves_def establishes_def)
qed

lemma effect_patch_in_place: "a \<in> wanted_writes pools rpc \<Longrightarrow> on_store a \<and> in_place a (effect a v)"
  by (auto simp: wanted_writes_def rail_writes_def split: if_splits)

context shared_store
begin

abbreviation (input) coop :: "'w world \<Rightarrow> 'w world \<Rightarrow> bool" where
  "coop \<equiv> cooperates own pools specs view"

abbreviation (input) gets :: "('w, goerr option) op \<Rightarrow> (store \<Rightarrow> bool) \<Rightarrow> bool" where
  "gets \<equiv> achieves own pools specs view"

lemma drifts_harmless: "harmless own pools specs a \<Longrightarrow> drifts coop (api_call (kube r) a)"
  unfolding api_call_def by (rule cooperates_perform) (auto intro: api_moves)

lemma api_achieves:
  assumes "rpc \<in> specs" "a \<in> wanted_writes pools rpc"
  shows "gets (api_call (kube r) a) (in_place a)"
proof -
  have h: "harmless own pools specs a" by (rule wanted_harmless [OF specs assms])
  have last: "lasting own pools specs (in_place a)" by (rule lasting_in_place [OF assms])
  have "in_place a (view (env s'))" if run: "run_state (api_call (kube r) a) s = (None, s')" and ok: "orderly own (view (env s))" for s s'
  proof -
    from run have "fst (api_do (kube r) a (env s)) = None" "env s' = snd (api_do (kube r) a (env s))" by (auto simp: api_call_def)
    with accepted [of a "env s"] effect_patch_in_place [OF assms(2)] obtain v
      where v: "compatible own pools specs (view (env s)) v" "compatible own pools specs (effect a v) (view (env s'))" by auto
    then have "orderly own v" using ok by (simp add: compatible_def)
    then have "orderly own (effect a v)" using h by (simp add: harmless_def compatible_def)
    with v(2) effect_patch_in_place [OF assms(2)] show ?thesis by (blast intro: lastingD [OF last])
  qed
  with drifts_harmless [OF h] last show ?thesis by (auto simp: achieves_def establishes_def)
qed

lemma drifts_delete: "harmless own pools specs a \<Longrightarrow> drifts coop (delete_object r a wrap)"
  unfolding delete_object_def by (intro others.drifts_rules drifts_harmless)

lemma delete_achieves:
  assumes "rpc \<in> specs" and h: "harmless own pools specs (DeletePolicy k)"
  shows "gets (delete_object r (DeletePolicy k) wrap) (\<lambda>v. k \<notin> stale_keys rpc v)"
proof -
  let ?a = "DeletePolicy k"
  have last: "lasting own pools specs (\<lambda>v. k \<notin> stale_keys rpc v)" by (rule lasting_not_stale [OF assms(1)])
  have "k \<notin> stale_keys rpc (view (env s'))"
    if run: "run_state (delete_object r ?a wrap) s = (None, s')" and ok: "orderly own (view (env s))" for s s'
  proof -
    let ?err = "fst (api_do (kube r) ?a (env s))"
    have "relevant_error (lib r) ?err = None" and s': "env s' = snd (api_do (kube r) ?a (env s))"
      using run by (auto simp: delete_object_def api_call_def split: option.splits)
    then consider "?err = None" | e where "?err = Some e" "IsNotFound (lib r) e"
      by (cases ?err) (auto simp: relevant_error_def split: if_splits)
    then obtain v where v: "compatible own pools specs (view (env s)) v" "compatible own pools specs (effect ?a v) (view (env s'))"
      by cases (use accepted [of ?a "env s"] not_found [of ?a "env s"] in \<open>fastforce simp: s'\<close>)+
    then have "orderly own v" using ok by (simp add: compatible_def)
    then have ord: "orderly own (effect ?a v)" using h by (simp add: harmless_def compatible_def)
    then have "k \<notin> stale_keys rpc (effect ?a v)" by (auto elim!: stale_keysE)
    from lastingD [OF last ord this v(2)] show ?thesis .
  qed
  with drifts_delete [OF h] last show ?thesis by (auto simp: achieves_def establishes_def)
qed

lemma tear_down_achieves:
  assumes "rpc \<in> specs" "n \<in> own (key_of rpc)" "n \<notin> rail_names rpc"
  shows "gets (tear_down r (rpc_Namespace rpc) n m) (\<lambda>v. \<forall>l \<in> policy_names {n}. (rpc_Namespace rpc, l) \<notin> stale_keys rpc v)"
proof -
  have h: "harmless own pools specs a" if "a \<in> rail_deletes (rpc_Namespace rpc) n" for a
    by (rule delete_harmless [OF specs assms that])
  have "gets (deleteRailTopologyResources r (rpc_Namespace rpc) n)
      (\<lambda>v. (rpc_Namespace rpc, n) \<notin> stale_keys rpc v \<and> (rpc_Namespace rpc, n @ unusedPolicySuffix) \<notin> stale_keys rpc v \<and> True)"
    unfolding deleteRailTopologyResources_def
    by (intro achieves_then delete_achieves assms(1) h achieves_drifts drifts_delete fails_return others.drifts_rules)
      (simp_all add: rail_deletes_def)
  then have del: "gets (deleteRailTopologyResources r (rpc_Namespace rpc) n)
      (\<lambda>v. \<forall>l \<in> policy_names {n}. (rpc_Namespace rpc, l) \<notin> stale_keys rpc v)"
    by (rule achieves_cong) (auto simp: policy_names_def)
  have "gets (State_Monad.bind (cleanupXPlaneBridges (shell r) n)
      (\<lambda>err. case err of None \<Rightarrow> deleteRailTopologyResources r (rpc_Namespace rpc) n | Some e \<Rightarrow> State_Monad.return (Some e)))
      (\<lambda>v. True \<and> (\<forall>l \<in> policy_names {n}. (rpc_Namespace rpc, l) \<notin> stale_keys rpc v))"
    by (intro achieves_then achieves_drifts others.drifts_cleanup del fails_return others.drifts_rules)
  with del show ?thesis by (simp add: tear_down_def)
qed

lemma delete_removed_achieves:
  "rpc \<in> specs \<Longrightarrow> rpc_Namespace x = rpc_Namespace rpc \<Longrightarrow> \<forall>p \<in> set ps. policy_rail p \<in> own (key_of rpc) \<Longrightarrow>
   gets (delete_removed r x (rail_names rpc) ps deleted)
     (\<lambda>v. \<forall>n \<in> policy_rail ` set ps - rail_names rpc - deleted. \<forall>l \<in> policy_names {n}. (rpc_Namespace rpc, l) \<notin> stale_keys rpc v)"
proof (induction ps arbitrary: deleted)
  case Nil
  show ?case by (simp add: achieves_drifts others.drifts_rules)
next
  case (Cons p ps)
  let ?n = "policy_rail p" and ?rest = "\<lambda>d. policy_rail ` set ps - rail_names rpc - d"
  let ?gone = "\<lambda>n v. \<forall>l \<in> policy_names {n}. (rpc_Namespace rpc, l) \<notin> stale_keys rpc v"
  have IH: "gets (delete_removed r x (rail_names rpc) ps d) (\<lambda>v. \<forall>n \<in> ?rest d. ?gone n v)" for d
    using Cons by simp
  show ?case
  proof (cases "?n \<in> rail_names rpc \<or> ?n \<in> deleted")
    case True
    then have "policy_rail ` set (p # ps) - rail_names rpc - deleted = ?rest deleted" by auto
    with IH [of deleted] True show ?thesis by auto
  next
    case False
    then have eq: "policy_rail ` set (p # ps) - rail_names rpc - deleted = insert ?n (?rest (insert ?n deleted))" by auto
    have "gets (State_Monad.bind (tear_down r (rpc_Namespace rpc) ?n (policy_multiplane p))
        (\<lambda>err. case err of None \<Rightarrow> delete_removed r x (rail_names rpc) ps (insert ?n deleted) | Some e \<Rightarrow> State_Monad.return (Some e)))
        (\<lambda>v. ?gone ?n v \<and> (\<forall>n \<in> ?rest (insert ?n deleted). ?gone n v))"
      by (intro achieves_then tear_down_achieves IH fails_return others.drifts_rules) (use Cons.prems False in auto)
    with False Cons.prems(2) show ?thesis unfolding eq by simp
  qed
qed

lemma list_finds:
  assumes "run_state (observe (list_NodePolicies (kube r) (rpc_Namespace rpc) [labelOwnerName \<mapsto> rpc_Name rpc])) s = (got, t)"
    and "rpc \<in> specs" "orderly own (view (env s))"
    and "got = Inr ps \<or> (\<exists>e. got = Inl e \<and> IsNotFound (lib r) e \<and> ps = [])"
  shows "\<forall>p \<in> set ps. policy_rail p \<in> own (key_of rpc)"
    and "\<forall>k \<in> stale_keys rpc (view (env t)). \<exists>n \<in> policy_rail ` set ps - rail_names rpc. \<exists>l \<in> policy_names {n}. k = (rpc_Namespace rpc, l)"
proof -
  obtain v where v: "compatible own pools specs (view (env s)) v" "set ps = owned rpc v" "compatible own pools specs v (view (env t))"
    using assms(1,4) listed [of "rpc_Namespace rpc" "[labelOwnerName \<mapsto> rpc_Name rpc]" "env s" ps]
      none_listed [of "rpc_Namespace rpc" "[labelOwnerName \<mapsto> rpc_Name rpc]" "env s"]
    by (auto simp: owned_def)
  have ord: "orderly own v" using v(1) assms(3) by (simp add: compatible_def)
  then show "\<forall>p \<in> set ps. policy_rail p \<in> own (key_of rpc)" by (auto simp: v(2) owned_def orderly_def key_of_def)
  have sub: "stale_keys rpc (view (env t)) \<subseteq> stale_keys rpc v" using v(3) ord assms(2) by (auto simp: compatible_def advances_def)
  show "\<forall>k \<in> stale_keys rpc (view (env t)). \<exists>n \<in> policy_rail ` set ps - rail_names rpc. \<exists>l \<in> policy_names {n}. k = (rpc_Namespace rpc, l)"
  proof
    fix k
    assume "k \<in> stale_keys rpc (view (env t))"
    with sub have "k \<in> stale_keys rpc v" by blast
    from stale_keysE [OF this ord] show "\<exists>n \<in> policy_rail ` set ps - rail_names rpc. \<exists>l \<in> policy_names {n}. k = (rpc_Namespace rpc, l)"
      unfolding v(2) by (metis DiffI imageI)
  qed
qed

lemma deleteRemoved_achieves:
  assumes "rpc \<in> specs" "same_but_status rpc x"
  shows "gets (deleteRemovedRailTopologies r x) (\<lambda>v. stale_keys rpc v = {})"
proof -
  let ?list = "observe (list_NodePolicies (kube r) (rpc_Namespace rpc) [labelOwnerName \<mapsto> rpc_Name rpc])"
  have x: "rpc_Namespace x = rpc_Namespace rpc" "rpc_Name x = rpc_Name rpc" "rail_names x = rail_names rpc"
    using same_but_status_simps [OF assms(2)] by (simp_all add: rail_names_def)
  have "coop s s' \<and> (res = None \<longrightarrow> stale_keys rpc (view (env s')) = {})"
    if run: "run_state (deleteRemovedRailTopologies r x) s = (res, s')" and ok: "orderly own (view (env s))" for s res s'
  proof -
    obtain got t where list: "run_state ?list s = (got, t)" by fastforce
    have st: "coop s t" by (rule driftsD [OF _ list]) (intro cooperates_observe list_policies)
    have t: "orderly own (view (env t))" by (rule cooperates_orderly [OF st ok])
    from run list consider e where "got = Inl e" "\<not> IsNotFound (lib r) e" "t = s'" "res \<noteq> None"
      | ps where "got = Inr ps \<or> (\<exists>e. got = Inl e \<and> IsNotFound (lib r) e \<and> ps = [])"
          "run_state (delete_removed r x (rail_names rpc) ps {}) t = (res, s')"
      by (cases got) (auto simp: deleteRemovedRailTopologies_def x split: if_splits)
    then show ?thesis
    proof cases
      case 2
      note found = list_finds [OF list assms(1) ok 2(1)]
      note del = delete_removed_achieves [OF assms(1) x(1) found(1), of "{}"]
      have ts: "coop t s'" using del 2(2) by (auto simp: achieves_def dest: driftsD)
      then have "stale_keys rpc (view (env s')) \<subseteq> stale_keys rpc (view (env t))"
        using t assms(1) by (auto simp: cooperates_def compatible_def advances_def)
      moreover have "\<forall>n \<in> policy_rail ` set ps - rail_names rpc. \<forall>l \<in> policy_names {n}. (rpc_Namespace rpc, l) \<notin> stale_keys rpc (view (env s'))"
        if "res = None" using del 2(2) t that by (auto simp: achieves_def establishes_def)
      ultimately have "res = None \<longrightarrow> stale_keys rpc (view (env s')) = {}" using found(2) by fastforce
      with st ts others.trans show ?thesis by (blast dest: transpD)
    qed (use st in auto)
  qed
  then show ?thesis
    using assms(1) by (auto simp: achieves_def drifts_def establishes_def lasting_def cooperates_def compatible_def advances_def)
qed

lemma network_achieves:
  assumes "rpc \<in> specs" "same_but_status rpc x" "rt \<in> set (RailTopologies (rpc_Spec rpc))"
  shows "gets (reconcile_network r x rt) (in_place (PatchOVSNetwork (ovs_network rpc rt (vrf_wanted pools (rpc_Namespace rpc) rt))))"
proof -
  let ?a = "PatchOVSNetwork (ovs_network rpc rt (vrf_wanted pools (rpc_Namespace rpc) rt))"
  have a: "?a \<in> wanted_writes pools rpc" using assms(3) by (auto simp: wanted_writes_def rail_writes_def)
  have x: "rpc_Namespace x = rpc_Namespace rpc" "rpc_Spec x = rpc_Spec rpc" using same_but_status_simps [OF assms(2)] by simp_all
  have vrf: "b = vrf_wanted pools (rpc_Namespace rpc) rt"
    if "run_state (decide_vrf r rt (rpc_Namespace rpc)) s = (Inr b, s')" for b s s'
    using that read_cidr(1) [of "(rpc_Namespace rpc, CidrPoolRef rt)" "env s"]
    by (auto simp: decide_vrf_def vrf_wanted_def isCidrPoolIPv6_def split: if_splits sum.splits nested_string.splits prod.splits)
  show ?thesis
    unfolding reconcile_network_def x same_generated [OF assms(2)]
  proof (rule achieves_after [OF others.drifts_decide_vrf], goal_cases)
    case (1 got s s')
    show ?case
    proof (cases got)
      case (Inr b)
      with vrf 1 have b: "b = vrf_wanted pools (rpc_Namespace rpc) rt" by simp
      show ?thesis
        unfolding Inr b sum.case
        by (rule achieves_cong [where K = "\<lambda>v. in_place ?a v \<and> True"],
            intro achieves_then api_achieves [OF assms(1) a] achieves_drifts fails_return others.drifts_rules others.drifts_configureXPlane)
          simp
    qed (auto intro!: achieves_fails fails_return others.drifts_rules lasting_in_place [OF assms(1) a])
  qed
qed

lemma rail_achieves:
  assumes "rpc \<in> specs" "same_but_status rpc x" "rt \<in> set (RailTopologies (rpc_Spec rpc))"
  shows "gets (reconcileRailTopology r x rt) (\<lambda>v. \<forall>a \<in> rail_writes pools rpc rt. in_place a v)"
proof (cases "pf_names rt")
  case Nil
  have "lasting own pools specs (\<lambda>v. \<forall>a \<in> rail_writes pools rpc rt. in_place a v)"
    using assms(3) by (intro lasting_all lasting_in_place [OF assms(1)]) (auto simp: wanted_writes_def)
  then show ?thesis
    by (simp add: reconcileRailTopology_def Nil achieves_fails fails_return others.drifts_rules)
next
  case (Cons pf pfs)
  let ?p = "PatchPolicy (primary_policy rpc rt pf)" and ?q = "PatchPolicy (secondary_policy rpc rt pfs)"
    and ?net = "in_place (PatchOVSNetwork (ovs_network rpc rt (vrf_wanted pools (rpc_Namespace rpc) rt)))"
  have w: "?p \<in> wanted_writes pools rpc" "pfs \<noteq> [] \<Longrightarrow> ?q \<in> wanted_writes pools rpc"
    using assms(3) Cons unfolding wanted_writes_def rail_writes_def by (auto intro!: bexI [of _ rt])
  note net = network_achieves [OF assms] and ret = fails_return others.drifts_rules(1)
  have "gets (reconcileRailTopology r x rt) (\<lambda>v. in_place ?p v \<and> (if pfs = [] then ?net v else in_place ?q v \<and> ?net v))"
    unfolding reconcileRailTopology_def Cons list.case same_generated [OF assms(2)]
    using achieves_then [OF api_achieves [OF assms(1) w(1)] net ret]
      achieves_then [OF api_achieves [OF assms(1) w(1)] achieves_then [OF api_achieves [OF assms(1) w(2)] net ret] ret]
    by (cases "pfs = []") simp_all
  then show ?thesis by (rule achieves_cong) (auto simp: rail_writes_def Cons)
qed

lemma rails_achieves:
  assumes "rpc \<in> specs" "same_but_status rpc x"
  shows "set rts \<subseteq> set (RailTopologies (rpc_Spec rpc)) \<Longrightarrow>
    gets (reconcile_rails r x rts) (\<lambda>v. \<forall>rt \<in> set rts. \<forall>a \<in> rail_writes pools rpc rt. in_place a v)"
proof (induction rts)
  case Nil
  show ?case by (simp add: achieves_drifts others.drifts_rules)
next
  case (Cons rt rts)
  show ?case
    unfolding reconcile_rails.simps
    by (rule achieves_cong [OF achieves_then [OF rail_achieves [OF assms] Cons.IH fails_return others.drifts_rules(1)]])
      (use Cons.prems in auto)
qed

lemma pool_achieves:
  assumes "rpc \<in> specs" "same_but_status rpc x"
  shows "gets (applyPoolConfig r x) (in_place (PatchPoolConfig (pool_config rpc)))"
  unfolding applyPoolConfig_def same_objects(1) [OF assms(2)]
  by (rule achieves_cong [where K = "\<lambda>v. in_place (PatchPoolConfig (pool_config rpc)) v \<and> True"],
      intro achieves_then api_achieves [OF assms(1)] achieves_drifts fails_return others.drifts_rules)
    (simp_all add: wanted_writes_def)

lemma selected_achieves:
  assumes "rpc \<in> specs" "same_but_status rpc x"
  shows "gets (reconcile_selected r x sel) (store_desired pools rpc)"
proof (cases "RailTopologies (rpc_Spec x) = []")
  case True
  have "lasting own pools specs (store_desired pools rpc)"
    unfolding store_desired_eq [abs_def] lasting_def using assms(1) by (auto simp: compatible_def advances_def)
  with True show ?thesis
    by (simp add: reconcile_selected_def achieves_fails fails_failReconcile others.drifts_fail laws(1))
next
  case False
  have final: "gets (State_Monad.bind (processNodeStatus r x sel)
      (\<lambda>res. case res of (err, rpc') \<Rightarrow> (case err of
           Some e \<Rightarrow> failReconcile r rpc' e ''failed to update sync status'' sel
         | None \<Rightarrow> State_Monad.return None))) (\<lambda>_. True)"
    by (intro achieves_drifts others.drifts_rules others.drifts_process others.drifts_fail laws(1))
  note fail = fails_failReconcile others.drifts_fail [OF laws(1)]
  note steps = pool_achieves [OF assms] rails_achieves [OF assms] deleteRemoved_achieves [OF assms]
  show ?thesis
    unfolding reconcile_selected_def if_not_P [OF False] reconcileRailTopologies_def
    by (rule achieves_cong [OF achieves_then [OF steps(1) achieves_then [OF steps(2) achieves_then [OF steps(3) final fail] fail] fail]])
      (auto simp: same_objects [OF assms(2)] store_desired_eq wanted_writes_def)
qed

lemma live_achieves:
  assumes "rpc \<in> specs" "live rpc"
  shows "gets (Reconcile r rpc) (store_desired pools rpc)"
proof -
  have has: "ContainsFinalizer (lib r) rpc finalizerName" using laws(4) assms(2) by (simp add: finalizer_law_def live_def)
  have alive: "handleDeletion r rpc = State_Monad.return (Inl ())" using assms(2) by (simp add: handleDeletion_def live_def)
  have err: "gets (State_Monad.return (Some e)) (store_desired pools rpc)" for e
    unfolding store_desired_eq [abs_def] using assms(1)
    by (intro achieves_fails fails_return others.drifts_rules) (auto simp: lasting_def compatible_def advances_def)
  have start: "gets (State_Monad.bind (patchSyncStatus r rpc SyncStatusInProgress)
      (\<lambda>res. case res of (err, y) \<Rightarrow> (case err of
          Some e \<Rightarrow> State_Monad.return (Some e) | None \<Rightarrow> reconcile_selected r y sel))) (store_desired pools rpc)" for sel
    unfolding patchSyncStatus_def
  proof (rule achieves_after [OF others.drifts_status [OF laws(1)]], goal_cases)
    case (1 res s s')
    from trace_specD [OF trace_patch_object [OF laws(1)] 1] have "same_but_status rpc (snd res)" by auto
    with selected_achieves [OF assms(1) this] err show ?case by (auto split: prod.splits option.splits)
  qed
  have "gets (case sel of Inl e \<Rightarrow> State_Monad.return (Some e) | Inr b \<Rightarrow>
      if b \<and> \<not> localNodeStateSucceededForGeneration r rpc then State_Monad.bind (patchSyncStatus r rpc SyncStatusInProgress)
        (\<lambda>res. case res of (err, y) \<Rightarrow> (case err of
          Some e \<Rightarrow> State_Monad.return (Some e) | None \<Rightarrow> reconcile_selected r y b))
      else reconcile_selected r rpc b) (store_desired pools rpc)" for sel
    using start selected_achieves [OF assms(1) same_but_status_refl] err by (cases sel) auto
  then show ?thesis
    using has unfolding Reconcile_eq doReconcile_def alive bind_left_identity sum.case
    by (simp only: simp_thms if_False) (rule achieves_after [OF others.drifts_localNode])
qed

end

section \<open>A second agent on the same store\<close>

text \<open>
  The executable store, with another agent that reconciles the same pool: before and after every request of the first agent it may
  make one of the writes of its own run, in any order. \<open>next_writes\<close> says which.
\<close>

definition demo_writes :: "api_write list" where
  "demo_writes =
     [PatchPoolConfig (pool_config labelled_rpc), PatchPolicy (primary_policy labelled_rpc (demo_rail ''a'' [''p0'']) ''p0''),
      PatchOVSNetwork (ovs_network labelled_rpc (demo_rail ''a'' [''p0'']) False),
      DeletePolicy (''ns'', ''b''), DeletePolicy (''ns'', ''b'' @ unusedPolicySuffix), DeleteOVSNetwork (''ns'', ''b'')]"

record shared_objs =
  the_objs :: objs
  next_writes :: "nat list"

fun interfere :: "shared_objs \<Rightarrow> shared_objs" where
  "interfere w = (case next_writes w of [] \<Rightarrow> w
     | i # later \<Rightarrow> \<lparr>the_objs = snd (objs_do (demo_writes ! (i mod length demo_writes)) (the_objs w)), next_writes = later\<rparr>)"

definition shared_view :: "shared_objs \<Rightarrow> store" where
  "shared_view w = objs_view (the_objs w)"

definition shared_do :: "api_write \<Rightarrow> shared_objs \<Rightarrow> goerr option \<times> shared_objs" where
  "shared_do a w = (let w1 = interfere w; (err, x) = objs_do a (the_objs w1) in (err, interfere (w1\<lparr>the_objs := x\<rparr>)))"

definition shared_reconciler :: "shared_objs HostReconciler" where
  "shared_reconciler = demo_reconciler
     ((demo_client labelled_rpc [])\<lparr>get_Node := (\<lambda>n w. (Inr (demo_node n), interfere w)), api_do := shared_do,
        list_NodePolicies := (\<lambda>ns sel w. let w1 = interfere w in (Inr (objs_list ns sel (the_objs w1)), interfere w1))\<rparr>)
     all_ok_shell \<lparr>os_do = (\<lambda>f w. (None, w)), os_ReadFile = (\<lambda>p w. (no_object, w))\<rparr>"

abbreviation (input) demo_compatible :: "store \<Rightarrow> store \<Rightarrow> bool" where
  "demo_compatible \<equiv> compatible demo_own (\<lambda>_. no_object) {labelled_rpc}"

lemma demo_specs: "specs_valid demo_own {labelled_rpc}"
  using demo_names labelled_valid(1) by (simp add: specs_valid_def)

lemma demo_writes_harmless: "a \<in> set demo_writes \<Longrightarrow> harmless demo_own (\<lambda>_. no_object) {labelled_rpc} a"
proof -
  let ?rt = "demo_rail ''a'' [''p0'']"
  have rpc: "RailTopologies (rpc_Spec labelled_rpc) = [?rt]" "rpc_Namespace labelled_rpc = ''ns''" "rail_names labelled_rpc = {''a''}"
    "key_of labelled_rpc = (''ns'', ''pool'')"
    by (simp_all add: labelled_rpc_def demo_rpc_def rail_names_def demo_rail_def key_of_def)
  have rt: "pf_names ?rt = [''p0'']" "\<not> vrf_wanted (\<lambda>_. no_object) ns ?rt" for ns by (simp_all add: demo_rail_def vrf_wanted_def)
  assume "a \<in> set demo_writes"
  then have "a \<in> wanted_writes (\<lambda>_. no_object) labelled_rpc \<or> a \<in> rail_deletes ''ns'' ''b''"
    by (auto simp: demo_writes_def wanted_writes_def rail_writes_def rail_deletes_def rpc rt)
  then show ?thesis
    using wanted_harmless [OF demo_specs, of labelled_rpc] delete_harmless [OF demo_specs, of labelled_rpc "''b''"]
    by (auto simp: rpc demo_own_def)
qed

lemma objs_do_view: "objs_view (snd (objs_do a w)) = effect a (objs_view w)" "fst (objs_do a w) = Some e \<Longrightarrow> effect a (objs_view w) = objs_view w"
  by (cases a; auto simp: objs_view_def map_of_without fun_upd_idem split: if_splits)+

lemma interfere_compatible: "demo_compatible (shared_view w) (shared_view (interfere w))"
proof (cases "next_writes w")
  case (Cons i later)
  have "demo_writes ! (i mod length demo_writes) \<in> set demo_writes" by (intro nth_mem mod_less_divisor) (simp add: demo_writes_def)
  from demo_writes_harmless [OF this] show ?thesis by (simp add: shared_view_def Cons objs_do_view harmless_def)
qed simp

declare interfere.simps [simp del]

lemma shared_do_run:
  "fst (shared_do a w) = fst (objs_do a (the_objs (interfere w)))"
  "demo_compatible (effect a (shared_view (interfere w))) (shared_view (snd (shared_do a w)))"
proof -
  let ?x = "(interfere w)\<lparr>the_objs := snd (objs_do a (the_objs (interfere w)))\<rparr>"
  have do: "shared_do a w = (fst (objs_do a (the_objs (interfere w))), interfere ?x)"
    by (simp add: shared_do_def Let_def split: prod.splits)
  then show "fst (shared_do a w) = fst (objs_do a (the_objs (interfere w)))" by simp
  have "shared_view ?x = effect a (shared_view (interfere w))" by (simp add: shared_view_def objs_do_view)
  with interfere_compatible [of ?x] show "demo_compatible (effect a (shared_view (interfere w))) (shared_view (snd (shared_do a w)))"
    by (simp add: do)
qed

lemma shared_facts:
  "api_do (kube shared_reconciler) = shared_do" "lib shared_reconciler = demo_lib" "shell shared_reconciler = all_ok_shell"
  "list_NodePolicies (kube shared_reconciler) ns sel w =
     (Inr (objs_list ns sel (the_objs (interfere w))), interfere (interfere w))"
  by (simp_all add: shared_reconciler_def demo_reconciler_def Let_def)

interpretation shared: shared_store shared_reconciler shared_view "\<lambda>_. no_object" demo_own "{labelled_rpc}"
proof unfold_locales
  fix a w
  note run = shared_do_run(1) [of a w] interfere_compatible [of w] shared_do_run(2) [of a w]
  show "\<exists>v. demo_compatible (shared_view w) v \<and> demo_compatible (effect a v) (shared_view (snd (api_do (kube shared_reconciler) a w)))"
    unfolding shared_facts using run(2,3) by blast
  show "\<exists>v v'. demo_compatible (shared_view w) v \<and> (v' = v \<or> v' = effect a v) \<and>
      demo_compatible v' (shared_view (snd (api_do (kube shared_reconciler) a w)))"
    unfolding shared_facts using run(2,3) by blast
  show "demo_compatible (shared_view w) (shared_view (snd (api_do (kube shared_reconciler) a w)))" if "\<not> on_store a"
  proof -
    have "effect a (shared_view (interfere w)) = shared_view (interfere w)" using that by (cases a) simp_all
    with run(2,3) show ?thesis unfolding shared_facts by (metis compatible_trans)
  qed
  show "\<exists>v. demo_compatible (shared_view w) v \<and> effect a v = v \<and> demo_compatible v (shared_view (snd (api_do (kube shared_reconciler) a w)))"
    if "fst (api_do (kube shared_reconciler) a w) = Some e" for e
  proof -
    have "effect a (shared_view (interfere w)) = shared_view (interfere w)"
      using that unfolding shared_facts run(1) shared_view_def by (rule objs_do_view(2))
    with run(2,3) show ?thesis unfolding shared_facts by metis
  qed
next
  fix ns sel w
  note two = interfere_compatible [of w] interfere_compatible [of "interfere w"]
  show "demo_compatible (shared_view w) (shared_view (snd (list_NodePolicies (kube shared_reconciler) ns sel w)))"
    unfolding shared_facts using two by (simp add: compatible_trans [OF two])
  show "\<exists>v. demo_compatible (shared_view w) v \<and> set ps = matching v ns sel \<and>
      demo_compatible v (shared_view (snd (list_NodePolicies (kube shared_reconciler) ns sel w)))"
    if "fst (list_NodePolicies (kube shared_reconciler) ns sel w) = Inr ps" for ps
    using that two set_objs_list [of ns sel "the_objs (interfere w)"] unfolding shared_facts shared_view_def by auto
qed (auto simp: shared_reconciler_def demo_reconciler_def demo_client_def all_ok_shell_def demo_lib_def demo_specs interfere_compatible Let_def
    retry_law_def errors_law_def labels_law_def finalizer_law_def)

interpretation agree_shared: agreeable_server shared_reconciler
proof unfold_locales
  show "fst (api_do (kube shared_reconciler) a w) = None \<or> deletion a \<and> fst (api_do (kube shared_reconciler) a w) = Some absent" for a w
    unfolding shared_facts shared_do_run(1) by (cases a) simp_all
qed (simp_all add: shared_facts, simp_all add: shared_reconciler_def demo_reconciler_def demo_client_def)

section \<open>Properties\<close>

text \<open>
  Property C4. Agents that reconcile the same pools at the same time do not undo each other's work. While an agent runs \<open>Reconcile\<close>
  for a pool, others may change the stored objects between and during any of its requests, as long as they do not undo what
  one of the pools wants. The run, failed or not, then makes only such changes itself and
  sends only writes that are harmless in this sense, in whatever state they reach the server; and a successful
  run leaves all objects of the pool as they are wanted, which no later harmless writes change.
\<close>

theorem Reconcile_concurrent:
  assumes "shared_store r view pools own specs" "rpc \<in> specs" "live rpc" "orderly own (view (env s))"
    and "run_state (Reconcile r rpc) s = (err, s')" "v' = view (env s')"
  shows "compatible own pools specs (view (env s)) v' \<and>
    (\<exists>es. events s' = events s @ es \<and> (\<forall>a e. Api a e \<in> set es \<longrightarrow> on_store a \<longrightarrow> harmless own pools specs a)) \<and>
    (err = None \<longrightarrow> (\<forall>as. (\<forall>a \<in> set as. harmless own pools specs a) \<longrightarrow> store_desired pools rpc (fold effect as v')))"
proof -
  note run = shared_store.live_achieves [OF assms(1-3)]
  have coop: "cooperates own pools specs view s s'" using run assms(5) by (auto simp: achieves_def dest: driftsD)
  moreover have "store_desired pools rpc (fold effect as v')" if "err = None" "\<forall>a \<in> set as. harmless own pools specs a" for as
  proof -
    have "store_desired pools rpc v'" using run assms(4-6) that(1) by (auto simp: achieves_def establishes_def)
    moreover have "lasting own pools specs (store_desired pools rpc)" using run by (simp add: achieves_def)
    moreover have "orderly own v'" using cooperates_orderly [OF coop assms(4)] assms(6) by simp
    ultimately show ?thesis using harmless_writes [OF that(2), of v'] by (blast intro: lastingD)
  qed
  ultimately show ?thesis using assms(4,6) by (auto simp: cooperates_def)
qed

text \<open>The other agent removes rail \<open>b\<close> and writes the objects of rail \<open>a\<close> while the first one works.\<close>

theorem Reconcile_concurrent_witness:
  "let s' = snd (run_state (Reconcile shared_reconciler labelled_rpc)
     \<lparr>events = [], env = \<lparr>the_objs = old_objs, next_writes = [3, 0, 1, 5, 4, 2, 1, 0]\<rparr>\<rparr>) in
   store_desired (\<lambda>_. no_object) labelled_rpc (shared_view (env s'))"
proof -
  let ?s = "\<lparr>events = [], env = \<lparr>the_objs = old_objs, next_writes = [3, 0, 1, 5, 4, 2, 1, 0]\<rparr>\<rparr>"
  let ?s' = "snd (run_state (Reconcile shared_reconciler labelled_rpc) ?s)"
  have ok: "orderly demo_own (shared_view (env ?s))" using demo_init by (simp add: agent_init_def demo_agent_def shared_view_def)
  have run: "run_state (Reconcile shared_reconciler labelled_rpc) ?s = (None, ?s')"
    by (simp add: prod_eq_iff agree_shared.labelled_succeeds)
  from Reconcile_concurrent [OF shared.shared_store_axioms singletonI labelled_valid(3) ok run refl]
  have "\<forall>as. (\<forall>a \<in> set as. harmless demo_own (\<lambda>_. no_object) {labelled_rpc} a) \<longrightarrow>
      store_desired (\<lambda>_. no_object) labelled_rpc (fold effect as (shared_view (env ?s')))" by simp
  from this [rule_format, of "[]"] show ?thesis by (simp add: Let_def)
qed

end
