(* ===== verification/Mocks.thy ===== *)
theory Mocks
  imports Flows
begin

text \<open>
  The mocks that MockGen has generated for the interfaces of the program, \<^verbatim>\<open>mock_flows.go\<close> and
  \<^verbatim>\<open>pkg/exec/mock_exec.go\<close>. A mock and its recorder point to each other, so they live in a heap here. The package gomock
  is a parameter: its controller, of a type \<open>'c\<close>, keeps the expectations in a state \<open>'w\<close>. What the tests of the reconcilers rely on is
  the contract \<open>gomock_library\<close>; under it a mock answers what its recorder was told.
\<close>

section \<open>Values, heap and gomock\<close>

text \<open>Values of type \<open>interface{}\<close>, as far as the mocks pass them.\<close>

datatype any = AnyNil | AnyString string | AnyBool bool | AnyUint64 "64 word" | AnyStrings "string list" | AnyError goerr
  | AnyBools "string \<rightharpoonup> bool" | AnyContext

record 'c MockFlowsAPI =
  fl_ctrl :: 'c
  fl_recorder :: "nat option"

record MockFlowsAPIMockRecorder =
  fl_mock :: nat

record 'c MockAPI =
  ex_ctrl :: 'c
  ex_recorder :: "nat option"

record MockAPIMockRecorder =
  ex_mock :: nat

datatype 'c cell = FlowsMock "'c MockFlowsAPI" | FlowsRecorder MockFlowsAPIMockRecorder
  | ExecMock "'c MockAPI" | ExecRecorder MockAPIMockRecorder

record ('c, 'w) mock_state =
  cells :: "nat \<rightharpoonup> 'c cell"
  next_cell :: nat
  gomock_of :: 'w

text \<open>
  \<open>None\<close> is the end of the test: a nil pointer, an index out of range, or a call that gomock does not expect, which it
  reports with \<open>Fatalf\<close>.
\<close>

type_synonym ('c, 'w, 'a) mock_op = "('c, 'w) mock_state \<Rightarrow> ('a \<times> ('c, 'w) mock_state) option"

text \<open>
  Of gomock: \<open>ctrl.T.Helper\<close>, \<open>ctrl.Call\<close> and \<open>ctrl.RecordCallWithMethodType\<close>, which returns a \<open>*gomock.Call\<close>, here a number. A
  method type is given by the method expression that it is taken of.
\<close>

record ('c, 'w) gomock =
  T_Helper :: "'c \<Rightarrow> 'w \<Rightarrow> 'w"
  ctrl_Call :: "'c \<Rightarrow> nat \<Rightarrow> string \<Rightarrow> any list \<Rightarrow> 'w \<Rightarrow> (any list \<times> 'w) option"
  RecordCallWithMethodType :: "'c \<Rightarrow> nat \<Rightarrow> string \<Rightarrow> string \<Rightarrow> any list \<Rightarrow> 'w \<Rightarrow> nat \<times> 'w"

text \<open>The assertions \<open>x, _ := ret[i].(T)\<close>: another type gives the zero value.\<close>

definition ret_error :: "any list \<Rightarrow> nat \<Rightarrow> goerr option option" where
  "ret_error ret i = (if i < length ret then Some (case ret ! i of AnyError e \<Rightarrow> Some e | _ \<Rightarrow> None) else None)"

definition ret_string :: "any list \<Rightarrow> nat \<Rightarrow> string option" where
  "ret_string ret i = (if i < length ret then Some (case ret ! i of AnyString s \<Rightarrow> s | _ \<Rightarrow> []) else None)"

definition ret_bool :: "any list \<Rightarrow> nat \<Rightarrow> bool option" where
  "ret_bool ret i = (if i < length ret then Some (case ret ! i of AnyBool b \<Rightarrow> b | _ \<Rightarrow> False) else None)"

section \<open>The mock of the flows\<close>

definition NewMockFlowsAPI :: "'c \<Rightarrow> ('c, 'w) mock_state \<Rightarrow> nat \<times> ('c, 'w) mock_state" where
  "NewMockFlowsAPI ctrl s =
     (let mock = next_cell s;
          rec = Suc mock;
          h1 = (cells s)(mock \<mapsto> FlowsMock \<lparr>fl_ctrl = ctrl, fl_recorder = None\<rparr>);
          h2 = h1(rec \<mapsto> FlowsRecorder \<lparr>fl_mock = mock\<rparr>);
          h3 = h2(mock \<mapsto> FlowsMock \<lparr>fl_ctrl = ctrl, fl_recorder = Some rec\<rparr>)
      in (mock, s\<lparr>cells := h3, next_cell := Suc rec\<rparr>))"

fun flows_mock :: "('c, 'w) mock_state \<Rightarrow> nat \<Rightarrow> 'c MockFlowsAPI option" where
  "flows_mock s m = (case cells s m of Some (FlowsMock x) \<Rightarrow> Some x | _ \<Rightarrow> None)"

fun flows_recorder :: "('c, 'w) mock_state \<Rightarrow> nat \<Rightarrow> MockFlowsAPIMockRecorder option" where
  "flows_recorder s m = (case cells s m of Some (FlowsRecorder x) \<Rightarrow> Some x | _ \<Rightarrow> None)"

definition EXPECT_flows :: "nat \<Rightarrow> ('c, 'w, nat) mock_op" where
  "EXPECT_flows m s = (case flows_mock s m of None \<Rightarrow> None | Some x \<Rightarrow> map_option (\<lambda>p. (p, s)) (fl_recorder x))"

text \<open>The first two lines of every mocked method, and the body of every method of the recorder.\<close>

definition flows_call :: "('c, 'w) gomock \<Rightarrow> nat \<Rightarrow> string \<Rightarrow> any list \<Rightarrow> ('c, 'w, any list) mock_op" where
  "flows_call g m name args s =
     (case flows_mock s m of
        None \<Rightarrow> None
      | Some x \<Rightarrow> map_option (\<lambda>(ret, w). (ret, s\<lparr>gomock_of := w\<rparr>))
          (ctrl_Call g (fl_ctrl x) m name args (T_Helper g (fl_ctrl x) (gomock_of s))))"

definition flows_record :: "('c, 'w) gomock \<Rightarrow> nat \<Rightarrow> string \<Rightarrow> any list \<Rightarrow> ('c, 'w, nat) mock_op" where
  "flows_record g mr name args s =
     (case flows_recorder s mr of
        None \<Rightarrow> None
      | Some rc \<Rightarrow>
          (case flows_mock s (fl_mock rc) of
             None \<Rightarrow> None
           | Some x \<Rightarrow>
               (let (call, w) = RecordCallWithMethodType g (fl_ctrl x) (fl_mock rc) name (''(*MockFlowsAPI).'' @ name) args
                      (T_Helper g (fl_ctrl x) (gomock_of s))
                in Some (call, s\<lparr>gomock_of := w\<rparr>))))"

definition returns_error :: "(any list \<times> 's) option \<Rightarrow> (goerr option \<times> 's) option" where
  "returns_error res = (case res of None \<Rightarrow> None | Some (ret, s) \<Rightarrow> map_option (\<lambda>e. (e, s)) (ret_error ret 0))"

definition returns_string :: "(any list \<times> 's) option \<Rightarrow> ((string \<times> goerr option) \<times> 's) option" where
  "returns_string res = (case res of None \<Rightarrow> None | Some (ret, s) \<Rightarrow>
     (case ret_string ret 0 of None \<Rightarrow> None | Some ret0 \<Rightarrow> map_option (\<lambda>ret1. ((ret0, ret1), s)) (ret_error ret 1)))"

definition returns_bool :: "(any list \<times> 's) option \<Rightarrow> ((bool \<times> goerr option) \<times> 's) option" where
  "returns_bool res = (case res of None \<Rightarrow> None | Some (ret, s) \<Rightarrow>
     (case ret_bool ret 0 of None \<Rightarrow> None | Some ret0 \<Rightarrow> map_option (\<lambda>ret1. ((ret0, ret1), s)) (ret_error ret 1)))"

text \<open>The methods, each with its recorder. The context that one of them passes on has no content here.\<close>

definition MockFlowsAPI_AddHardwareMultiplaneFlows :: "('c, 'w) gomock \<Rightarrow> nat \<Rightarrow> string \<Rightarrow> 64 word \<Rightarrow> string list \<Rightarrow> ('c, 'w, goerr option) mock_op" where
  "MockFlowsAPI_AddHardwareMultiplaneFlows g m bridgeName cookie pfNames s = returns_error (flows_call g m ''AddHardwareMultiplaneFlows'' [AnyString bridgeName, AnyUint64 cookie, AnyStrings pfNames] s)"

definition MockFlowsAPIMockRecorder_AddHardwareMultiplaneFlows :: "('c, 'w) gomock \<Rightarrow> nat \<Rightarrow> any \<Rightarrow> any \<Rightarrow> any \<Rightarrow> ('c, 'w, nat) mock_op" where
  "MockFlowsAPIMockRecorder_AddHardwareMultiplaneFlows g mr bridgeName cookie pfNames = flows_record g mr ''AddHardwareMultiplaneFlows'' [bridgeName, cookie, pfNames]"

definition MockFlowsAPI_AddHardwareMultiplaneGroups :: "('c, 'w) gomock \<Rightarrow> nat \<Rightarrow> string \<Rightarrow> string list \<Rightarrow> ('c, 'w, goerr option) mock_op" where
  "MockFlowsAPI_AddHardwareMultiplaneGroups g m bridgeName pfNames s = returns_error (flows_call g m ''AddHardwareMultiplaneGroups'' [AnyString bridgeName, AnyStrings pfNames] s)"

definition MockFlowsAPIMockRecorder_AddHardwareMultiplaneGroups :: "('c, 'w) gomock \<Rightarrow> nat \<Rightarrow> any \<Rightarrow> any \<Rightarrow> ('c, 'w, nat) mock_op" where
  "MockFlowsAPIMockRecorder_AddHardwareMultiplaneGroups g mr bridgeName pfNames = flows_record g mr ''AddHardwareMultiplaneGroups'' [bridgeName, pfNames]"

definition MockFlowsAPI_AddPodRailFlows :: "('c, 'w) gomock \<Rightarrow> nat \<Rightarrow> 64 word \<Rightarrow> string \<Rightarrow> string \<Rightarrow> string \<Rightarrow> ('c, 'w, goerr option) mock_op" where
  "MockFlowsAPI_AddPodRailFlows g m cookie vf bridge podIP s = returns_error (flows_call g m ''AddPodRailFlows'' [AnyUint64 cookie, AnyString vf, AnyString bridge, AnyString podIP] s)"

definition MockFlowsAPIMockRecorder_AddPodRailFlows :: "('c, 'w) gomock \<Rightarrow> nat \<Rightarrow> any \<Rightarrow> any \<Rightarrow> any \<Rightarrow> any \<Rightarrow> ('c, 'w, nat) mock_op" where
  "MockFlowsAPIMockRecorder_AddPodRailFlows g mr cookie vf bridge podIP = flows_record g mr ''AddPodRailFlows'' [cookie, vf, bridge, podIP]"

definition MockFlowsAPI_AddSoftwareMultiplaneFlows :: "('c, 'w) gomock \<Rightarrow> nat \<Rightarrow> string \<Rightarrow> 64 word \<Rightarrow> string \<Rightarrow> ('c, 'w, goerr option) mock_op" where
  "MockFlowsAPI_AddSoftwareMultiplaneFlows g m bridgeName cookie pfName s = returns_error (flows_call g m ''AddSoftwareMultiplaneFlows'' [AnyString bridgeName, AnyUint64 cookie, AnyString pfName] s)"

definition MockFlowsAPIMockRecorder_AddSoftwareMultiplaneFlows :: "('c, 'w) gomock \<Rightarrow> nat \<Rightarrow> any \<Rightarrow> any \<Rightarrow> any \<Rightarrow> ('c, 'w, nat) mock_op" where
  "MockFlowsAPIMockRecorder_AddSoftwareMultiplaneFlows g mr bridgeName cookie pfName = flows_record g mr ''AddSoftwareMultiplaneFlows'' [bridgeName, cookie, pfName]"

definition MockFlowsAPI_CleanupStaleFlowsForBridges :: "('c, 'w) gomock \<Rightarrow> nat \<Rightarrow> (string \<rightharpoonup> bool) \<Rightarrow> ('c, 'w, goerr option) mock_op" where
  "MockFlowsAPI_CleanupStaleFlowsForBridges g m existingPodUIDs s = returns_error (flows_call g m ''CleanupStaleFlowsForBridges'' [AnyContext, AnyBools existingPodUIDs] s)"

definition MockFlowsAPIMockRecorder_CleanupStaleFlowsForBridges :: "('c, 'w) gomock \<Rightarrow> nat \<Rightarrow> any \<Rightarrow> any \<Rightarrow> ('c, 'w, nat) mock_op" where
  "MockFlowsAPIMockRecorder_CleanupStaleFlowsForBridges g mr ctx existingPodUIDs = flows_record g mr ''CleanupStaleFlowsForBridges'' [ctx, existingPodUIDs]"

definition MockFlowsAPI_DeleteFlowsByCookie :: "('c, 'w) gomock \<Rightarrow> nat \<Rightarrow> string \<Rightarrow> 64 word \<Rightarrow> ('c, 'w, goerr option) mock_op" where
  "MockFlowsAPI_DeleteFlowsByCookie g m bridgeName cookie s = returns_error (flows_call g m ''DeleteFlowsByCookie'' [AnyString bridgeName, AnyUint64 cookie] s)"

definition MockFlowsAPIMockRecorder_DeleteFlowsByCookie :: "('c, 'w) gomock \<Rightarrow> nat \<Rightarrow> any \<Rightarrow> any \<Rightarrow> ('c, 'w, nat) mock_op" where
  "MockFlowsAPIMockRecorder_DeleteFlowsByCookie g mr bridgeName cookie = flows_record g mr ''DeleteFlowsByCookie'' [bridgeName, cookie]"

definition MockFlowsAPI_DeletePodRailFlows :: "('c, 'w) gomock \<Rightarrow> nat \<Rightarrow> 64 word \<Rightarrow> string \<Rightarrow> ('c, 'w, goerr option) mock_op" where
  "MockFlowsAPI_DeletePodRailFlows g m cookie podID s = returns_error (flows_call g m ''DeletePodRailFlows'' [AnyUint64 cookie, AnyString podID] s)"

definition MockFlowsAPIMockRecorder_DeletePodRailFlows :: "('c, 'w) gomock \<Rightarrow> nat \<Rightarrow> any \<Rightarrow> any \<Rightarrow> ('c, 'w, nat) mock_op" where
  "MockFlowsAPIMockRecorder_DeletePodRailFlows g mr cookie podID = flows_record g mr ''DeletePodRailFlows'' [cookie, podID]"

definition MockFlowsAPI_GetBridgeNameFromPortName :: "('c, 'w) gomock \<Rightarrow> nat \<Rightarrow> string \<Rightarrow> ('c, 'w, string \<times> goerr option) mock_op" where
  "MockFlowsAPI_GetBridgeNameFromPortName g m portName s = returns_string (flows_call g m ''GetBridgeNameFromPortName'' [AnyString portName] s)"

definition MockFlowsAPIMockRecorder_GetBridgeNameFromPortName :: "('c, 'w) gomock \<Rightarrow> nat \<Rightarrow> any \<Rightarrow> ('c, 'w, nat) mock_op" where
  "MockFlowsAPIMockRecorder_GetBridgeNameFromPortName g mr portName = flows_record g mr ''GetBridgeNameFromPortName'' [portName]"

definition MockFlowsAPI_IsBridgeManagedByRailCNI :: "('c, 'w) gomock \<Rightarrow> nat \<Rightarrow> string \<Rightarrow> string \<Rightarrow> ('c, 'w, bool \<times> goerr option) mock_op" where
  "MockFlowsAPI_IsBridgeManagedByRailCNI g m bridge podID s = returns_bool (flows_call g m ''IsBridgeManagedByRailCNI'' [AnyString bridge, AnyString podID] s)"

definition MockFlowsAPIMockRecorder_IsBridgeManagedByRailCNI :: "('c, 'w) gomock \<Rightarrow> nat \<Rightarrow> any \<Rightarrow> any \<Rightarrow> ('c, 'w, nat) mock_op" where
  "MockFlowsAPIMockRecorder_IsBridgeManagedByRailCNI g mr bridge podID = flows_record g mr ''IsBridgeManagedByRailCNI'' [bridge, podID]"

section \<open>The mock of command execution\<close>

definition NewMockAPI :: "'c \<Rightarrow> ('c, 'w) mock_state \<Rightarrow> nat \<times> ('c, 'w) mock_state" where
  "NewMockAPI ctrl s =
     (let mock = next_cell s;
          rec = Suc mock;
          h1 = (cells s)(mock \<mapsto> ExecMock \<lparr>ex_ctrl = ctrl, ex_recorder = None\<rparr>);
          h2 = h1(rec \<mapsto> ExecRecorder \<lparr>ex_mock = mock\<rparr>);
          h3 = h2(mock \<mapsto> ExecMock \<lparr>ex_ctrl = ctrl, ex_recorder = Some rec\<rparr>)
      in (mock, s\<lparr>cells := h3, next_cell := Suc rec\<rparr>))"

fun exec_mock :: "('c, 'w) mock_state \<Rightarrow> nat \<Rightarrow> 'c MockAPI option" where
  "exec_mock s m = (case cells s m of Some (ExecMock x) \<Rightarrow> Some x | _ \<Rightarrow> None)"

fun exec_recorder :: "('c, 'w) mock_state \<Rightarrow> nat \<Rightarrow> MockAPIMockRecorder option" where
  "exec_recorder s m = (case cells s m of Some (ExecRecorder x) \<Rightarrow> Some x | _ \<Rightarrow> None)"

definition EXPECT_exec :: "nat \<Rightarrow> ('c, 'w, nat) mock_op" where
  "EXPECT_exec m s = (case exec_mock s m of None \<Rightarrow> None | Some x \<Rightarrow> map_option (\<lambda>p. (p, s)) (ex_recorder x))"

definition exec_call :: "('c, 'w) gomock \<Rightarrow> nat \<Rightarrow> string \<Rightarrow> any list \<Rightarrow> ('c, 'w, any list) mock_op" where
  "exec_call g m name args s =
     (case exec_mock s m of
        None \<Rightarrow> None
      | Some x \<Rightarrow> map_option (\<lambda>(ret, w). (ret, s\<lparr>gomock_of := w\<rparr>))
          (ctrl_Call g (ex_ctrl x) m name args (T_Helper g (ex_ctrl x) (gomock_of s))))"

definition exec_record :: "('c, 'w) gomock \<Rightarrow> nat \<Rightarrow> string \<Rightarrow> any list \<Rightarrow> ('c, 'w, nat) mock_op" where
  "exec_record g mr name args s =
     (case exec_recorder s mr of
        None \<Rightarrow> None
      | Some rc \<Rightarrow>
          (case exec_mock s (ex_mock rc) of
             None \<Rightarrow> None
           | Some x \<Rightarrow>
               (let (call, w) = RecordCallWithMethodType g (ex_ctrl x) (ex_mock rc) name (''(*MockAPI).'' @ name) args
                      (T_Helper g (ex_ctrl x) (gomock_of s))
                in Some (call, s\<lparr>gomock_of := w\<rparr>))))"

definition MockAPI_Execute :: "('c, 'w) gomock \<Rightarrow> nat \<Rightarrow> string \<Rightarrow> ('c, 'w, string \<times> goerr option) mock_op" where
  "MockAPI_Execute g m arg0 s = returns_string (exec_call g m ''Execute'' [AnyString arg0] s)"

definition MockAPIMockRecorder_Execute :: "('c, 'w) gomock \<Rightarrow> nat \<Rightarrow> any \<Rightarrow> ('c, 'w, nat) mock_op" where
  "MockAPIMockRecorder_Execute g mr arg0 = exec_record g mr ''Execute'' [arg0]"

definition MockAPI_ExecutePrivileged :: "('c, 'w) gomock \<Rightarrow> nat \<Rightarrow> string \<Rightarrow> ('c, 'w, string \<times> goerr option) mock_op" where
  "MockAPI_ExecutePrivileged g m arg0 s = returns_string (exec_call g m ''ExecutePrivileged'' [AnyString arg0] s)"

definition MockAPIMockRecorder_ExecutePrivileged :: "('c, 'w) gomock \<Rightarrow> nat \<Rightarrow> any \<Rightarrow> ('c, 'w, nat) mock_op" where
  "MockAPIMockRecorder_ExecutePrivileged g mr arg0 = exec_record g mr ''ExecutePrivileged'' [arg0]"

section \<open>Requests\<close>

text \<open>A call of one of the methods with its arguments; what it is recorded as, and its answer as the list of its results.\<close>

datatype request =
    Req_AddHardwareMultiplaneFlows string "64 word" "string list"
  | Req_AddHardwareMultiplaneGroups string "string list"
  | Req_AddPodRailFlows "64 word" string string string
  | Req_AddSoftwareMultiplaneFlows string "64 word" string
  | Req_CleanupStaleFlowsForBridges "string \<rightharpoonup> bool"
  | Req_DeleteFlowsByCookie string "64 word"
  | Req_DeletePodRailFlows "64 word" string
  | Req_GetBridgeNameFromPortName string
  | Req_IsBridgeManagedByRailCNI string string
  | Req_Execute string
  | Req_ExecutePrivileged string

definition any_error :: "goerr option \<Rightarrow> any" where
  "any_error err = (case err of None \<Rightarrow> AnyNil | Some e \<Rightarrow> AnyError e)"

definition is_exec :: "request \<Rightarrow> bool" where
  "is_exec req = (case req of Req_Execute c \<Rightarrow> True | Req_ExecutePrivileged c \<Rightarrow> True | _ \<Rightarrow> False)"

definition new_mock :: "request \<Rightarrow> 'c \<Rightarrow> ('c, 'w) mock_state \<Rightarrow> nat \<times> ('c, 'w) mock_state" where
  "new_mock req = (if is_exec req then NewMockAPI else NewMockFlowsAPI)"

definition EXPECT :: "request \<Rightarrow> nat \<Rightarrow> ('c, 'w, nat) mock_op" where
  "EXPECT req = (if is_exec req then EXPECT_exec else EXPECT_flows)"

fun expect :: "('c, 'w) gomock \<Rightarrow> nat \<Rightarrow> request \<Rightarrow> ('c, 'w, nat) mock_op" where
  "expect g p (Req_AddHardwareMultiplaneFlows a b c) = MockFlowsAPIMockRecorder_AddHardwareMultiplaneFlows g p (AnyString a) (AnyUint64 b) (AnyStrings c)"
| "expect g p (Req_AddHardwareMultiplaneGroups a b) = MockFlowsAPIMockRecorder_AddHardwareMultiplaneGroups g p (AnyString a) (AnyStrings b)"
| "expect g p (Req_AddPodRailFlows a b c d) = MockFlowsAPIMockRecorder_AddPodRailFlows g p (AnyUint64 a) (AnyString b) (AnyString c) (AnyString d)"
| "expect g p (Req_AddSoftwareMultiplaneFlows a b c) = MockFlowsAPIMockRecorder_AddSoftwareMultiplaneFlows g p (AnyString a) (AnyUint64 b) (AnyString c)"
| "expect g p (Req_CleanupStaleFlowsForBridges a) = MockFlowsAPIMockRecorder_CleanupStaleFlowsForBridges g p AnyContext (AnyBools a)"
| "expect g p (Req_DeleteFlowsByCookie a b) = MockFlowsAPIMockRecorder_DeleteFlowsByCookie g p (AnyString a) (AnyUint64 b)"
| "expect g p (Req_DeletePodRailFlows a b) = MockFlowsAPIMockRecorder_DeletePodRailFlows g p (AnyUint64 a) (AnyString b)"
| "expect g p (Req_GetBridgeNameFromPortName a) = MockFlowsAPIMockRecorder_GetBridgeNameFromPortName g p (AnyString a)"
| "expect g p (Req_IsBridgeManagedByRailCNI a b) = MockFlowsAPIMockRecorder_IsBridgeManagedByRailCNI g p (AnyString a) (AnyString b)"
| "expect g p (Req_Execute a) = MockAPIMockRecorder_Execute g p (AnyString a)"
| "expect g p (Req_ExecutePrivileged a) = MockAPIMockRecorder_ExecutePrivileged g p (AnyString a)"

definition result_error :: "(goerr option \<times> 's) option \<Rightarrow> (any list \<times> 's) option" where
  "result_error res = map_option (\<lambda>(e, s). ([any_error e], s)) res"

definition result_string :: "((string \<times> goerr option) \<times> 's) option \<Rightarrow> (any list \<times> 's) option" where
  "result_string res = map_option (\<lambda>((x, e), s). ([AnyString x, any_error e], s)) res"

definition result_bool :: "((bool \<times> goerr option) \<times> 's) option \<Rightarrow> (any list \<times> 's) option" where
  "result_bool res = map_option (\<lambda>((b, e), s). ([AnyBool b, any_error e], s)) res"

fun answer :: "('c, 'w) gomock \<Rightarrow> nat \<Rightarrow> request \<Rightarrow> ('c, 'w, any list) mock_op" where
  "answer g m (Req_AddHardwareMultiplaneFlows a b c) s = result_error (MockFlowsAPI_AddHardwareMultiplaneFlows g m a b c s)"
| "answer g m (Req_AddHardwareMultiplaneGroups a b) s = result_error (MockFlowsAPI_AddHardwareMultiplaneGroups g m a b s)"
| "answer g m (Req_AddPodRailFlows a b c d) s = result_error (MockFlowsAPI_AddPodRailFlows g m a b c d s)"
| "answer g m (Req_AddSoftwareMultiplaneFlows a b c) s = result_error (MockFlowsAPI_AddSoftwareMultiplaneFlows g m a b c s)"
| "answer g m (Req_CleanupStaleFlowsForBridges a) s = result_error (MockFlowsAPI_CleanupStaleFlowsForBridges g m a s)"
| "answer g m (Req_DeleteFlowsByCookie a b) s = result_error (MockFlowsAPI_DeleteFlowsByCookie g m a b s)"
| "answer g m (Req_DeletePodRailFlows a b) s = result_error (MockFlowsAPI_DeletePodRailFlows g m a b s)"
| "answer g m (Req_GetBridgeNameFromPortName a) s = result_string (MockFlowsAPI_GetBridgeNameFromPortName g m a s)"
| "answer g m (Req_IsBridgeManagedByRailCNI a b) s = result_bool (MockFlowsAPI_IsBridgeManagedByRailCNI g m a b s)"
| "answer g m (Req_Execute a) s = result_string (MockAPI_Execute g m a s)"
| "answer g m (Req_ExecutePrivileged a) s = result_string (MockAPI_ExecutePrivileged g m a s)"

text \<open>Results of the types that the method has.\<close>

datatype result_type = ErrorResult | StringResult | BoolResult

definition result_type_of :: "request \<Rightarrow> result_type" where
  "result_type_of req = (case req of Req_GetBridgeNameFromPortName a \<Rightarrow> StringResult | Req_IsBridgeManagedByRailCNI a b \<Rightarrow> BoolResult
     | Req_Execute a \<Rightarrow> StringResult | Req_ExecutePrivileged a \<Rightarrow> StringResult | _ \<Rightarrow> ErrorResult)"

definition fits :: "request \<Rightarrow> any list \<Rightarrow> bool" where
  "fits req rets \<longleftrightarrow> (case result_type_of req of
       ErrorResult \<Rightarrow> (\<exists>e. rets = [any_error e])
     | StringResult \<Rightarrow> (\<exists>x e. rets = [AnyString x, any_error e])
     | BoolResult \<Rightarrow> (\<exists>b e. rets = [AnyBool b, any_error e]))"

section \<open>The contract of gomock\<close>

text \<open>
  \<open>expects w c m name\<close> are the expected calls of a method that have not come yet, each with its arguments and results. A
  recorded call is expected once, \<open>Return\<close> sets its results, and a call is answered with the results of the first one expected
  with equal arguments; if there is none, the test ends.
\<close>

locale gomock_library =
  fixes g :: "('c, 'w) gomock"
    and Return :: "nat \<Rightarrow> any list \<Rightarrow> 'w \<Rightarrow> 'w"
    and expects :: "'w \<Rightarrow> 'c \<Rightarrow> nat \<Rightarrow> string \<Rightarrow> (any list \<times> any list) list"
  assumes helper: "expects (T_Helper g c w) = expects w"
    and recorded: "RecordCallWithMethodType g c m name ty args w = (call, w') \<Longrightarrow>
      expects (Return call rets w') c m name = expects w c m name @ [(args, rets)]"
    and answered: "expects w c m name = before @ (args, rets) # after \<Longrightarrow> args \<notin> fst ` set before \<Longrightarrow>
      \<exists>w'. ctrl_Call g c m name args w = Some (rets, w') \<and> expects w' c m name = before @ after"
    and unexpected: "args \<notin> fst ` set (expects w c m name) \<Longrightarrow> ctrl_Call g c m name args w = None"

text \<open>The name of the method and the arguments of a request.\<close>

fun method_of :: "request \<Rightarrow> string \<times> any list" where
  "method_of (Req_AddHardwareMultiplaneFlows a b c) = (''AddHardwareMultiplaneFlows'', [AnyString a, AnyUint64 b, AnyStrings c])"
| "method_of (Req_AddHardwareMultiplaneGroups a b) = (''AddHardwareMultiplaneGroups'', [AnyString a, AnyStrings b])"
| "method_of (Req_AddPodRailFlows a b c d) = (''AddPodRailFlows'', [AnyUint64 a, AnyString b, AnyString c, AnyString d])"
| "method_of (Req_AddSoftwareMultiplaneFlows a b c) = (''AddSoftwareMultiplaneFlows'', [AnyString a, AnyUint64 b, AnyString c])"
| "method_of (Req_CleanupStaleFlowsForBridges a) = (''CleanupStaleFlowsForBridges'', [AnyContext, AnyBools a])"
| "method_of (Req_DeleteFlowsByCookie a b) = (''DeleteFlowsByCookie'', [AnyString a, AnyUint64 b])"
| "method_of (Req_DeletePodRailFlows a b) = (''DeletePodRailFlows'', [AnyUint64 a, AnyString b])"
| "method_of (Req_GetBridgeNameFromPortName a) = (''GetBridgeNameFromPortName'', [AnyString a])"
| "method_of (Req_IsBridgeManagedByRailCNI a b) = (''IsBridgeManagedByRailCNI'', [AnyString a, AnyString b])"
| "method_of (Req_Execute a) = (''Execute'', [AnyString a])"
| "method_of (Req_ExecutePrivileged a) = (''ExecutePrivileged'', [AnyString a])"

definition request_call :: "('c, 'w) gomock \<Rightarrow> nat \<Rightarrow> request \<Rightarrow> ('c, 'w, any list) mock_op" where
  "request_call g m req = (if is_exec req then exec_call else flows_call) g m (fst (method_of req)) (snd (method_of req))"

definition request_record :: "('c, 'w) gomock \<Rightarrow> nat \<Rightarrow> request \<Rightarrow> ('c, 'w, nat) mock_op" where
  "request_record g p req = (if is_exec req then exec_record else flows_record) g p (fst (method_of req)) (snd (method_of req))"

text \<open>All methods are calls of the controller, with the results turned to their types and back.\<close>

lemmas mock_methods =
  MockFlowsAPI_AddHardwareMultiplaneFlows_def MockFlowsAPI_AddHardwareMultiplaneGroups_def
  MockFlowsAPI_AddPodRailFlows_def MockFlowsAPI_AddSoftwareMultiplaneFlows_def
  MockFlowsAPI_CleanupStaleFlowsForBridges_def MockFlowsAPI_DeleteFlowsByCookie_def MockFlowsAPI_DeletePodRailFlows_def
  MockFlowsAPI_GetBridgeNameFromPortName_def MockFlowsAPI_IsBridgeManagedByRailCNI_def MockAPI_Execute_def
  MockAPI_ExecutePrivileged_def

lemmas recorder_methods =
  MockFlowsAPIMockRecorder_AddHardwareMultiplaneFlows_def MockFlowsAPIMockRecorder_AddHardwareMultiplaneGroups_def
  MockFlowsAPIMockRecorder_AddPodRailFlows_def MockFlowsAPIMockRecorder_AddSoftwareMultiplaneFlows_def
  MockFlowsAPIMockRecorder_CleanupStaleFlowsForBridges_def MockFlowsAPIMockRecorder_DeleteFlowsByCookie_def
  MockFlowsAPIMockRecorder_DeletePodRailFlows_def MockFlowsAPIMockRecorder_GetBridgeNameFromPortName_def
  MockFlowsAPIMockRecorder_IsBridgeManagedByRailCNI_def MockAPIMockRecorder_Execute_def
  MockAPIMockRecorder_ExecutePrivileged_def

lemma expect_eq: "expect g p req = request_record g p req"
  by (cases req) (simp_all add: request_record_def is_exec_def recorder_methods)

lemma ret_simps [simp]:
  "ret_error (x # xs) 0 = Some (case x of AnyError e \<Rightarrow> Some e | _ \<Rightarrow> None)"
  "ret_error [y, x] (Suc 0) = Some (case x of AnyError e \<Rightarrow> Some e | _ \<Rightarrow> None)"
  "ret_string (AnyString a # xs) 0 = Some a" "ret_bool (AnyBool b # xs) 0 = Some b"
  "(case any_error e of AnyError e \<Rightarrow> Some e | _ \<Rightarrow> None) = e"
  by (simp_all add: ret_error_def ret_string_def ret_bool_def any_error_def split: option.splits)

lemma answer_eq:
  "request_call g m req s = None \<Longrightarrow> answer g m req s = None"
  "request_call g m req s = Some (rets, s') \<Longrightarrow> fits req rets \<Longrightarrow> answer g m req s = Some (rets, s')"
  by (cases req; auto simp: request_call_def is_exec_def mock_methods fits_def result_type_of_def returns_error_def returns_string_def
      returns_bool_def result_error_def result_string_def result_bool_def)+

text \<open>A mock knows its recorder, and the recorder its mock.\<close>

definition paired :: "request \<Rightarrow> 'c \<Rightarrow> nat \<Rightarrow> nat \<Rightarrow> ('c, 'w) mock_state \<Rightarrow> bool" where
  "paired req c m p s \<longleftrightarrow>
     (if is_exec req then exec_mock s m = Some \<lparr>ex_ctrl = c, ex_recorder = Some p\<rparr> \<and> exec_recorder s p = Some \<lparr>ex_mock = m\<rparr>
      else flows_mock s m = Some \<lparr>fl_ctrl = c, fl_recorder = Some p\<rparr> \<and> flows_recorder s p = Some \<lparr>fl_mock = m\<rparr>)"

lemma new_paired: "new_mock req c s = (m, s1) \<Longrightarrow> \<exists>p. paired req c m p s1 \<and> EXPECT req m s1 = Some (p, s1)"
  by (auto simp: new_mock_def paired_def EXPECT_def EXPECT_exec_def EXPECT_flows_def NewMockAPI_def NewMockFlowsAPI_def Let_def
      split: if_splits)

lemma new_gomock: "new_mock req c s = (m, s1) \<Longrightarrow> m = next_cell s \<and> gomock_of s1 = gomock_of s"
  by (auto simp: new_mock_def NewMockAPI_def NewMockFlowsAPI_def Let_def split: if_splits)

lemma paired_gomock [simp]: "paired req c m p (s\<lparr>gomock_of := w\<rparr>) = paired req c m p s"
  by (simp add: paired_def)

lemma record_paired:
  assumes "paired req c m p s" "request_record g p req s = Some (call, s')"
  shows "\<exists>ty w. RecordCallWithMethodType g c m (fst (method_of req)) ty (snd (method_of req)) (T_Helper g c (gomock_of s)) = (call, w) \<and>
    s' = s\<lparr>gomock_of := w\<rparr>"
  using assms by (auto simp: paired_def request_record_def exec_record_def flows_record_def split: if_splits prod.splits)

lemma call_paired:
  assumes "paired req c m p s"
  shows "request_call g m req s = map_option (\<lambda>(ret, w). (ret, s\<lparr>gomock_of := w\<rparr>))
    (ctrl_Call g c m (fst (method_of req)) (snd (method_of req)) (T_Helper g c (gomock_of s)))"
  using assms by (auto simp: paired_def request_call_def exec_call_def flows_call_def split: if_splits)

context gomock_library
begin

lemma answers_in_turn:
  assumes pair: "paired req c m p s" and fits: "fits req rets"
    and ahead: "expects (gomock_of s) c m (fst (method_of req)) = before @ (snd (method_of req), rets) # after"
      "snd (method_of req) \<notin> fst ` set before"
  shows "\<exists>s'. answer g m req s = Some (rets, s') \<and> paired req c m p s' \<and> expects (gomock_of s') c m (fst (method_of req)) = before @ after"
proof -
  from answered [of "T_Helper g c (gomock_of s)" c m "fst (method_of req)" before "snd (method_of req)" rets after]
  obtain w' where "ctrl_Call g c m (fst (method_of req)) (snd (method_of req)) (T_Helper g c (gomock_of s)) = Some (rets, w')"
    "expects w' c m (fst (method_of req)) = before @ after" using ahead by (auto simp: helper)
  with call_paired [OF pair, of g] answer_eq(2) [OF _ fits, of g m s] pair show ?thesis by simp
qed

lemma stops_unexpected:
  assumes "paired req c m p s" "snd (method_of req) \<notin> fst ` set (expects (gomock_of s) c m (fst (method_of req)))"
  shows "answer g m req s = None"
  using call_paired [OF assms(1), of g] unexpected [of "snd (method_of req)" "T_Helper g c (gomock_of s)" c m "fst (method_of req)"] assms(2)
  by (intro answer_eq(1)) (simp add: helper)

end

section \<open>An executable gomock\<close>

text \<open>All expectations in the order in which they were recorded; the calls are numbered.\<close>

record expectation =
  xp_call :: nat
  xp_method :: "nat \<times> nat \<times> string"
  xp_args :: "any list"
  xp_rets :: "any list"

definition list_gomock :: "(nat, expectation list) gomock" where
  "list_gomock = \<lparr>T_Helper = (\<lambda>c w. w),
     ctrl_Call = (\<lambda>c m name args w.
       case List.extract (\<lambda>x. xp_method x = (c, m, name) \<and> xp_args x = args) w of
         None \<Rightarrow> None | Some (xs, x, ys) \<Rightarrow> Some (xp_rets x, xs @ ys)),
     RecordCallWithMethodType = (\<lambda>c m name ty args w.
       let n = Suc (Max (insert 0 (xp_call ` set w))) in
       (n, w @ [\<lparr>xp_call = n, xp_method = (c, m, name), xp_args = args, xp_rets = []\<rparr>]))\<rparr>"

definition list_Return :: "nat \<Rightarrow> any list \<Rightarrow> expectation list \<Rightarrow> expectation list" where
  "list_Return n rets w = map (\<lambda>x. if xp_call x = n then x\<lparr>xp_rets := rets\<rparr> else x) w"

definition list_expects :: "expectation list \<Rightarrow> nat \<Rightarrow> nat \<Rightarrow> string \<Rightarrow> (any list \<times> any list) list" where
  "list_expects w c m name = map (\<lambda>x. (xp_args x, xp_rets x)) (filter (\<lambda>x. xp_method x = (c, m, name)) w)"

lemma first_split:
  "us @ (a, r) # vs = xs @ (a, q) # ys \<Longrightarrow> a \<notin> fst ` set us \<Longrightarrow> a \<notin> fst ` set xs \<Longrightarrow> us = xs \<and> r = q \<and> vs = ys"
proof (induction us arbitrary: xs)
  case Nil
  then show ?case by (cases xs) auto
next
  case (Cons u us)
  then show ?case by (cases xs) auto
qed

lemma list_answered:
  assumes "list_expects w c m name = before @ (args, rets) # after" "args \<notin> fst ` set before"
  shows "\<exists>w'. ctrl_Call list_gomock c m name args w = Some (rets, w') \<and> list_expects w' c m name = before @ after"
proof -
  let ?P = "\<lambda>x. xp_method x = (c, m, name) \<and> xp_args x = args"
  have "(args, rets) \<in> set (list_expects w c m name)" using assms(1) by simp
  then have "\<exists>x \<in> set w. ?P x" by (auto simp: list_expects_def)
  then obtain xs x ys where ex: "List.extract ?P w = Some (xs, x, ys)" by (cases "List.extract ?P w") (auto simp: extract_None_iff)
  then have w: "w = xs @ x # ys" "?P x" "\<forall>y \<in> set xs. \<not> ?P y" by (auto simp: extract_Some_iff)
  have "before @ (args, rets) # after = list_expects xs c m name @ (args, xp_rets x) # list_expects ys c m name"
    using assms(1) w(1,2) by (simp add: list_expects_def)
  moreover have "args \<notin> fst ` set (list_expects xs c m name)" using w(3) by (auto simp: list_expects_def)
  ultimately have "before = list_expects xs c m name \<and> rets = xp_rets x \<and> after = list_expects ys c m name"
    using first_split assms(2) by metis
  then show ?thesis using ex by (auto simp: list_gomock_def list_expects_def)
qed

interpretation listed_mock: gomock_library list_gomock list_Return list_expects
proof unfold_locales
  fix c m name ty args w call w' rets
  assume "RecordCallWithMethodType list_gomock c m name ty args w = (call, w')"
  then have call: "call = Suc (Max (insert 0 (xp_call ` set w)))"
    and w': "w' = w @ [\<lparr>xp_call = call, xp_method = (c, m, name), xp_args = args, xp_rets = []\<rparr>]"
    by (auto simp: list_gomock_def Let_def)
  have "xp_call x \<noteq> call" if "x \<in> set w" for x
  proof -
    have "xp_call x \<le> Max (insert 0 (xp_call ` set w))" using that by (intro Max_ge) simp_all
    then show ?thesis by (simp add: call)
  qed
  then have "list_Return call rets w' = w @ [\<lparr>xp_call = call, xp_method = (c, m, name), xp_args = args, xp_rets = rets\<rparr>]"
    by (auto simp: list_Return_def w' intro: map_idI)
  then show "list_expects (list_Return call rets w') c m name = list_expects w c m name @ [(args, rets)]"
    by (simp add: list_expects_def)
next
  fix args w c m name
  assume "args \<notin> fst ` set (list_expects w c m name)"
  then have "List.extract (\<lambda>x. xp_method x = (c, m, name) \<and> xp_args x = args) w = None"
    by (auto simp: extract_None_iff list_expects_def image_image)
  then show "ctrl_Call list_gomock c m name args w = None" by (simp add: list_gomock_def)
qed (auto simp: list_answered, simp add: list_gomock_def)

section \<open>Mocks answer as told\<close>

text \<open>
  A mock answers what its recorder was told. For every method of \<open>FlowsAPI\<close> and of \<open>exec.API\<close>: after a new mock's
  \<open>EXPECT()\<close> has recorded a call with some arguments and results of the right types were set for it, the first call
  of that method with these arguments returns exactly these results, errors included; a second one ends the test.
\<close>

lemma mock_round_trip:
  assumes "gomock_library g Return expects" "expects (gomock_of s) c (next_cell s) (fst (method_of req)) = []"
    and "new_mock req c s = (m, s1)" "EXPECT req m s1 = Some (p, s2)" "expect g p req s2 = Some (call, s3)"
    and "fits req rets" "s4 = s3\<lparr>gomock_of := Return call rets (gomock_of s3)\<rparr>"
  shows "\<exists>s5. answer g m req s4 = Some (rets, s5) \<and> answer g m req s5 = None"
proof -
  let ?name = "fst (method_of req)" and ?args = "snd (method_of req)"
  have pair: "paired req c m p s1" "s2 = s1" and new: "m = next_cell s" "gomock_of s1 = gomock_of s"
    using new_paired [OF assms(3)] assms(4) new_gomock [OF assms(3)] by auto
  from record_paired [OF pair(1)] assms(5) pair(2) obtain ty w
    where w: "RecordCallWithMethodType g c m ?name ty ?args (T_Helper g c (gomock_of s)) = (call, w)" "s3 = s1\<lparr>gomock_of := w\<rparr>"
    by (metis expect_eq new(2))
  from gomock_library.recorded [OF assms(1) w(1), of rets] gomock_library.helper [OF assms(1)] assms(2)
  have one: "expects (gomock_of s4) c m ?name = [(?args, rets)]" by (simp add: assms(7) w(2) new(1))
  have p4: "paired req c m p s4" using pair(1) by (simp add: assms(7) w(2))
  obtain s5 where s5: "answer g m req s4 = Some (rets, s5)" "paired req c m p s5" "expects (gomock_of s5) c m ?name = []"
    using gomock_library.answers_in_turn [OF assms(1) p4 assms(6), of "[]" "[]"] one by auto
  from gomock_library.stops_unexpected [OF assms(1) s5(2)] s5 show ?thesis by auto
qed

definition demo_mocks :: "(nat, expectation list) mock_state" where
  "demo_mocks = \<lparr>cells = Map.empty, next_cell = 0, gomock_of = []\<rparr>"

lemma mock_round_trip_witness:
  "\<exists>m p call s1 s3 s5. NewMockFlowsAPI 7 demo_mocks = (m, s1) \<and> EXPECT_flows m s1 = Some (p, s1) \<and>
     MockFlowsAPIMockRecorder_GetBridgeNameFromPortName list_gomock p (AnyString ''rep0'') s1 = Some (call, s3) \<and>
     MockFlowsAPI_GetBridgeNameFromPortName list_gomock m ''rep0''
       (s3\<lparr>gomock_of := list_Return call [AnyString ''br0'', AnyNil] (gomock_of s3)\<rparr>) = Some ((''br0'', None), s5)"
proof -
  let ?req = "Req_GetBridgeNameFromPortName ''rep0''" and ?rets = "[AnyString ''br0'', AnyNil]"
  obtain m s1 where new: "new_mock ?req 7 demo_mocks = (m, s1)" by fastforce
  obtain p where p: "paired ?req 7 m p s1" "EXPECT ?req m s1 = Some (p, s1)" using new_paired [OF new] by blast
  obtain call s3 where rec: "expect list_gomock p ?req s1 = Some (call, s3)"
    using p(1) by (auto simp: expect_eq request_record_def paired_def is_exec_def flows_record_def case_prod_beta)
  have none: "list_expects (gomock_of demo_mocks) 7 (next_cell demo_mocks) (fst (method_of ?req)) = []"
    by (simp add: demo_mocks_def list_expects_def)
  have fits: "fits ?req ?rets"
    by (auto simp: fits_def result_type_of_def any_error_def intro!: exI [of _ "None :: goerr option"])
  obtain s5 where s5: "answer list_gomock m ?req (s3\<lparr>gomock_of := list_Return call ?rets (gomock_of s3)\<rparr>) = Some (?rets, s5)"
    using mock_round_trip [OF listed_mock.gomock_library_axioms none new p(2) rec fits refl] by blast
  then have "MockFlowsAPI_GetBridgeNameFromPortName list_gomock m ''rep0''
      (s3\<lparr>gomock_of := list_Return call ?rets (gomock_of s3)\<rparr>) = Some ((''br0'', None), s5)"
    by (auto simp: result_string_def any_error_def split: option.splits)
  with new p(2) rec show ?thesis by (simp add: new_mock_def is_exec_def EXPECT_def)
qed

end
