(* ===== verification/Scheme.thy ===== *)
theory Scheme
  imports Api_Types
begin

text \<open>
  The registration of the types of the API group with the scheme that the clients decode objects by: \<^verbatim>\<open>groupversion_info.go\<close>,
  the \<open>init\<close> of the types, and the \<open>init\<close> of the program. The packages that provide schemes and builders are a parameter; the
  locale \<open>scheme_library\<close> is what they promise. Go initialises a package after those that it imports, so the types are
  registered with the builder before the program adds the builder's types to its scheme.
\<close>

section \<open>Definitions\<close>

type_synonym GroupVersionKind = "string \<times> string \<times> string"

text \<open>\<open>'s\<close> is a scheme, \<open>'b\<close> a builder; a Go type is known by its name, which is its kind.\<close>

record ('s, 'b) SchemeLib =
  NewScheme :: 's
  NewBuilder :: "string \<times> string \<Rightarrow> 'b"
  Register :: "string list \<Rightarrow> 'b \<Rightarrow> 'b"
  Builder_AddToScheme :: "'b \<Rightarrow> 's \<Rightarrow> goerr option \<times> 's"
  clientgoscheme_AddToScheme :: "'s \<Rightarrow> goerr option \<times> 's"
  sriovv1_AddToScheme :: "'s \<Rightarrow> goerr option \<times> 's"

definition GroupVersion :: "string \<times> string" where
  "GroupVersion = (''spectrumx.nvidia.com'', ''v1alpha2'')"

definition SchemeBuilder :: "('s, 'b) SchemeLib \<Rightarrow> 'b" where
  "SchemeBuilder L = NewBuilder L GroupVersion"

definition types_init :: "('s, 'b) SchemeLib \<Rightarrow> 'b \<Rightarrow> 'b" where
  "types_init L = Register L [''SpectrumXRailPoolConfig'', ''SpectrumXRailPoolConfigList'']"

text \<open>\<open>AddToScheme\<close> is the method of the builder, as it is after the \<open>init\<close> of its package.\<close>

definition AddToScheme :: "('s, 'b) SchemeLib \<Rightarrow> 's \<Rightarrow> goerr option \<times> 's" where
  "AddToScheme L = Builder_AddToScheme L (types_init L (SchemeBuilder L))"

text \<open>\<open>utilruntime.Must\<close> panics on an error, which is \<open>None\<close> here.\<close>

definition Must :: "goerr option \<times> 's \<Rightarrow> 's option" where
  "Must res = (case res of (None, s) \<Rightarrow> Some s | (Some e, s) \<Rightarrow> None)"

lemma Must_Some [simp]: "Must res = Some s \<longleftrightarrow> res = (None, s)"
  by (cases res) (auto simp: Must_def split: option.splits)

definition main_init :: "('s, 'b) SchemeLib \<Rightarrow> 's option" where
  "main_init L =
     Option.bind (Must (clientgoscheme_AddToScheme L (NewScheme L))) (\<lambda>s.
     Option.bind (Must (AddToScheme L s)) (\<lambda>s.
     Must (sriovv1_AddToScheme L s)))"

section \<open>The contract\<close>

locale scheme_library =
  fixes L :: "('s, 'b) SchemeLib"
    and known :: "'s \<Rightarrow> GroupVersionKind set"
    and version :: "'b \<Rightarrow> string \<times> string"
    and kinds :: "'b \<Rightarrow> string set"
    and client_kinds sriov_kinds :: "GroupVersionKind set"
  assumes builder: "version (NewBuilder L gv) = gv" "kinds (NewBuilder L gv) = {}"
    and register: "version (Register L ks b) = version b" "kinds (Register L ks b) = kinds b \<union> set ks"
    and add: "Builder_AddToScheme L b s = (None, s') \<Longrightarrow>
      known s' = known s \<union> {(fst (version b), snd (version b), k) | k. k \<in> kinds b}"
    and add_client: "clientgoscheme_AddToScheme L s = (None, s') \<Longrightarrow> known s' = known s \<union> client_kinds"
    and add_sriov: "sriovv1_AddToScheme L s = (None, s') \<Longrightarrow> known s' = known s \<union> sriov_kinds"
begin

lemma AddToScheme_known:
  "AddToScheme L s = (None, s') \<Longrightarrow> known s' = known s \<union>
    {(''spectrumx.nvidia.com'', ''v1alpha2'', ''SpectrumXRailPoolConfig''), (''spectrumx.nvidia.com'', ''v1alpha2'', ''SpectrumXRailPoolConfigList'')}"
  unfolding AddToScheme_def types_init_def SchemeBuilder_def
  by (drule add) (auto simp: register builder GroupVersion_def)

text \<open>A start that does not panic knows the types of Kubernetes, of the SR-IOV operator and both types of the group.\<close>

lemma main_init_known:
  assumes "main_init L = Some s"
  shows "known s = known (NewScheme L) \<union> client_kinds \<union> sriov_kinds \<union>
    {(''spectrumx.nvidia.com'', ''v1alpha2'', ''SpectrumXRailPoolConfig''), (''spectrumx.nvidia.com'', ''v1alpha2'', ''SpectrumXRailPoolConfigList'')}"
proof -
  from assms obtain s1 s2 where "clientgoscheme_AddToScheme L (NewScheme L) = (None, s1)" "AddToScheme L s1 = (None, s2)"
    "sriovv1_AddToScheme L s2 = (None, s)"
    by (auto simp: main_init_def bind_eq_Some_conv)
  with add_client AddToScheme_known add_sriov show ?thesis by auto
qed

end

section \<open>An executable library\<close>

type_synonym builder = "(string \<times> string) \<times> string list"

definition list_schemes :: "(GroupVersionKind list, builder) SchemeLib" where
  "list_schemes = \<lparr>NewScheme = [], NewBuilder = (\<lambda>gv. (gv, [])), Register = (\<lambda>ks (gv, known). (gv, known @ ks)),
     Builder_AddToScheme = (\<lambda>((g, v), ks) s. (None, s @ map (\<lambda>k. (g, v, k)) ks)),
     clientgoscheme_AddToScheme = (\<lambda>s. (None, s @ [([], ''v1'', ''Pod''), ([], ''v1'', ''Node'')])),
     sriovv1_AddToScheme = (\<lambda>s. (None, s @ [(''sriovnetwork.openshift.io'', ''v1'', ''SriovNetworkNodePolicy'')]))\<rparr>"

interpretation schemes: scheme_library list_schemes set fst "set \<circ> snd"
  "{([], ''v1'', ''Pod''), ([], ''v1'', ''Node'')}" "{(''sriovnetwork.openshift.io'', ''v1'', ''SriovNetworkNodePolicy'')}"
  by unfold_locales (auto simp: list_schemes_def split: prod.splits)

lemma main_init_runs: "\<exists>s. main_init list_schemes = Some s \<and> (''spectrumx.nvidia.com'', ''v1alpha2'', ''SpectrumXRailPoolConfig'') \<in> set s"
proof -
  have "main_init list_schemes \<noteq> None"
    by (simp add: main_init_def AddToScheme_def types_init_def SchemeBuilder_def GroupVersion_def Must_def list_schemes_def)
  then show ?thesis using schemes.main_init_known by auto
qed

end
