(* ===== verification/Spec2Isabelle.thy ===== *)
theory Spec2Isabelle
  imports Ovs_Effects Store_Properties Status_Protocol Status_Retry Status_Memory Program_Start Pci Daemonset_Sync XPlane_Topology Shared_Store Mocks Scheme
begin

text \<open>
  \<^bold>\<open>A verification library for the Spectrum-X operator\<close>

  The program is the agent \<^verbatim>\<open>flowscontroller\<close> of the NVIDIA Spectrum-X operator, one instance per
  node of a Kubernetes cluster. It has five parts that run side by side and share the API server,
  the Open vSwitch instance and the network links of the node:

  \<^item> The \<^emph>\<open>rail pool reconciler\<close>
    (\<^verbatim>\<open>internal/controller/spectrumxrailpoolconfig_host_flows_controller.go\<close> and
    \<^verbatim>\<open>xplane_tolerations.go\<close>) turns a custom resource \<open>SpectrumXRailPoolConfig\<close> into SR-IOV policies,
    a pool configuration and networks; for rails over several PFs it also creates OVS bridges,
    installs a hook for safe starts of OVS (\<^verbatim>\<open>internal/ovssafestart\<close>) and deploys the xplane
    DaemonSet. Every agent reports the state of its node into the shared status of the resource.
  \<^item> The \<^emph>\<open>pod reconciler\<close> (\<^verbatim>\<open>flow_controller.go\<close>) programs the OpenFlow rules of a pod's interfaces
    through the functions of \<^verbatim>\<open>flows.go\<close>, and removes them when the pod goes.
  \<^item> The \<^emph>\<open>stale flow cleaner\<close> (\<^verbatim>\<open>internal/staleflows\<close>) periodically removes rules of pods that are gone.
  \<^item> The \<^emph>\<open>VF state follower\<close> (\<^verbatim>\<open>internal/vfstatefollower\<close>, \<^verbatim>\<open>pkg/lib/netlink\<close>) mirrors the loss of
    carrier on all PFs of a rail to the representors of the VFs inside pods.
  \<^item> The \<^emph>\<open>file watcher\<close> (\<^verbatim>\<open>pkg/filewatcher\<close>) triggers both reconcilers when OVS restarts.

  \<^bold>\<open>How the program is modelled.\<close> A Go function that only computes is a HOL function; strings are
  lists of characters, errors are values of \<open>goerr\<close> (with \<open>%w\<close> wrapping as a constructor, so that
  \<open>errors.Is\<close> can look through it) and fallible functions return a sum. A function with effects is a
  computation in the state monad over a \<open>world\<close>: the state \<open>'w\<close> of everything outside, which is a type
  variable, and the list of events the program has produced (shell commands, API writes, file
  operations, link changes), each with the answer it got. The shell, the API client, the
  operating system, netlink and the functions of the Kubernetes and SR-IOV libraries are records
  of functions that the definitions take as arguments; nothing is assumed of them unless a theorem
  names a law (\<open>retry_law\<close>, \<open>errors_law\<close>, \<open>labels_law\<close>, \<open>finalizer_law\<close>, \<open>multierr_law\<close>, \<open>daemonset_law\<close>,
  \<open>equality_law\<close>, \<open>range_law\<close>) or a locale predicate (\<open>file_system\<close>, \<open>kernel_links\<close>, \<open>status_server\<close>, \<open>contended_server\<close>,
  \<open>object_store\<close>, \<open>tracked_store\<close>, \<open>shared_store\<close>, \<open>gomock_library\<close>, \<open>daemonset_server\<close>, \<open>ovs_switch\<close>, \<open>ovs_database\<close>,
  \<open>xplane_host\<close>, \<open>event_delivery\<close>, \<open>copy_library\<close>). Values are immutable in most
  of the model; where the program shares memory through pointers, slices and maps, \<open>Go_Memory\<close> has an
  explicit memory, and the functional description is shown to be what the code on it computes. Loops are structural
  recursions with the local variables as arguments, so every definition is total and no fuel is
  used; the goroutines with \<open>select\<close> are functions of the sequence of ready channels. A Go panic is
  a value (\<open>Panicked\<close> in \<open>Flow_Controller\<close>). The number of repetitions in \<open>RetryOnConflict\<close> is
  not fixed: \<open>retry_law\<close> says that there is some bound.

  \<^bold>\<open>Theories.\<close>

  \<^item> \<open>Go_Base\<close>: the prelude. Go strings (\<open>Split\<close>, \<open>Join\<close>, \<open>Contains\<close>, \<open>TrimSuffix\<close>, paths, formatting), errors,
    and the lemmas on them that components share. \<open>Go_Net\<close>: \<open>net.ParseCIDR\<close> and addresses.
  \<^item> \<open>Api_Types\<close>: \<^verbatim>\<open>api/v1alpha2\<close>, \<^verbatim>\<open>pkg/state\<close> and the fields of third-party objects that the code uses.
    The locale \<open>node_state_store\<close> is the contract of the list of node states.
  \<^item> \<open>World\<close>: events and the trace logic (\<open>trace_spec\<close>, \<open>emits\<close>) in which effects are specified.
  \<^item> \<open>Exec_Api\<close>: \<^verbatim>\<open>pkg/exec\<close>, and plans, lists of commands with the text their failure is reported with;
    functions that run commands in order are shown equal to the run of a plan.
  \<^item> \<open>Cookie\<close>, \<open>Flows\<close>, \<open>Flow_Controller\<close>: the cookie of a pod, all of \<^verbatim>\<open>flows.go\<close>, the pod reconciler. The
    locale \<open>flows_api\<close> is the interface \<open>FlowsAPI\<close>, interpreted by the functions of \<^verbatim>\<open>flows.go\<close>; the
    reconciler and the cleaner are its clients. Shown: the commands and their order, completeness of
    the passes over bridges, reading back of printed tags, the error and panic paths; that the cookie
    is the FNV-1a hash of the pod's UID, computed on 64-bit words.
  \<^item> \<open>Ovs_Effects\<close>: what these commands do to the switch. The locale \<open>ovs_switch\<close> is the contract of
    the eight commands that pods need, on a state of bridges, rules and tags; a rule that is added replaces one with the
    same match and priority, whatever its cookie, as OpenFlow has it. Shown: what adding the flows of a pod and deleting them again
    leaves, and a pass of the cleaner; other rules stay, unless a rule of the pod has replaced them.
  \<^item> \<open>Stale_Cleaner\<close>: \<^verbatim>\<open>internal/staleflows\<close>. Shown: every branch of a pass, and that listed pods are spared.
  \<^item> \<open>Safe_Start\<close>: \<^verbatim>\<open>internal/ovssafestart\<close>. The locale \<open>file_system\<close> is the contract of the disk. Shown:
    atomic and idempotent installation.
  \<^item> \<open>Cluster\<close>: the API client, library functions and their laws, the reconciler's record
    (\<^verbatim>\<open>pkg/config\<close> included), and a concrete cluster at which theorems are applied.
  \<^item> \<open>Status\<close>, \<open>Status_Protocol\<close>: status reporting. \<open>sync_spec\<close> is the specification of the overall state and
    the aggregation loop refines it; a status patch is one write that touches the own entry. \<open>Status_Protocol\<close>
    models the object on the server as an inductive step relation of concurrent agents and users
    with optimistic locking, and of nodes that are added, removed and relabelled and are listed from a cache; every run of the
    code is a sequence of its steps, so its invariant
    (no report is lost, the overall state is the specification of the accepted reports over the nodes selected now or before) holds after
    any interleaving. \<open>Status_Retry\<close> is about the repetitions on conflicts: a report takes at most one patch
    more than there are repetitions, and, on a server that accepts only patches based on its own version, it gets through when there
    are not more competing writes than that (the locale \<open>contended_server\<close>).
  \<^item> \<open>Go_Memory\<close>, \<open>Deep_Copy\<close>, \<open>Status_Memory\<close>: a memory of typed arrays and maps with pointers and slices, where \<open>None\<close> is an
    access that would panic or read another type; all of \<^verbatim>\<open>zz_generated.deepcopy.go\<close> on it; and the write of a status report through
    \<open>GetNodeState\<close>'s pointer or \<open>append\<close>. The locale \<open>deep_copier\<close> is the contract of a deep copy, closed under the ways
    copies are put together; every generated function is an interpretation (those that reach the metadata of Kubernetes in the
    locale \<open>copy_library\<close>, its contract). Shown: copies succeed, are equal and share nothing, memory
    stays well typed, and the status write computes the functions of \<open>Status\<close> on every branch without touching the base of the patch.
  \<^item> \<open>Generate\<close>, \<open>XPlane\<close>, \<open>Rail_Reconciler\<close>, \<open>Rail_Properties\<close>: the generated objects; bridges, DaemonSets and
    tolerations; the reconcile loop with deletion and removal of rails; and its theorems: what a
    successful run has applied, order of the finalizer, scope and completeness of removals, silence of
    agents that are not selected.
  \<^item> \<open>Views\<close>, \<open>Object_Store\<close>, \<open>Store_Properties\<close>: what a reconciliation does to the objects in the API server.
    \<open>Views\<close> is a small logic of operations that keep a view of the outside or refine a function on it. The locale
    \<open>outside_access\<close> has what follows from the reads, commands and other writes moving the world within a preorder;
    the contracts of the store are sublocales of it. The locale \<open>object_store\<close> is the contract of accepted writes, \<open>lawful_store\<close> adds the laws of the libraries;
    inside it \<open>Reconcile\<close> refines \<open>reconcile_store\<close>, and the deletion \<open>clear_store\<close>. Shown: a run without an error
    reaches the desired objects, a second one changes nothing, a deletion leaves no object of the rails in the specification,
    and two cases in which objects of an earlier specification remain.
  \<^item> \<open>Daemonset_Sync\<close>: the DaemonSets on the API server (locale \<open>daemonset_server\<close>). Shown: synchronisation reaches a DaemonSet in
    sync and then sends nothing; and what sharing one DaemonSet between pools and clearing a node selector lead to.
  \<^item> \<open>Vsctl\<close>, \<open>XPlane_Topology\<close>: the bridges on the switch. \<open>Vsctl\<close> reads a command line of \<^verbatim>\<open>ovs-vsctl\<close> as a transaction and runs it on
    bridges and ports; the locale \<open>ovs_database\<close> says that the shell does this, and that a failed command changes nothing (of
    command lines without characters that are special to the shell, and only for the subcommands that the code uses). Shown: the commands that the
    code prints are read as intended; a rail that was set up without a failure is joined, and other rails stay so;
    the removal of a multiplane rail disconnects the others.
  \<^item> \<open>Store_Frame\<close>, \<open>Agent_Loop\<close>: the agent at work, as an inductive step relation of users who change pools, events, the
    queue and the worker. The locale \<open>tracked_store\<close> adds to \<open>lawful_store\<close> that a write answered with an error was carried out or not; inside it a run, also
    one that fails, changes only objects of its own pool (\<open>Reconcile_scope\<close>). The invariant \<open>agent_inv\<close> holds in every
    reachable state. Shown: an agent with nothing to do has every pool in its desired state, and it gets there.
  \<^item> \<open>Compat_Writes\<close>, \<open>Shared_Store\<close>: all agents reconcile all pools at the same time, so other writes come between any two
    of a run. A change of the store is \<open>compatible\<close> with a set of pools if it keeps the store in order and undoes nothing of what
    they want, and a write is \<open>harmless\<close> if it is such a change in every state. The locale \<open>shared_store\<close>
    is the contract of a store that others change compatibly before, during and after every request; \<open>achieves\<close> is the rule of
    sequencing under it: what an operation has established lasts through the next. Shown, by rely and guarantee: every run of \<open>Reconcile\<close> sends
    harmless writes only, which is what the others rely on, and a successful one has reached the desired objects.
  \<^item> \<open>Watches\<close>, \<open>Controllers\<close>: the functions that map events of other objects to requests, and both
    \<open>SetupWithManager\<close> with their predicates, as a value. The locale \<open>event_delivery\<close> says how controller-runtime
    combines predicates and delivers events. Shown: exactly which requests an event of each kind leads to.
  \<^item> \<open>Program_Start\<close>: the configuration, the version string and \<open>main\<close>. Shown: the parts are
    started in the order of a plan up to the first failure, after which nothing more is started, and share client, node, shell and
    flows as the plan says (of the fields of the rail pool reconciler the scheme, the flows and the bridge manager, which no modelled
    method reads, are left out); a change of the PID
    file of OVS reaches both reconcilers, through two channels whose sends wait for their receivers. \<open>Scheme\<close>: the registration of the types with the scheme, on a library of schemes with the
    contract \<open>scheme_library\<close>. Shown: after the initialisation both types of the group are known.
  \<^item> \<open>Monitor\<close>: the follower. The locale \<open>kernel_links\<close> is the contract of the kernel, in which lookups and
    settings of links can fail. Shown: one round makes
    the representors mirror the carrier, but for those whose lookup or setting failed; a further one changes nothing.
  \<^item> \<open>File_Watcher\<close>, \<open>Pci\<close>: the watcher refines a count of observed changes; the NIC filter returns
    the first interface of every slot, sorted.
  \<^item> \<open>Mocks\<close>: the generated mocks of \<open>FlowsAPI\<close> and \<open>exec.API\<close>, as mutually linked cells of a heap. The locale \<open>gomock_library\<close> is
    the contract of gomock. Shown: a mock answers what its recorder was told, once, for every method.

  \<^bold>\<open>Interfaces.\<close> Every locale is interpreted: \<open>node_state_store\<close>, \<open>flows_api\<close>, the execution interface and
  \<open>status_reports\<close>/\<open>lawful_reconciler\<close> and \<open>deep_copier\<close> on the functions of the program; \<open>file_system\<close>, \<open>kernel_links\<close>,
  \<open>status_server\<close>, \<open>contended_server\<close>, \<open>ovs_switch\<close>, \<open>ovs_database\<close>/\<open>xplane_host\<close>, \<open>event_delivery\<close>, \<open>copy_library\<close>, \<open>daemonset_server\<close> and
  \<open>object_store\<close>/\<open>lawful_store\<close>/\<open>tracked_store\<close>, \<open>shared_store\<close> (with a second agent that writes in between),
  \<open>agreeable_server\<close>, \<open>scheme_library\<close> and \<open>gomock_library\<close>, whose providers
  are outside the repository, on executable simulations, which also serve as the instances at
  which the theorems with such hypotheses are applied.

  \<^bold>\<open>Not modelled.\<close> The mock of netlink, which is generated like the others, the helpers of the end-to-end
  tests, logging, and time: tickers are sequences of ticks, and a command's timeout is an outcome of the shell. Of the manager,
  the flag and environment parsers and the SR-IOV host manager only the calls are modelled. In third-party
  objects, fields that the code neither reads nor sets are left out. Outside \<open>Go_Memory\<close> deep copies are the
  identity, since HOL values are not shared. In \<open>Agent_Loop\<close> there is one agent, whose run takes
  effect in one step; runs that interleave write by write are the subject of \<open>Shared_Store\<close> for the objects and of
  \<open>Status_Protocol\<close> for the status. All agents are taken to see the same specification of a pool: an agent that still acts
  on an older one writes what that one wants, which \<open>compatible\<close> excludes. The flows of multiplane bridges, which the xplane
  service programs, are no part of the repository.
\<close>

end
